(* ===== verification/Prelude.thy ===== *)
theory Prelude
  imports Main "HOL-Library.Multiset" "HOL-Library.Char_ord" "HOL-Library.List_Lexorder"
begin

section \<open>Shared vocabulary of the FinancialOS model\<close>

text \<open>
  What every component of the model uses: JavaScript numbers as the code inspects them,
  JSON values (event payloads, error details), the decimal text of a bigint and its parser,
  \<open>Array.prototype.sort\<close>, and the operations of a database table seen as a list of rows.
  Strings are lists of bytes (the UTF-8 text); identifiers, money and instants are
  \<open>string\<close>, \<open>int\<close> (a bigint is unbounded) and \<open>int\<close> (milliseconds since the epoch).
  The generic lemmas here are declared to the simplifier or collected in
  \<open>table_simps\<close>, so that component proofs are short.
\<close>

named_theorems table_simps "rewrite rules for table operations"
named_theorems table_intros "introduction rules for table invariants"

type_synonym uuid = string
type_synonym cents = int
type_synonym instant = int

subsection \<open>JavaScript numbers and JSON\<close>

text \<open>
  A JavaScript \<open>number\<close> as the guards of the code see it: \<open>Number.isInteger\<close> tells the two
  constructors apart, and every use after the guard is of an integer. A non-integer carries
  the text the code would print for it.
\<close>

datatype js_number = IntegerNum int | NonIntegerNum string

fun is_integer :: "js_number \<Rightarrow> bool" where
  "is_integer (IntegerNum _) = True"
| "is_integer (NonIntegerNum _) = False"

datatype json =
    JNull
  | JBool bool
  | JNum int
  | JStr string
  | JArr "json list"
  | JObj "(string \<times> json) list"

fun json_of_number :: "js_number \<Rightarrow> json" where
  "json_of_number (IntegerNum n) = JNum n"
| "json_of_number (NonIntegerNum s) = JStr s"

definition jstr_or_null :: "string option \<Rightarrow> json" where
  "jstr_or_null x = (case x of None \<Rightarrow> JNull | Some s \<Rightarrow> JStr s)"

text \<open>\<open>typeof v === 'string' ? v : null\<close> on a field of an object.\<close>

definition string_field :: "(string \<times> json) list \<Rightarrow> string \<Rightarrow> string option" where
  "string_field fields k = (case map_of fields k of Some (JStr s) \<Rightarrow> Some s | _ \<Rightarrow> None)"

text \<open>Object spread \<open>{...fields, k: v}\<close>: the later key wins.\<close>

definition with_field :: "(string \<times> json) list \<Rightarrow> string \<Rightarrow> json \<Rightarrow> (string \<times> json) list" where
  "with_field fields k v = filter (\<lambda>(k', _). k' \<noteq> k) fields @ [(k, v)]"

lemma map_of_filter_key [simp]:
  "map_of (filter (\<lambda>(k', _). k' \<noteq> k) fs) k' = (if k' = k then None else map_of fs k')"
  by (induction fs) auto

lemma map_of_with_field [simp]:
  "map_of (with_field fs k v) k' = (if k' = k then Some v else map_of fs k')"
  by (auto simp: with_field_def map_add_def split: option.splits)

subsection \<open>Decimal text of integers\<close>

definition digit_chars :: string where
  "digit_chars = ''0123456789''"

definition digit :: "nat \<Rightarrow> char" where
  "digit n = digit_chars ! n"

definition digit_val :: "char \<Rightarrow> nat option" where
  "digit_val c = map_of (zip digit_chars [0..<10]) c"

fun show_nat :: "nat \<Rightarrow> string" where
  "show_nat n = (if n < 10 then [digit n] else show_nat (n div 10) @ [digit (n mod 10)])"

declare show_nat.simps [simp del]

definition show_int :: "int \<Rightarrow> string" where
  "show_int i = (if i < 0 then CHR ''-'' # show_nat (nat (- i)) else show_nat (nat i))"

fun parse_digits :: "nat \<Rightarrow> string \<Rightarrow> nat option" where
  "parse_digits acc [] = Some acc"
| "parse_digits acc (c # cs) =
     (case digit_val c of None \<Rightarrow> None | Some d \<Rightarrow> parse_digits (10 * acc + d) cs)"

definition parse_nat :: "string \<Rightarrow> nat option" where
  "parse_nat s = (if s = [] then None else parse_digits 0 s)"

text \<open>
  \<open>BigInt(s)\<close> on the strings that match \<open>/^-?\d+$/\<close>; \<open>None\<close> for every other string.
\<close>

definition parse_int :: "string \<Rightarrow> int option" where
  "parse_int s = (case s of
      [] \<Rightarrow> None
    | c # cs \<Rightarrow> if c = CHR ''-'' then map_option (\<lambda>n. - int n) (parse_nat cs)
               else map_option int (parse_nat s))"

lemma less_10_cases:
  "(n::nat) < 10 \<Longrightarrow> n = 0 \<or> n = 1 \<or> n = 2 \<or> n = 3 \<or> n = 4 \<or> n = 5 \<or> n = 6 \<or> n = 7 \<or> n = 8 \<or> n = 9"
  by arith

lemma digit_val_digit [simp]: "n < 10 \<Longrightarrow> digit_val (digit n) = Some n"
  by (drule less_10_cases) (auto simp: digit_val_def digit_def digit_chars_def upt_rec)

lemma digit_not_minus: "n < 10 \<Longrightarrow> digit n \<noteq> CHR ''-''"
  by (drule less_10_cases) (auto simp: digit_def digit_chars_def)

lemma show_nat_nonempty [simp]: "show_nat n \<noteq> []"
  by (subst show_nat.simps) simp

lemma hd_show_nat: "hd (show_nat n) \<noteq> CHR ''-''"
proof (induction n rule: show_nat.induct)
  case (1 n)
  show ?case
    by (cases "n < 10")
      (use 1 in \<open>simp_all add: show_nat.simps [of n] digit_not_minus hd_append\<close>)
qed

lemma parse_digits_append:
  "parse_digits a (xs @ [c]) =
     (case parse_digits a xs of None \<Rightarrow> None
      | Some n \<Rightarrow> (case digit_val c of None \<Rightarrow> None | Some d \<Rightarrow> Some (10 * n + d)))"
  by (induction xs arbitrary: a) (auto split: option.splits)

lemma parse_show_nat [simp]: "parse_digits 0 (show_nat n) = Some n"
proof (induction n rule: show_nat.induct)
  case (1 n)
  show ?case
    by (cases "n < 10")
      (use 1 in \<open>simp_all add: show_nat.simps [of n] parse_digits_append\<close>)
qed

lemma parse_show_int [simp]: "parse_int (show_int i) = Some i"
proof (cases "i < 0")
  case True
  then show ?thesis by (simp add: show_int_def parse_int_def parse_nat_def)
next
  case False
  obtain c cs where s: "show_nat (nat i) = c # cs" by (cases "show_nat (nat i)") auto
  with hd_show_nat [of "nat i"] have "c \<noteq> CHR ''-''" by simp
  moreover from s parse_show_nat [of "nat i"] have "parse_digits 0 (c # cs) = Some (nat i)" by simp
  ultimately show ?thesis using False s by (simp add: show_int_def parse_int_def parse_nat_def del: parse_digits.simps)
qed

subsection \<open>Array.prototype.sort\<close>

text \<open>
  The standard's sort is stable; on a comparator that is a total preorder it is insertion
  sort by the comparator. \<open>cmp a b \<le> 0\<close> keeps \<open>a\<close> before \<open>b\<close>.
\<close>

fun js_insert :: "('a \<Rightarrow> 'a \<Rightarrow> int) \<Rightarrow> 'a \<Rightarrow> 'a list \<Rightarrow> 'a list" where
  "js_insert cmp x [] = [x]"
| "js_insert cmp x (y # ys) = (if cmp x y \<le> 0 then x # y # ys else y # js_insert cmp x ys)"

fun js_sort :: "('a \<Rightarrow> 'a \<Rightarrow> int) \<Rightarrow> 'a list \<Rightarrow> 'a list" where
  "js_sort cmp [] = []"
| "js_sort cmp (x # xs) = js_insert cmp x (js_sort cmp xs)"

lemma mset_js_insert [simp]: "mset (js_insert cmp x xs) = add_mset x (mset xs)"
  by (induction xs) auto

lemma mset_js_sort [simp]: "mset (js_sort cmp xs) = mset xs"
  by (induction xs) auto

lemma set_js_insert [simp]: "set (js_insert cmp x xs) = insert x (set xs)"
  by (induction xs) auto

lemma set_js_sort [simp]: "set (js_sort cmp xs) = set xs"
  by (induction xs) auto

lemma length_js_sort [simp]: "length (js_sort cmp xs) = length xs"
  by (metis mset_js_sort size_mset)

lemma sorted_js_insert:
  assumes total: "\<And>a b. cmp a b \<le> 0 \<or> cmp b a \<le> 0"
    and trans: "\<And>a b c. cmp a b \<le> 0 \<Longrightarrow> cmp b c \<le> 0 \<Longrightarrow> cmp a c \<le> 0"
    and "sorted_wrt (\<lambda>a b. cmp a b \<le> 0) xs"
  shows "sorted_wrt (\<lambda>a b. cmp a b \<le> 0) (js_insert cmp x xs)"
  using assms(3)
proof (induction xs)
  case Nil
  show ?case by simp
next
  case (Cons y ys)
  then show ?case using total [of x y] by (auto intro: trans)
qed

lemma sorted_js_sort:
  assumes "\<And>a b. cmp a b \<le> 0 \<or> cmp b a \<le> 0"
    and "\<And>a b c. cmp a b \<le> 0 \<Longrightarrow> cmp b c \<le> 0 \<Longrightarrow> cmp a c \<le> 0"
  shows "sorted_wrt (\<lambda>a b. cmp a b \<le> 0) (js_sort cmp xs)"
  by (induction xs) (simp_all add: assms sorted_js_insert)

subsection \<open>Tables as lists of rows\<close>

text \<open>
  A table is a list of rows; the order of the list is the order in which the database
  happens to return rows, which the code never fixes unless it sorts. Every theorem is about
  all lists, hence about every such order. \<open>findUnique\<close> and \<open>findFirst\<close> are
  \<^const>\<open>List.find\<close>, \<open>findMany\<close> is \<^const>\<open>filter\<close>.
\<close>

definition update_where :: "('r \<Rightarrow> bool) \<Rightarrow> ('r \<Rightarrow> 'r) \<Rightarrow> 'r list \<Rightarrow> 'r list" where
  "update_where p f rows = map (\<lambda>r. if p r then f r else r) rows"

definition count_where :: "('r \<Rightarrow> bool) \<Rightarrow> 'r list \<Rightarrow> nat" where
  "count_where p rows = length (filter p rows)"

text \<open>\<open>findFirst\<close> with \<open>orderBy: key desc\<close>: a row with the largest key.\<close>

fun find_first_desc :: "('r \<Rightarrow> int) \<Rightarrow> 'r list \<Rightarrow> 'r option" where
  "find_first_desc k [] = None"
| "find_first_desc k (r # rs) =
     (case find_first_desc k rs of
        None \<Rightarrow> Some r
      | Some q \<Rightarrow> if k r < k q then Some q else Some r)"

lemma update_where_Nil [table_simps]: "update_where p f [] = []"
  by (simp add: update_where_def)

lemma update_where_Cons [table_simps]:
  "update_where p f (r # rs) = (if p r then f r else r) # update_where p f rs"
  by (simp add: update_where_def)

lemma update_where_append [table_simps]:
  "update_where p f (xs @ ys) = update_where p f xs @ update_where p f ys"
  by (simp add: update_where_def)

lemma length_update_where [simp]: "length (update_where p f rows) = length rows"
  by (simp add: update_where_def)

lemma set_update_where [table_simps]:
  "r \<in> set (update_where p f rows) \<longleftrightarrow> (\<exists>q \<in> set rows. r = (if p q then f q else q))"
  by (auto simp: update_where_def)

lemma update_where_hit:
  assumes "r \<in> set (update_where p f rows)" and "p r" and "\<And>x. p (f x) = p x"
  obtains x where "x \<in> set rows" "p x" "r = f x"
  using assms by (auto simp: update_where_def split: if_splits)

lemma map_update_where:
  "(\<And>r. g (f r) = g r) \<Longrightarrow> map g (update_where p f rows) = map g rows"
  by (simp add: update_where_def)

lemma update_where_none: "(\<And>r. r \<in> set rows \<Longrightarrow> \<not> p r) \<Longrightarrow> update_where p f rows = rows"
  by (induction rows) (auto simp: update_where_def)

lemma filter_update_where_other:
  "(\<And>r. p r \<Longrightarrow> q (f r) = q r) \<Longrightarrow> (\<And>r. p r \<Longrightarrow> \<not> q r)
     \<Longrightarrow> filter q (update_where p f rows) = filter q rows"
  by (induction rows) (auto simp: update_where_def)

lemma filter_update_where:
  "(\<And>r. p r \<Longrightarrow> q (f r) = q r) \<Longrightarrow> filter q (update_where p f rows) = update_where p f (filter q rows)"
  by (induction rows) (auto simp: update_where_def)

lemma find_append:
  "List.find p (xs @ ys) = (case List.find p xs of None \<Rightarrow> List.find p ys | Some x \<Rightarrow> Some x)"
  by (induction xs) auto

lemma find_SomeD: "List.find p xs = Some x \<Longrightarrow> x \<in> set xs \<and> p x"
  by (induction xs) (auto split: if_splits)

lemma find_NoneD: "List.find p xs = None \<Longrightarrow> x \<in> set xs \<Longrightarrow> \<not> p x"
  by (induction xs) (auto split: if_splits)

lemma find_update_where_same:
  "(\<And>r. p (f r) = p r) \<Longrightarrow> List.find p (update_where p f rows) = map_option f (List.find p rows)"
  by (induction rows) (auto simp: update_where_def)

lemma find_update_where_other:
  "(\<And>r. q r \<Longrightarrow> \<not> p (f r) \<and> \<not> p r) \<Longrightarrow> List.find p (update_where q f rows) = List.find p rows"
  by (induction rows) (auto simp: update_where_def)

text \<open>A column with distinct values identifies its row: the primary keys of the schema.\<close>

lemma find_unique:
  assumes "distinct (map k rows)" and "r \<in> set rows"
  shows "List.find (\<lambda>q. k q = k r) rows = Some r"
  using assms by (induction rows) (auto simp: rev_image_eqI split: if_splits)

lemma distinct_key_eq:
  "distinct (map k rows) \<Longrightarrow> a \<in> set rows \<Longrightarrow> b \<in> set rows \<Longrightarrow> k a = k b \<Longrightarrow> a = b"
  by (meson distinct_map inj_onD)

lemma find_first_desc_None [simp]: "find_first_desc k rows = None \<longleftrightarrow> rows = []"
  by (cases rows) (auto split: option.splits)

lemma find_first_desc_Some:
  "find_first_desc k rows = Some r \<Longrightarrow> r \<in> set rows \<and> (\<forall>q \<in> set rows. k q \<le> k r)"
proof (induction rows arbitrary: r)
  case Nil
  then show ?case by simp
next
  case (Cons x xs)
  show ?case
  proof (cases "find_first_desc k xs")
    case None
    with Cons.prems show ?thesis by simp
  next
    case (Some q)
    from Cons.IH [OF Some] have "q \<in> set xs" "\<forall>p \<in> set xs. k p \<le> k q" by auto
    with Some Cons.prems show ?thesis by (fastforce split: if_splits)
  qed
qed

lemma find_first_desc_unique:
  assumes "r \<in> set rows" and "\<And>q. q \<in> set rows \<Longrightarrow> q \<noteq> r \<Longrightarrow> k q < k r"
  shows "find_first_desc k rows = Some r"
proof -
  from assms(1) obtain q where q: "find_first_desc k rows = Some q"
    by (cases "find_first_desc k rows") auto
  from find_first_desc_Some [OF this] assms have "q = r" by force
  with q show ?thesis by simp
qed

end
