(* ===== verification/Deployment.thy ===== *)
theory Deployment
  imports Prelude
begin

section \<open>Configuration at startup\<close>

text \<open>
  \<open>src/apps/api/src/common/config\<close>: the validation of the environment
  (\<open>config.module.ts\<close>) and the data-protection posture (\<open>data-protection.ts\<close>). An
  environment variable is a string or absent. The texts of the errors are left out, and JavaScript's
  \<open>Number\<close> on strings is an argument of the validation.
\<close>

subsection \<open>Data protection\<close>

definition PII_LOG_REDACTION_PATHS :: "string list" where
  "PII_LOG_REDACTION_PATHS =
     [''req.headers.authorization'', ''req.headers.cookie'',
      ''*.amountCents'', ''*.declaredIncomeCents'', ''*.balance'', ''*.openingBalanceCents'', ''*.email'', ''*.displayName'',
      ''*.apiKey'', ''*.password'']"

definition tls_modes :: "string list" where
  "tls_modes = [''require'', ''verify-ca'', ''verify-full'']"

definition starts_with :: "string \<Rightarrow> string \<Rightarrow> bool" where
  "starts_with w url \<longleftrightarrow> take (length w) url = w"

text \<open>\<open>/[?&]sslmode=(require|verify-ca|verify-full)/.test(url)\<close>: a match at any position.\<close>

fun requestsTls :: "string \<Rightarrow> bool" where
  "requestsTls [] = False"
| "requestsTls (c # cs) =
     ((c = CHR ''?'' \<or> c = CHR ''&'') \<and> list_ex (\<lambda>m. starts_with (''sslmode='' @ m) cs) tls_modes \<or> requestsTls cs)"

record data_protection_posture =
  databaseTls :: bool
  atRestEncryption :: string

datatype startup_failure = MissingVariable string | InsecureDatabase

definition assertDataProtectionPosture :: "string \<Rightarrow> string \<Rightarrow> startup_failure + data_protection_posture" where
  "assertDataProtectionPosture databaseUrl nodeEnv =
     (let tls = requestsTls databaseUrl
      in if nodeEnv = ''production'' \<and> \<not> tls then Inl InsecureDatabase else Inr \<lparr>databaseTls = tls, atRestEncryption = ''storage-layer (cloud KMS / volume encryption)''\<rparr>)"

subsection \<open>Validation\<close>

record app_config =
  DATABASE_URL :: string
  REDIS_URL :: string
  OPENROUTER_API_KEY :: string
  PORT :: js_number
  NODE_ENV :: string

type_synonym environment = "string \<Rightarrow> string option"

definition required :: "environment \<Rightarrow> string \<Rightarrow> startup_failure + string" where
  "required raw key = (case raw key of Some (c # cs) \<Rightarrow> Inr (c # cs) | _ \<Rightarrow> Inl (MissingVariable key))"

definition node_env :: "environment \<Rightarrow> string" where
  "node_env raw = (case raw ''NODE_ENV'' of Some v \<Rightarrow> v | None \<Rightarrow> ''development'')"

definition configValidationSchema :: "(string \<Rightarrow> js_number) \<Rightarrow> environment \<Rightarrow> startup_failure + app_config" where
  "configValidationSchema number raw =
     (case required raw ''DATABASE_URL'' of
        Inl e \<Rightarrow> Inl e
      | Inr url \<Rightarrow>
          (case assertDataProtectionPosture url (node_env raw) of
             Inl e \<Rightarrow> Inl e
           | Inr _ \<Rightarrow>
               (case required raw ''REDIS_URL'' of
                  Inl e \<Rightarrow> Inl e
                | Inr redis \<Rightarrow>
                    Inr \<lparr>DATABASE_URL = url, REDIS_URL = redis,
                         OPENROUTER_API_KEY = (case raw ''OPENROUTER_API_KEY'' of Some k \<Rightarrow> k | None \<Rightarrow> []),
                         PORT = (case raw ''PORT'' of Some (c # cs) \<Rightarrow> number (c # cs) | _ \<Rightarrow> IntegerNum 3000),
                         NODE_ENV = node_env raw\<rparr>)))"

subsection \<open>When the server starts\<close>

lemma starts_with_iff: "starts_with w url \<longleftrightarrow> (\<exists>rest. url = w @ rest)"
  by (auto simp: starts_with_def) (metis append_take_drop_id)

lemma requestsTls_iff:
  "requestsTls url \<longleftrightarrow> (\<exists>before c mode rest. url = before @ c # ''sslmode='' @ mode @ rest
     \<and> (c = CHR ''?'' \<or> c = CHR ''&'') \<and> mode \<in> set tls_modes)" (is "_ \<longleftrightarrow> (\<exists>before c mode rest. ?here url before c mode rest)")
proof (induction url)
  case (Cons d cs)
  have first: "(\<exists>mode rest. ?here (d # cs) [] c mode rest) \<longleftrightarrow>
      c = d \<and> (c = CHR ''?'' \<or> c = CHR ''&'') \<and> list_ex (\<lambda>m. starts_with (''sslmode='' @ m) cs) tls_modes" for c
    by (auto simp: list_ex_iff starts_with_iff)
  show ?case
  proof
    assume "requestsTls (d # cs)"
    then consider "(d = CHR ''?'' \<or> d = CHR ''&'') \<and> list_ex (\<lambda>m. starts_with (''sslmode='' @ m) cs) tls_modes" | "requestsTls cs"
      by auto
    then show "\<exists>before c mode rest. ?here (d # cs) before c mode rest"
    proof cases
      case 1
      then show ?thesis using first [of d] by blast
    next
      case 2
      with Cons.IH obtain before c mode rest where "?here cs before c mode rest" by blast
      then have "?here (d # cs) (d # before) c mode rest" by simp
      then show ?thesis by blast
    qed
  next
    assume "\<exists>before c mode rest. ?here (d # cs) before c mode rest"
    then obtain before c mode rest where h: "?here (d # cs) before c mode rest" by blast
    show "requestsTls (d # cs)"
    proof (cases before)
      case Nil
      with h first [of c] show ?thesis by auto
    next
      case (Cons e es)
      with h have "?here cs es c mode rest" by simp
      with Cons.IH show ?thesis by auto
    qed
  qed
qed simp

text \<open>The pattern has no end: a mode that no driver knows passes as TLS.\<close>

lemma open_ended_pattern: "requestsTls ''postgres://h/d?sslmode=requirements''"
  by code_simp

subsection \<open>Properties\<close>



end
