(* ===== verification/Errors.thy ===== *)
theory Errors
  imports Prelude
begin

section \<open>Errors and results\<close>

text \<open>
  \<open>src/apps/api/src/common/errors\<close>: the codes, the typed failure value, the \<open>Result\<close> of a
  command handler and its mapping to a GraphQL error, and the error catalog. The message text
  of an error is not modelled: \<open>catalog.ts\<close> makes \<open>extensions.code\<close> and
  \<open>extensions.details\<close> the contract and leaves the text free to change.
\<close>

subsection \<open>Codes and failures\<close>

datatype domain_error_code =
    CONFLICT
  | FORBIDDEN
  | NOT_FOUND
  | VALIDATION
  | INVARIANT
  | CURRENCY_MISMATCH
  | OVERPAYMENT
  | CAP_EXCEEDED
  | ARCHIVED_ERROR

datatype transport_error_code =
    UNAUTHENTICATED
  | RATE_LIMITED
  | BAD_USER_INPUT
  | INTERNAL_SERVER_ERROR

record domain_error =
  error_code :: domain_error_code
  error_details :: "(string \<times> json) list option"

text \<open>Everything else that leaves a function: thrown values that are not a \<open>DomainError\<close>.\<close>

datatype exn =
    TypeError
  | RangeError
  | SyntaxError
  | CurrencyMismatchError string string
  | InvalidCurrencyError string
  | UniqueConstraintError string
  | GenericError

text \<open>
  \<open>Result<T>\<close> is \<open>Ok\<close> or \<open>Err\<close>; \<open>Thrown\<close> is the third way a function can end. Domain
  functions return only the first two.
\<close>

datatype 'a result = Ok 'a | Err domain_error | Thrown exn

fun isOk :: "'a result \<Rightarrow> bool" where
  "isOk (Ok _) = True"
| "isOk (Err _) = False"
| "isOk (Thrown _) = False"

fun isErr :: "'a result \<Rightarrow> bool" where
  "isErr (Ok _) = False"
| "isErr (Err _) = True"
| "isErr (Thrown _) = False"

text \<open>\<open>unwrap\<close>: the value, or the failure thrown as an exception.\<close>

datatype 'a unwrapped = Value 'a | ThrewDomainError domain_error | ThrewOther exn

fun unwrap :: "'a result \<Rightarrow> 'a unwrapped" where
  "unwrap (Ok v) = Value v"
| "unwrap (Err e) = ThrewDomainError e"
| "unwrap (Thrown x) = ThrewOther x"

definition domain_error :: "domain_error_code \<Rightarrow> (string \<times> json) list option \<Rightarrow> domain_error" where
  "domain_error c d = \<lparr>error_code = c, error_details = d\<rparr>"

definition conflict :: "(string \<times> json) list option \<Rightarrow> domain_error" where
  "conflict d = domain_error CONFLICT d"

definition forbidden :: "(string \<times> json) list option \<Rightarrow> domain_error" where
  "forbidden d = domain_error FORBIDDEN d"

definition notFound :: "(string \<times> json) list option \<Rightarrow> domain_error" where
  "notFound d = domain_error NOT_FOUND d"

definition validation :: "(string \<times> json) list option \<Rightarrow> domain_error" where
  "validation d = domain_error VALIDATION d"

definition invariant_error :: "(string \<times> json) list option \<Rightarrow> domain_error" where
  "invariant_error d = domain_error INVARIANT d"

definition capExceeded :: "(string \<times> json) list option \<Rightarrow> domain_error" where
  "capExceeded d = domain_error CAP_EXCEEDED d"

definition overpayment :: "(string \<times> json) list option \<Rightarrow> domain_error" where
  "overpayment d = domain_error OVERPAYMENT d"

definition archived :: "(string \<times> json) list option \<Rightarrow> domain_error" where
  "archived d = domain_error ARCHIVED_ERROR d"

lemmas error_defs = domain_error_def conflict_def forbidden_def notFound_def validation_def
  invariant_error_def capExceeded_def overpayment_def archived_def

lemma error_code_constructors [simp]:
  "error_code (domain_error c d) = c"
  "error_code (conflict d) = CONFLICT"
  "error_code (forbidden d) = FORBIDDEN"
  "error_code (notFound d) = NOT_FOUND"
  "error_code (validation d) = VALIDATION"
  "error_code (invariant_error d) = INVARIANT"
  "error_code (capExceeded d) = CAP_EXCEEDED"
  "error_code (overpayment d) = OVERPAYMENT"
  "error_code (archived d) = ARCHIVED_ERROR"
  by (simp_all add: error_defs)

text \<open>The failure code of a result, if it failed.\<close>

fun failed_with :: "'a result \<Rightarrow> domain_error_code option" where
  "failed_with (Ok _) = None"
| "failed_with (Err e) = Some (error_code e)"
| "failed_with (Thrown _) = None"

subsection \<open>Mapping to GraphQL errors\<close>

text \<open>
  \<open>toGraphQLError\<close> sees a \<open>DomainError\<close>, a \<open>GraphQLError\<close> that some other layer raised, or
  anything else. The code of the first is kept; the third becomes an opaque
  \<open>INTERNAL_SERVER_ERROR\<close>.
\<close>

datatype gql_code = DomainCode domain_error_code | TransportCode transport_error_code | OtherCode string

record gql_error =
  gql_extension_code :: gql_code
  gql_extension_details :: "(string \<times> json) list option"

datatype raised = RaisedDomain domain_error | RaisedGraphQL gql_error | RaisedOther exn

fun toGraphQLError :: "raised \<Rightarrow> gql_error" where
  "toGraphQLError (RaisedDomain e) =
     \<lparr>gql_extension_code = DomainCode (error_code e), gql_extension_details = error_details e\<rparr>"
| "toGraphQLError (RaisedGraphQL g) = g"
| "toGraphQLError (RaisedOther x) =
     \<lparr>gql_extension_code = TransportCode INTERNAL_SERVER_ERROR, gql_extension_details = None\<rparr>"

fun isDomainErrorCode :: "raised \<Rightarrow> domain_error_code \<Rightarrow> bool" where
  "isDomainErrorCode (RaisedDomain e) c = (error_code e = c)"
| "isDomainErrorCode (RaisedGraphQL g) c = False"
| "isDomainErrorCode (RaisedOther x) c = False"

subsection \<open>The catalog\<close>

record catalog_entry =
  entry_code :: gql_code
  httpAnalogue :: nat
  retryable :: bool

definition ERROR_CATALOG :: "catalog_entry list" where
  "ERROR_CATALOG = [
     \<lparr>entry_code = DomainCode CONFLICT, httpAnalogue = 409, retryable = True\<rparr>,
     \<lparr>entry_code = DomainCode FORBIDDEN, httpAnalogue = 403, retryable = False\<rparr>,
     \<lparr>entry_code = DomainCode NOT_FOUND, httpAnalogue = 404, retryable = False\<rparr>,
     \<lparr>entry_code = DomainCode VALIDATION, httpAnalogue = 422, retryable = False\<rparr>,
     \<lparr>entry_code = DomainCode INVARIANT, httpAnalogue = 422, retryable = False\<rparr>,
     \<lparr>entry_code = DomainCode CURRENCY_MISMATCH, httpAnalogue = 422, retryable = False\<rparr>,
     \<lparr>entry_code = DomainCode OVERPAYMENT, httpAnalogue = 422, retryable = False\<rparr>,
     \<lparr>entry_code = DomainCode CAP_EXCEEDED, httpAnalogue = 422, retryable = False\<rparr>,
     \<lparr>entry_code = DomainCode ARCHIVED_ERROR, httpAnalogue = 409, retryable = False\<rparr>,
     \<lparr>entry_code = TransportCode UNAUTHENTICATED, httpAnalogue = 401, retryable = False\<rparr>,
     \<lparr>entry_code = TransportCode RATE_LIMITED, httpAnalogue = 429, retryable = True\<rparr>,
     \<lparr>entry_code = TransportCode BAD_USER_INPUT, httpAnalogue = 400, retryable = False\<rparr>,
     \<lparr>entry_code = TransportCode INTERNAL_SERVER_ERROR, httpAnalogue = 500, retryable = True\<rparr>]"

definition catalogEntry :: "gql_code \<Rightarrow> catalog_entry option" where
  "catalogEntry c = List.find (\<lambda>e. entry_code e = c) ERROR_CATALOG"

text \<open>The catalog is a function of the code and covers every code of both enumerations.\<close>

lemma catalog_codes_distinct: "distinct (map entry_code ERROR_CATALOG)"
  by (simp add: ERROR_CATALOG_def)

lemma catalog_domain_entry: "\<exists>e. catalogEntry (DomainCode c) = Some e \<and> entry_code e = DomainCode c"
  by (cases c) (simp_all add: catalogEntry_def ERROR_CATALOG_def)

lemma catalog_transport_entry:
  "\<exists>e. catalogEntry (TransportCode c) = Some e \<and> entry_code e = TransportCode c"
  by (cases c) (simp_all add: catalogEntry_def ERROR_CATALOG_def)

subsection \<open>Properties\<close>


end
