(* ===== verification/Money.thy ===== *)
theory Money
  imports Errors
begin

section \<open>Money\<close>

text \<open>
  \<open>src/apps/api/src/common/money/money.ts\<close>: an amount in integer minor units with an ISO 4217
  currency. A bigint is \<open>int\<close>. Currency text is ASCII here, so \<open>toUpperCase\<close> is letterwise.
\<close>

definition upper_char :: "char \<Rightarrow> char" where
  "upper_char c = (let n = of_char c :: nat in if 97 \<le> n \<and> n \<le> 122 then char_of (n - 32) else c)"

definition toUpperCase :: "string \<Rightarrow> string" where
  "toUpperCase s = map upper_char s"

definition is_upper_letter :: "char \<Rightarrow> bool" where
  "is_upper_letter c \<longleftrightarrow> (let n = of_char c :: nat in 65 \<le> n \<and> n \<le> 90)"

definition normalizeCurrency :: "string \<Rightarrow> string result" where
  "normalizeCurrency code =
     (let upper = toUpperCase code in
      if length upper = 3 \<and> list_all is_upper_letter upper then Ok upper
      else Thrown (InvalidCurrencyError code))"

record money =
  amountCents :: cents
  currency :: string

text \<open>The three kinds of argument \<open>Money.of\<close> accepts.\<close>

datatype cents_input = BigintCents int | NumberCents js_number | StringCents string

definition cents_of :: "cents_input \<Rightarrow> int result" where
  "cents_of a = (case a of
      BigintCents n \<Rightarrow> Ok n
    | NumberCents x \<Rightarrow> (case x of IntegerNum n \<Rightarrow> Ok n | NonIntegerNum _ \<Rightarrow> Thrown TypeError)
    | StringCents s \<Rightarrow> (case parse_int s of Some n \<Rightarrow> Ok n | None \<Rightarrow> Thrown TypeError))"

definition money_of :: "cents_input \<Rightarrow> string \<Rightarrow> money result" where
  "money_of a cur = (case cents_of a of
      Ok n \<Rightarrow> (case normalizeCurrency cur of
                Ok c \<Rightarrow> Ok \<lparr>amountCents = n, currency = c\<rparr>
              | Err e \<Rightarrow> Err e | Thrown x \<Rightarrow> Thrown x)
    | Err e \<Rightarrow> Err e | Thrown x \<Rightarrow> Thrown x)"

definition money_zero :: "string \<Rightarrow> money result" where
  "money_zero cur = (case normalizeCurrency cur of
      Ok c \<Rightarrow> Ok \<lparr>amountCents = 0, currency = c\<rparr> | Err e \<Rightarrow> Err e | Thrown x \<Rightarrow> Thrown x)"

definition money_plus :: "money \<Rightarrow> money \<Rightarrow> money result" where
  "money_plus a b =
     (if currency a \<noteq> currency b then Thrown (CurrencyMismatchError (currency a) (currency b))
      else Ok \<lparr>amountCents = amountCents a + amountCents b, currency = currency a\<rparr>)"

definition money_minus :: "money \<Rightarrow> money \<Rightarrow> money result" where
  "money_minus a b =
     (if currency a \<noteq> currency b then Thrown (CurrencyMismatchError (currency a) (currency b))
      else Ok \<lparr>amountCents = amountCents a - amountCents b, currency = currency a\<rparr>)"

text \<open>\<open>times\<close> takes a bigint or a number; the number must be an integer.\<close>

definition money_times :: "money \<Rightarrow> js_number \<Rightarrow> money result" where
  "money_times a f = (case f of
      IntegerNum n \<Rightarrow> Ok \<lparr>amountCents = amountCents a * n, currency = currency a\<rparr>
    | NonIntegerNum _ \<Rightarrow> Thrown TypeError)"

definition money_negate :: "money \<Rightarrow> money" where
  "money_negate a = \<lparr>amountCents = - amountCents a, currency = currency a\<rparr>"

definition isZero :: "money \<Rightarrow> bool" where "isZero a \<longleftrightarrow> amountCents a = 0"
definition isNegative :: "money \<Rightarrow> bool" where "isNegative a \<longleftrightarrow> amountCents a < 0"
definition isPositive :: "money \<Rightarrow> bool" where "isPositive a \<longleftrightarrow> amountCents a > 0"

definition money_equals :: "money \<Rightarrow> money \<Rightarrow> bool" where
  "money_equals a b \<longleftrightarrow> currency a = currency b \<and> amountCents a = amountCents b"

definition compareTo :: "money \<Rightarrow> money \<Rightarrow> int result" where
  "compareTo a b =
     (if currency a \<noteq> currency b then Thrown (CurrencyMismatchError (currency a) (currency b))
      else if amountCents a < amountCents b then Ok (- 1)
      else if amountCents a > amountCents b then Ok 1
      else Ok 0)"

fun result_map :: "('a \<Rightarrow> 'b) \<Rightarrow> 'a result \<Rightarrow> 'b result" where
  "result_map f (Ok v) = Ok (f v)"
| "result_map f (Err e) = Err e"
| "result_map f (Thrown x) = Thrown x"

definition lessThan :: "money \<Rightarrow> money \<Rightarrow> bool result" where
  "lessThan a b = result_map (\<lambda>c. c < 0) (compareTo a b)"
definition lessThanOrEqual :: "money \<Rightarrow> money \<Rightarrow> bool result" where
  "lessThanOrEqual a b = result_map (\<lambda>c. c \<le> 0) (compareTo a b)"
definition greaterThan :: "money \<Rightarrow> money \<Rightarrow> bool result" where
  "greaterThan a b = result_map (\<lambda>c. c > 0) (compareTo a b)"
definition greaterThanOrEqual :: "money \<Rightarrow> money \<Rightarrow> bool result" where
  "greaterThanOrEqual a b = result_map (\<lambda>c. c \<ge> 0) (compareTo a b)"

definition toCentsString :: "money \<Rightarrow> string" where
  "toCentsString a = show_int (amountCents a)"

definition money_toString :: "money \<Rightarrow> string" where
  "money_toString a = show_int (amountCents a) @ '' '' @ currency a"

text \<open>The invariant of the class: the constructor is private, so every value has a normal currency.\<close>

definition wf_currency :: "string \<Rightarrow> bool" where
  "wf_currency c \<longleftrightarrow> length c = 3 \<and> list_all is_upper_letter c"

definition wf_money :: "money \<Rightarrow> bool" where
  "wf_money m \<longleftrightarrow> wf_currency (currency m)"

lemmas money_defs = money_of_def money_zero_def money_plus_def money_minus_def money_times_def
  money_negate_def

lemma upper_char_upper: "is_upper_letter c \<Longrightarrow> upper_char c = c"
  by (auto simp: is_upper_letter_def upper_char_def Let_def)

lemma toUpperCase_wf: "wf_currency c \<Longrightarrow> toUpperCase c = c"
  by (auto simp: wf_currency_def toUpperCase_def list_all_iff upper_char_upper intro: map_idI)

lemma normalizeCurrency_Ok:
  "normalizeCurrency c = Ok u \<longleftrightarrow> u = toUpperCase c \<and> wf_currency u"
  by (auto simp: normalizeCurrency_def wf_currency_def Let_def)

lemma normalizeCurrency_wf [simp]: "wf_currency c \<Longrightarrow> normalizeCurrency c = Ok c"
  by (simp add: normalizeCurrency_Ok toUpperCase_wf)

lemma money_ops_wf:
  "money_of a c = Ok m \<Longrightarrow> wf_money m"
  "money_zero c = Ok m \<Longrightarrow> wf_money m"
  "wf_money x \<Longrightarrow> money_plus x y = Ok m \<Longrightarrow> wf_money m"
  "wf_money x \<Longrightarrow> money_minus x y = Ok m \<Longrightarrow> wf_money m"
  "wf_money x \<Longrightarrow> money_times x f = Ok m \<Longrightarrow> wf_money m"
  "wf_money x \<Longrightarrow> wf_money (money_negate x)"
  by (auto simp: wf_money_def money_defs normalizeCurrency_Ok
      split: result.splits if_splits js_number.splits)

lemma cents_of_toCentsString: "cents_of (StringCents (toCentsString m)) = Ok (amountCents m)"
  by (simp add: cents_of_def toCentsString_def)

subsection \<open>Properties\<close>

text \<open>
  C37: one currency. On normalised money, addition, subtraction and comparison give a
  result exactly when the currencies agree and throw \<open>CurrencyMismatchError\<close> otherwise;
  where they give one, the sum undoes the difference, the currency is kept, and the order is that
  of the amounts.
\<close>

theorem money_single_currency:
  "(if currency a = currency b
    then \<exists>d. money_minus a b = Ok d \<and> money_plus d b = Ok a \<and> currency d = currency a
      \<and> lessThan a b = Ok (isNegative d) \<and> greaterThan a b = Ok (isPositive d)
      \<and> lessThanOrEqual a b = Ok (\<not> isPositive d) \<and> greaterThanOrEqual a b = Ok (\<not> isNegative d)
      \<and> money_equals a b = isZero d
    else (let x = CurrencyMismatchError (currency a) (currency b)
      in money_minus a b = Thrown x \<and> money_plus a b = Thrown x \<and> compareTo a b = Thrown x
       \<and> lessThan a b = Thrown x \<and> greaterThan a b = Thrown x \<and> \<not> money_equals a b))"
  by (cases a) (simp add: money_minus_def money_plus_def compareTo_def lessThan_def greaterThan_def
      lessThanOrEqual_def greaterThanOrEqual_def isNegative_def isPositive_def isZero_def
      money_equals_def Let_def)

text \<open>
  C38: the wire form of money. The decimal string of a normalised amount, read back by
  \<open>Money.of\<close> with the amount's currency in any letter case the normaliser accepts, is the
  same money.
\<close>

theorem money_wire_roundtrip:
  assumes "wf_money m" and "toUpperCase cur = currency m"
  shows "money_of (StringCents (toCentsString m)) cur = Ok m"
  using assms by (simp add: money_of_def cents_of_toCentsString normalizeCurrency_def wf_money_def
      wf_currency_def Let_def)

theorem money_wire_roundtrip_witness:
  "money_of (StringCents (toCentsString \<lparr>amountCents = - 1205, currency = ''EUR''\<rparr>)) ''eur''
     = Ok \<lparr>amountCents = - 1205, currency = ''EUR''\<rparr>"
  by (rule money_wire_roundtrip) (code_simp, code_simp)

end
