(* ===== verification/Allocation.thy ===== *)
theory Allocation
  imports Errors
begin

section \<open>Percentages and the largest-remainder allocator\<close>

text \<open>
  \<open>src/apps/api/src/common/money/percentage.ts\<close>: basis points, their application to an amount,
  and \<open>allocateByLargestRemainder\<close>, which splits a total over weighted shares. The lemmas show
  that the split reconciles exactly, stays within one cent of the proportional share, prefers
  larger remainders, and does not depend on the order of the shares.
\<close>

subsection \<open>Percentage\<close>

text \<open>Division of bigints truncates toward zero.\<close>

definition bigint_div :: "int \<Rightarrow> int \<Rightarrow> int" where
  "bigint_div a b = sgn a * sgn b * (\<bar>a\<bar> div \<bar>b\<bar>)"

definition BASIS_POINTS_SCALE :: int where
  "BASIS_POINTS_SCALE = 10000"

record percentage =
  basisPoints :: int

definition fromBasisPoints :: "js_number \<Rightarrow> percentage result" where
  "fromBasisPoints bp = (case bp of
      NonIntegerNum _ \<Rightarrow> Thrown TypeError
    | IntegerNum n \<Rightarrow> if n < 0 \<or> n > 10000 then Thrown RangeError else Ok \<lparr>basisPoints = n\<rparr>)"

definition percentage_zero :: percentage where
  "percentage_zero = \<lparr>basisPoints = 0\<rparr>"

definition applyToCents :: "percentage \<Rightarrow> cents \<Rightarrow> cents" where
  "applyToCents p amount = bigint_div (amount * basisPoints p) BASIS_POINTS_SCALE"

definition percentage_plus :: "percentage \<Rightarrow> percentage \<Rightarrow> percentage result" where
  "percentage_plus p q = fromBasisPoints (IntegerNum (basisPoints p + basisPoints q))"

definition wf_percentage :: "percentage \<Rightarrow> bool" where
  "wf_percentage p \<longleftrightarrow> 0 \<le> basisPoints p \<and> basisPoints p \<le> 10000"

lemma bigint_div_nonneg: "0 \<le> a \<Longrightarrow> 0 \<le> b \<Longrightarrow> bigint_div a b = a div b"
  by (auto simp: bigint_div_def sgn_if)

lemma bigint_div_neg: "0 \<le> a \<Longrightarrow> bigint_div (- a) b = - bigint_div a b"
  by (auto simp: bigint_div_def sgn_if)

lemma applyToCents_bounds:
  assumes "wf_percentage p" and "0 \<le> amount"
  shows "0 \<le> applyToCents p amount" and "applyToCents p amount \<le> amount"
proof -
  have eq: "applyToCents p amount = (amount * basisPoints p) div 10000"
    using assms by (simp add: applyToCents_def bigint_div_nonneg wf_percentage_def BASIS_POINTS_SCALE_def)
  show "0 \<le> applyToCents p amount"
    using assms by (simp add: eq wf_percentage_def pos_imp_zdiv_nonneg_iff)
  have "(amount * basisPoints p) div 10000 \<le> (amount * 10000) div 10000"
    using assms by (intro zdiv_mono1 mult_left_mono) (auto simp: wf_percentage_def)
  then show "applyToCents p amount \<le> amount" by (simp add: eq)
qed

subsection \<open>The allocator\<close>

record allocation_weight =
  weight_id :: uuid
  weightBp :: js_number

record allocation_result =
  share_id :: uuid
  share_cents :: cents

record provisional =
  prov_id :: uuid
  prov_cents :: cents
  prov_remainder :: int

text \<open>\<open>BigInt(x)\<close>, used only after \<open>Number.isInteger(x)\<close> has been checked.\<close>

fun bigint_of :: "js_number \<Rightarrow> int" where
  "bigint_of (IntegerNum n) = n"
| "bigint_of (NonIntegerNum _) = 0"

text \<open>The accumulation loop over the weights, with the check that throws.\<close>

fun total_weight :: "allocation_weight list \<Rightarrow> int \<Rightarrow> int result" where
  "total_weight [] acc = Ok acc"
| "total_weight (s # ss) acc =
     (if \<not> is_integer (weightBp s) \<or> bigint_of (weightBp s) < 0 then Thrown RangeError
      else total_weight ss (acc + bigint_of (weightBp s)))"

definition provisional_share :: "cents \<Rightarrow> int \<Rightarrow> allocation_weight \<Rightarrow> provisional" where
  "provisional_share tot W s =
     (let numerator = tot * bigint_of (weightBp s);
          floorShare = bigint_div numerator W
      in \<lparr>prov_id = weight_id s, prov_cents = floorShare, prov_remainder = numerator - floorShare * W\<rparr>)"

definition ranking_cmp :: "provisional \<Rightarrow> provisional \<Rightarrow> int" where
  "ranking_cmp a b =
     (if prov_remainder a \<noteq> prov_remainder b
      then (if prov_remainder a > prov_remainder b then - 1 else 1)
      else if prov_id a < prov_id b then - 1
      else if prov_id a > prov_id b then 1
      else 0)"

text \<open>The loop that collects the identifiers to bump, one residual cent each.\<close>

fun bump_loop :: "provisional list \<Rightarrow> int \<Rightarrow> uuid list" where
  "bump_loop [] residual = []"
| "bump_loop (p # ps) residual =
     (if residual > 0 then prov_id p # bump_loop ps (residual - 1) else [])"

definition allocateByLargestRemainder ::
    "cents \<Rightarrow> allocation_weight list \<Rightarrow> allocation_result list result" where
  "allocateByLargestRemainder tot shares =
     (if tot < 0 then Thrown RangeError
      else if shares = [] then Ok []
      else case total_weight shares 0 of
        Err e \<Rightarrow> Err e
      | Thrown x \<Rightarrow> Thrown x
      | Ok W \<Rightarrow>
          if W = 0 then Ok (map (\<lambda>s. \<lparr>share_id = weight_id s, share_cents = 0\<rparr>) shares)
          else
            let provs = map (provisional_share tot W) shares;
                residual = tot - sum_list (map prov_cents provs);
                ranking = js_sort ranking_cmp provs;
                bump = bump_loop ranking residual
            in Ok (map (\<lambda>p. \<lparr>share_id = prov_id p,
                              share_cents = (if prov_id p \<in> set bump then prov_cents p + 1
                                             else prov_cents p)\<rparr>) provs))"

subsection \<open>Weights\<close>

definition valid_weights :: "allocation_weight list \<Rightarrow> bool" where
  "valid_weights shares \<longleftrightarrow> list_all (\<lambda>s. is_integer (weightBp s) \<and> 0 \<le> bigint_of (weightBp s)) shares"

definition weight_sum :: "allocation_weight list \<Rightarrow> int" where
  "weight_sum shares = sum_list (map (\<lambda>s. bigint_of (weightBp s)) shares)"

lemma total_weight_valid: "valid_weights ss \<Longrightarrow> total_weight ss acc = Ok (acc + weight_sum ss)"
  by (induction ss arbitrary: acc) (auto simp: valid_weights_def weight_sum_def)

lemma total_weight_invalid: "\<not> valid_weights ss \<Longrightarrow> total_weight ss acc = Thrown RangeError"
  by (induction ss arbitrary: acc) (auto simp: valid_weights_def)

lemma valid_weights_mset: "mset xs = mset ys \<Longrightarrow> valid_weights xs = valid_weights ys"
  unfolding valid_weights_def list_all_iff by (metis set_mset_mset)

lemma weight_sum_mset: "mset xs = mset ys \<Longrightarrow> weight_sum xs = weight_sum ys"
  unfolding weight_sum_def by (metis mset_map sum_mset_sum_list)

subsection \<open>Floors and remainders\<close>

lemma provisional_share_eq:
  assumes "0 \<le> tot" and "0 \<le> bigint_of (weightBp s)" and "0 < W"
  shows "prov_cents (provisional_share tot W s) = tot * bigint_of (weightBp s) div W"
    and "prov_remainder (provisional_share tot W s) = tot * bigint_of (weightBp s) mod W"
  using assms
  by (simp_all add: provisional_share_def Let_def bigint_div_nonneg minus_div_mult_eq_mod)

lemma prov_id_provisional [simp]: "prov_id (provisional_share tot W s) = weight_id s"
  by (simp add: provisional_share_def Let_def)

lemma remainder_bounds:
  assumes "0 \<le> tot" and "valid_weights shares" and "0 < W" and "s \<in> set shares"
  shows "0 \<le> prov_remainder (provisional_share tot W s)"
    and "prov_remainder (provisional_share tot W s) < W"
  using assms by (auto simp: provisional_share_eq valid_weights_def list_all_iff)

text \<open>The remainders add up to the residual number of cents, in units of \<open>1/W\<close>.\<close>

lemma sum_remainders:
  assumes "0 \<le> tot" and "valid_weights shares" and "0 < W"
  shows "sum_list (map (\<lambda>s. prov_remainder (provisional_share tot W s)) shares)
       = tot * weight_sum shares - W * sum_list (map (\<lambda>s. prov_cents (provisional_share tot W s)) shares)"
  using assms(2)
proof (induction shares)
  case Nil
  show ?case by (simp add: weight_sum_def)
next
  case (Cons s ss)
  from Cons.prems have ok: "0 \<le> bigint_of (weightBp s)" "valid_weights ss"
    by (auto simp: valid_weights_def)
  have "tot * bigint_of (weightBp s) mod W
      = tot * bigint_of (weightBp s) - W * (tot * bigint_of (weightBp s) div W)"
    by (simp add: minus_mult_div_eq_mod)
  with Cons.IH [OF ok(2)] ok(1) show ?case
    using assms by (simp add: provisional_share_eq weight_sum_def algebra_simps)
qed

lemma sum_list_less_count:
  fixes f :: "'a \<Rightarrow> int"
  assumes "\<And>x. x \<in> set xs \<Longrightarrow> 0 \<le> f x \<and> f x < W" and "0 < W"
  shows "sum_list (map f xs) = 0 \<and> filter (\<lambda>x. 0 < f x) xs = []
       \<or> sum_list (map f xs) < int (length (filter (\<lambda>x. 0 < f x) xs)) * W"
  using assms(1)
proof (induction xs)
  case Nil
  show ?case by simp
next
  case (Cons x xs)
  have x: "0 \<le> f x" "f x < W" using Cons.prems by auto
  from Cons have "sum_list (map f xs) = 0 \<and> filter (\<lambda>x. 0 < f x) xs = []
       \<or> sum_list (map f xs) < int (length (filter (\<lambda>x. 0 < f x) xs)) * W" by simp
  then show ?case using x by (cases "0 < f x") (auto simp: algebra_simps)
qed

subsection \<open>The ranking\<close>

lemma ranking_cmp_le:
  "ranking_cmp a b \<le> 0 \<longleftrightarrow>
     prov_remainder b < prov_remainder a \<or>
     prov_remainder a = prov_remainder b \<and> prov_id a \<le> prov_id b"
  by (auto simp: ranking_cmp_def)

lemma ranking_sorted: "sorted_wrt (\<lambda>a b. ranking_cmp a b \<le> 0) (js_sort ranking_cmp ps)"
proof (rule sorted_js_sort)
  show "ranking_cmp a b \<le> 0 \<or> ranking_cmp b a \<le> 0" for a b
    by (auto simp: ranking_cmp_le)
  show "ranking_cmp a b \<le> 0 \<Longrightarrow> ranking_cmp b c \<le> 0 \<Longrightarrow> ranking_cmp a c \<le> 0" for a b c
    by (auto simp: ranking_cmp_le)
qed

lemma bump_loop_take: "bump_loop ps r = map prov_id (take (nat r) ps)"
proof (induction ps arbitrary: r)
  case Nil
  show ?case by simp
next
  case (Cons p ps)
  show ?case
  proof (cases "r > 0")
    case True
    then have "nat r = Suc (nat (r - 1))" by simp
    with True Cons show ?thesis by simp
  next
    case False
    then show ?thesis by simp
  qed
qed

text \<open>In a list sorted by remainder, the entries with a positive remainder come first.\<close>

lemma take_positive:
  assumes "sorted_wrt (\<lambda>a b. ranking_cmp a b \<le> 0) ps"
    and "n \<le> length (filter (\<lambda>p. 0 < prov_remainder p) ps)"
    and "p \<in> set (take n ps)"
  shows "0 < prov_remainder p"
  using assms
proof (induction ps arbitrary: n)
  case Nil
  then show ?case by simp
next
  case (Cons q qs)
  from Cons.prems(3) obtain m where n: "n = Suc m" by (cases n) auto
  have q: "0 < prov_remainder q"
  proof (rule ccontr)
    assume neg: "\<not> 0 < prov_remainder q"
    with Cons.prems(1) have "filter (\<lambda>p. 0 < prov_remainder p) qs = []"
      by (auto simp: filter_empty_conv ranking_cmp_le)
    with neg Cons.prems(2) n show False by simp
  qed
  with Cons n show ?case by auto
qed

lemma length_filter_mset: "mset xs = mset ys \<Longrightarrow> length (filter P xs) = length (filter P ys)"
  by (metis mset_filter size_mset)

lemma filter_in_take:
  assumes "distinct (map prov_id ps)"
  shows "filter (\<lambda>p. prov_id p \<in> prov_id ` set (take n ps)) ps = take n ps"
  using assms
proof (induction ps arbitrary: n)
  case Nil
  show ?case by simp
next
  case (Cons q qs)
  show ?case
  proof (cases n)
    case 0
    then show ?thesis by simp
  next
    case (Suc m)
    have "filter (\<lambda>p. prov_id p \<in> insert (prov_id q) (prov_id ` set (take m qs))) qs
        = filter (\<lambda>p. prov_id p \<in> prov_id ` set (take m qs)) qs"
      using Cons.prems by (intro filter_cong) (auto simp: image_iff)
    with Cons Suc show ?thesis by simp
  qed
qed

lemma sum_list_indicator:
  "sum_list (map (\<lambda>x. if P x then f x + 1 else f x) xs)
     = sum_list (map f xs) + int (length (filter P xs))"
  by (induction xs) auto

subsection \<open>The split\<close>

text \<open>The residual and the set of bumped identifiers of a call with a positive total weight.\<close>

definition residual_cents :: "cents \<Rightarrow> allocation_weight list \<Rightarrow> int" where
  "residual_cents tot shares =
     tot - sum_list (map (\<lambda>s. prov_cents (provisional_share tot (weight_sum shares) s)) shares)"

definition ranked :: "cents \<Rightarrow> allocation_weight list \<Rightarrow> provisional list" where
  "ranked tot shares = js_sort ranking_cmp (map (provisional_share tot (weight_sum shares)) shares)"

definition bumped :: "cents \<Rightarrow> allocation_weight list \<Rightarrow> provisional list" where
  "bumped tot shares = take (nat (residual_cents tot shares)) (ranked tot shares)"

definition share_floor :: "cents \<Rightarrow> allocation_weight list \<Rightarrow> allocation_weight \<Rightarrow> int" where
  "share_floor tot shares s = tot * bigint_of (weightBp s) div weight_sum shares"

definition allocatable :: "cents \<Rightarrow> allocation_weight list \<Rightarrow> bool" where
  "allocatable tot shares \<longleftrightarrow>
     0 \<le> tot \<and> valid_weights shares \<and> 0 < weight_sum shares \<and> distinct (map weight_id shares)"

lemma prov_cents_floor:
  assumes "0 \<le> tot" and "valid_weights shares" and "0 < weight_sum shares" and "s \<in> set shares"
  shows "prov_cents (provisional_share tot (weight_sum shares) s) = share_floor tot shares s"
  using assms by (auto simp: provisional_share_eq share_floor_def valid_weights_def list_all_iff)

lemma allocate_eq:
  assumes "0 \<le> tot" and "valid_weights shares" and "0 < weight_sum shares"
  shows "allocateByLargestRemainder tot shares =
    Ok (map (\<lambda>s. \<lparr>share_id = weight_id s,
       share_cents = (if weight_id s \<in> prov_id ` set (bumped tot shares)
                      then share_floor tot shares s + 1 else share_floor tot shares s)\<rparr>) shares)"
proof -
  have ne: "shares \<noteq> []" using assms(3) by (auto simp: weight_sum_def)
  have floors: "prov_cents (provisional_share tot (weight_sum shares) s) = share_floor tot shares s"
    if "s \<in> set shares" for s
    using prov_cents_floor [OF assms that] .
  have bump: "bump_loop (ranked tot shares) (residual_cents tot shares) = map prov_id (bumped tot shares)"
    by (simp add: bump_loop_take bumped_def)
  show ?thesis
    using assms ne bump
    by (simp add: allocateByLargestRemainder_def total_weight_valid Let_def ranked_def [symmetric]
        residual_cents_def [symmetric] comp_def floors)
qed

lemma residual_bounds:
  assumes "0 \<le> tot" and "valid_weights shares" and "0 < weight_sum shares"
  shows "0 \<le> residual_cents tot shares"
    and "residual_cents tot shares \<le> int (length (filter (\<lambda>p. 0 < prov_remainder p) (ranked tot shares)))"
proof -
  let ?W = "weight_sum shares"
  let ?f = "\<lambda>s. prov_remainder (provisional_share tot ?W s)"
  let ?n = "length (filter (\<lambda>s. 0 < ?f s) shares)"
  have sum: "sum_list (map ?f shares) = residual_cents tot shares * ?W"
    using sum_remainders [OF assms] by (simp add: residual_cents_def algebra_simps)
  have bnd: "0 \<le> ?f s \<and> ?f s < ?W" if "s \<in> set shares" for s
    using remainder_bounds [OF assms that] by simp
  have "0 \<le> sum_list (map ?f shares)" using bnd by (auto intro!: sum_list_nonneg)
  with sum show "0 \<le> residual_cents tot shares" using assms(3) by (simp add: zero_le_mult_iff)
  from sum_list_less_count [of shares ?f ?W] bnd sum assms(3)
  have "residual_cents tot shares * ?W \<le> int ?n * ?W" by auto
  then have "residual_cents tot shares \<le> int ?n" using assms(3) by (simp add: mult_le_cancel_right)
  moreover have "length (filter (\<lambda>p. 0 < prov_remainder p) (ranked tot shares)) = ?n"
    by (subst length_filter_mset [of _ "map (provisional_share tot ?W) shares"])
      (simp_all add: ranked_def filter_map comp_def)
  ultimately show "residual_cents tot shares
      \<le> int (length (filter (\<lambda>p. 0 < prov_remainder p) (ranked tot shares)))" by simp
qed

lemma bumped_positive:
  assumes "0 \<le> tot" and "valid_weights shares" and "0 < weight_sum shares"
    and "p \<in> set (bumped tot shares)"
  shows "0 < prov_remainder p"
proof -
  have "nat (residual_cents tot shares) \<le> length (filter (\<lambda>p. 0 < prov_remainder p) (ranked tot shares))"
    using residual_bounds [OF assms(1-3)] by simp
  with assms(4) show ?thesis
    unfolding bumped_def ranked_def using take_positive ranking_sorted by metis
qed

lemma distinct_ranked:
  assumes "distinct (map weight_id shares)"
  shows "distinct (map prov_id (ranked tot shares))"
proof -
  have "mset (map prov_id (ranked tot shares)) = mset (map weight_id shares)"
    by (simp add: ranked_def comp_def flip: mset_map)
      (simp add: comp_def image_mset.compositionality)
  with assms show ?thesis by (metis mset_eq_imp_distinct_iff)
qed

lemma count_bumped:
  assumes "allocatable tot shares"
  shows "int (length (filter (\<lambda>s. weight_id s \<in> prov_id ` set (bumped tot shares)) shares))
       = residual_cents tot shares"
proof -
  let ?g = "provisional_share tot (weight_sum shares)"
  let ?B = "prov_id ` set (bumped tot shares)"
  have ok: "0 \<le> tot" "valid_weights shares" "0 < weight_sum shares" "distinct (map weight_id shares)"
    using assms by (simp_all add: allocatable_def)
  have "length (filter (\<lambda>s. weight_id s \<in> ?B) shares) = length (filter (\<lambda>p. prov_id p \<in> ?B) (map ?g shares))"
    by (simp add: filter_map comp_def)
  also have "\<dots> = length (filter (\<lambda>p. prov_id p \<in> ?B) (ranked tot shares))"
    by (rule length_filter_mset) (simp add: ranked_def)
  also have "\<dots> = length (bumped tot shares)"
    using filter_in_take [OF distinct_ranked [OF ok(4)], of "nat (residual_cents tot shares)" tot]
    by (simp add: bumped_def)
  also have "\<dots> = nat (residual_cents tot shares)"
  proof -
    have "length (filter (\<lambda>p. 0 < prov_remainder p) (ranked tot shares)) \<le> length (ranked tot shares)"
      by (rule length_filter_le)
    with residual_bounds [OF ok(1-3)] have "nat (residual_cents tot shares) \<le> length (ranked tot shares)"
      by linarith
    then show ?thesis by (simp add: bumped_def)
  qed
  finally show ?thesis using residual_bounds [OF ok(1-3)] by simp
qed

text \<open>Exact reconciliation, in the caller's order.\<close>

lemma allocate_exact:
  assumes "allocatable tot shares"
  obtains rs where "allocateByLargestRemainder tot shares = Ok rs"
    and "sum_list (map share_cents rs) = tot"
    and "map share_id rs = map weight_id shares"
proof -
  have ok: "0 \<le> tot" "valid_weights shares" "0 < weight_sum shares"
    using assms by (simp_all add: allocatable_def)
  let ?B = "prov_id ` set (bumped tot shares)"
  have fl: "sum_list (map (share_floor tot shares) shares) = tot - residual_cents tot shares"
  proof -
    have eq: "map (share_floor tot shares) shares
        = map (\<lambda>s. prov_cents (provisional_share tot (weight_sum shares) s)) shares"
      by (intro map_cong refl prov_cents_floor [OF ok, symmetric])
    show ?thesis unfolding eq residual_cents_def by simp
  qed
  show ?thesis
    by (rule that [OF allocate_eq [OF ok]])
      (simp_all add: comp_def sum_list_indicator fl count_bumped [OF assms])
qed

text \<open>Within one cent of the proportional share; an exact share is not rounded up.\<close>

definition bumped_ids :: "cents \<Rightarrow> allocation_weight list \<Rightarrow> uuid set" where
  "bumped_ids tot shares = prov_id ` set (bumped tot shares)"

lemma bumped_set: "set (bumped tot shares) \<subseteq> provisional_share tot (weight_sum shares) ` set shares"
  unfolding bumped_def ranked_def using set_take_subset set_js_sort by fastforce

lemma bumped_ids_mem:
  assumes "allocatable tot shares" and "s \<in> set shares" and "weight_id s \<in> bumped_ids tot shares"
  shows "provisional_share tot (weight_sum shares) s \<in> set (bumped tot shares)"
proof -
  from assms(3) obtain p where p: "p \<in> set (bumped tot shares)" "prov_id p = weight_id s"
    by (auto simp: bumped_ids_def)
  with bumped_set obtain s' where s': "s' \<in> set shares" "p = provisional_share tot (weight_sum shares) s'"
    by blast
  with p have "weight_id s' = weight_id s" by simp
  with s'(1) assms(1,2) have "s' = s"
    by (auto simp: allocatable_def dest: distinct_key_eq)
  with p s' show ?thesis by simp
qed

lemma bumped_not_exact:
  assumes "allocatable tot shares" and "s \<in> set shares" and "weight_id s \<in> bumped_ids tot shares"
  shows "0 < tot * bigint_of (weightBp s) mod weight_sum shares"
proof -
  have ok: "0 \<le> tot" "valid_weights shares" "0 < weight_sum shares"
    using assms by (simp_all add: allocatable_def)
  have "0 \<le> bigint_of (weightBp s)" using ok(2) assms(2) by (auto simp: valid_weights_def list_all_iff)
  with bumped_positive [OF ok bumped_ids_mem [OF assms]] ok show ?thesis
    by (simp add: provisional_share_eq)
qed

text \<open>A bumped share has a larger remainder than one that is not, or an equal one and a smaller id.\<close>

lemma bumped_priority:
  assumes "allocatable tot shares" and "s \<in> set shares" and "t \<in> set shares"
    and "weight_id s \<in> bumped_ids tot shares" and "weight_id t \<notin> bumped_ids tot shares"
  shows "ranking_cmp (provisional_share tot (weight_sum shares) s)
                     (provisional_share tot (weight_sum shares) t) \<le> 0"
proof -
  let ?g = "provisional_share tot (weight_sum shares)"
  let ?n = "nat (residual_cents tot shares)"
  have s: "?g s \<in> set (take ?n (ranked tot shares))"
    using bumped_ids_mem [OF assms(1,2,4)] by (simp add: bumped_def)
  have "?g t \<in> set (ranked tot shares)" using assms(3) by (simp add: ranked_def)
  then have "?g t \<in> set (take ?n (ranked tot shares)) \<or> ?g t \<in> set (drop ?n (ranked tot shares))"
    by (metis UnE append_take_drop_id set_append)
  moreover have "?g t \<notin> set (take ?n (ranked tot shares))"
    using assms(5) by (auto simp: bumped_ids_def bumped_def image_iff)
  ultimately have t: "?g t \<in> set (drop ?n (ranked tot shares))" by simp
  have "sorted_wrt (\<lambda>a b. ranking_cmp a b \<le> 0) (take ?n (ranked tot shares) @ drop ?n (ranked tot shares))"
    unfolding append_take_drop_id by (simp add: ranked_def ranking_sorted)
  with s t show ?thesis unfolding sorted_wrt_append by blast
qed

text \<open>The split is a function of the set of shares, not of their order.\<close>

lemma sorted_wrt_unique:
  assumes "mset xs = mset ys" and "sorted_wrt P xs" and "sorted_wrt P ys"
    and "\<And>a b. a \<in> set xs \<Longrightarrow> b \<in> set xs \<Longrightarrow> P a b \<Longrightarrow> P b a \<Longrightarrow> a = b"
  shows "xs = ys"
  using assms
proof (induction xs arbitrary: ys)
  case Nil
  then show ?case by simp
next
  case (Cons x xs)
  then obtain y ys' where ys: "ys = y # ys'" by (cases ys) auto
  have sets: "set (x # xs) = set (y # ys')" using Cons.prems(1) ys by (metis set_mset_mset)
  have "x = y"
  proof (rule ccontr)
    assume "x \<noteq> y"
    with sets have "x \<in> set ys'" "y \<in> set xs" by auto
    with Cons.prems(2,3) ys have "P x y" "P y x" by auto
    with Cons.prems(4) sets \<open>x \<noteq> y\<close> show False by auto
  qed
  moreover from this have "xs = ys'" using Cons ys by (intro Cons.IH) auto
  ultimately show ?case by (simp add: ys)
qed

lemma ranked_permute:
  assumes "mset xs = mset ys" and "distinct (map weight_id xs)"
  shows "ranked tot xs = ranked tot ys"
proof (rule sorted_wrt_unique)
  have W: "weight_sum xs = weight_sum ys" using assms(1) by (rule weight_sum_mset)
  show "mset (ranked tot xs) = mset (ranked tot ys)" using assms(1) by (simp add: ranked_def W)
  show "sorted_wrt (\<lambda>a b. ranking_cmp a b \<le> 0) (ranked tot xs)"
    and "sorted_wrt (\<lambda>a b. ranking_cmp a b \<le> 0) (ranked tot ys)"
    by (simp_all add: ranked_def ranking_sorted)
  fix a b
  assume "a \<in> set (ranked tot xs)" and "b \<in> set (ranked tot xs)"
    and le: "ranking_cmp a b \<le> 0" "ranking_cmp b a \<le> 0"
  moreover from le have "prov_id a = prov_id b" by (auto simp: ranking_cmp_le)
  ultimately show "a = b" using distinct_ranked [OF assms(2)] distinct_key_eq by metis
qed

lemma bumped_permute:
  assumes "mset xs = mset ys" and "distinct (map weight_id xs)"
  shows "bumped tot xs = bumped tot ys"
proof -
  have "sum_list (map g xs) = sum_list (map g ys)" for g :: "allocation_weight \<Rightarrow> int"
    using assms(1) by (metis mset_map sum_mset_sum_list)
  then have "residual_cents tot xs = residual_cents tot ys"
    unfolding residual_cents_def weight_sum_mset [OF assms(1)] by simp
  then show ?thesis by (simp add: bumped_def ranked_permute [OF assms])
qed

lemma share_floor_permute: "mset xs = mset ys \<Longrightarrow> share_floor tot xs s = share_floor tot ys s"
  by (drule weight_sum_mset) (simp add: share_floor_def)

text \<open>How each share of a result compares with its proportional part.\<close>

lemma allocate_nth:
  assumes "allocatable tot shares" and "allocateByLargestRemainder tot shares = Ok rs" and "i < length shares"
  shows "share_cents (rs ! i) =
     (if weight_id (shares ! i) \<in> bumped_ids tot shares then share_floor tot shares (shares ! i) + 1
      else share_floor tot shares (shares ! i))"
  using assms allocate_eq [of tot shares]
  by (auto simp: allocatable_def bumped_ids_def)

lemma share_floor_split:
  "weight_sum shares * share_floor tot shares s
     = tot * bigint_of (weightBp s) - tot * bigint_of (weightBp s) mod weight_sum shares"
  by (simp add: share_floor_def minus_mod_eq_mult_div)

lemma rounded_up_iff:
  assumes "allocatable tot shares" and "allocateByLargestRemainder tot shares = Ok rs" and "i < length shares"
  shows "tot * bigint_of (weightBp (shares ! i)) < weight_sum shares * share_cents (rs ! i)
     \<longleftrightarrow> weight_id (shares ! i) \<in> bumped_ids tot shares"
proof -
  let ?s = "shares ! i" and ?W = "weight_sum shares"
  let ?n = "tot * bigint_of (weightBp ?s)"
  have W: "0 < ?W" using assms(1) by (simp add: allocatable_def)
  have m: "0 \<le> ?n mod ?W" "?n mod ?W < ?W" using W by simp_all
  show ?thesis
    using m allocate_nth [OF assms] share_floor_split [of shares tot ?s] by (auto simp: algebra_simps)
qed

subsection \<open>Properties\<close>

text \<open>
  C10: the split reconciles. With a non-negative total, non-negative integer weights of positive
  sum and distinct identifiers, \<open>allocateByLargestRemainder\<close> returns one share per
  weight, in the caller's order, and the shares add up to exactly the total.
\<close>

theorem allocation_reconciles:
  assumes "allocatable tot shares"
  shows "\<exists>rs. allocateByLargestRemainder tot shares = Ok rs
     \<and> sum_list (map share_cents rs) = tot \<and> map share_id rs = map weight_id shares"
  using allocate_exact [OF assms] by metis

definition demo_shares :: "allocation_weight list" where
  "demo_shares = [\<lparr>weight_id = ''b'', weightBp = IntegerNum 1\<rparr>,
     \<lparr>weight_id = ''a'', weightBp = IntegerNum 1\<rparr>, \<lparr>weight_id = ''c'', weightBp = IntegerNum 1\<rparr>]"

lemma demo_allocatable: "allocatable 100 demo_shares"
  by (simp add: allocatable_def demo_shares_def valid_weights_def weight_sum_def)

lemma demo_allocated: "allocateByLargestRemainder 100 demo_shares =
    Ok [\<lparr>share_id = ''b'', share_cents = 33\<rparr>, \<lparr>share_id = ''a'', share_cents = 34\<rparr>,
        \<lparr>share_id = ''c'', share_cents = 33\<rparr>]"
  by code_simp

theorem allocation_reconciles_witness:
  "\<exists>rs. allocateByLargestRemainder 100 demo_shares = Ok rs
     \<and> sum_list (map share_cents rs) = 100 \<and> map share_id rs = map weight_id demo_shares"
  by (rule allocation_reconciles [OF demo_allocatable])

text \<open>
  C11: the split is proportional. Every share of the result differs from its exact proportional
  part \<open>tot * weight / \<Sigma> weights\<close> by less than one cent; in particular an exact part is
  returned as it is and a zero weight receives nothing.
\<close>

theorem allocation_proportional:
  assumes "allocatable tot shares" and "allocateByLargestRemainder tot shares = Ok rs" and "i < length shares"
  shows "\<bar>weight_sum shares * share_cents (rs ! i) - tot * bigint_of (weightBp (shares ! i))\<bar>
     < weight_sum shares"
proof -
  let ?s = "shares ! i" and ?W = "weight_sum shares"
  let ?n = "tot * bigint_of (weightBp ?s)"
  have W: "0 < ?W" using assms(1) by (simp add: allocatable_def)
  have m: "0 \<le> ?n mod ?W" "?n mod ?W < ?W" using W by simp_all
  show ?thesis
  proof (cases "weight_id ?s \<in> bumped_ids tot shares")
    case True
    have "0 < ?n mod ?W" using bumped_not_exact [OF assms(1) _ True] assms(3) by simp
    with True m allocate_nth [OF assms] share_floor_split [of shares tot ?s] show ?thesis
      by (simp add: algebra_simps)
  next
    case False
    with m allocate_nth [OF assms] share_floor_split [of shares tot ?s] show ?thesis by simp
  qed
qed

theorem allocation_proportional_witness:
  "\<bar>weight_sum demo_shares * 34 - 100 * bigint_of (weightBp (demo_shares ! 1))\<bar> < weight_sum demo_shares"
  using allocation_proportional [OF demo_allocatable demo_allocated, of 1] by (simp add: demo_shares_def)

text \<open>
  Who receives the leftover cents. When one share of the result is rounded up and another is
  not, the first has the larger remainder, or the same remainder and the smaller identifier.
\<close>

lemma allocation_remainder_priority:
  assumes "allocatable tot shares" and "allocateByLargestRemainder tot shares = Ok rs"
    and "i < length shares" and "j < length shares"
    and "tot * bigint_of (weightBp (shares ! i)) < weight_sum shares * share_cents (rs ! i)"
    and "weight_sum shares * share_cents (rs ! j) \<le> tot * bigint_of (weightBp (shares ! j))"
  shows "(let ri = tot * bigint_of (weightBp (shares ! i)) mod weight_sum shares;
              rj = tot * bigint_of (weightBp (shares ! j)) mod weight_sum shares
          in rj < ri \<or> (ri = rj \<and> weight_id (shares ! i) < weight_id (shares ! j)))"
proof -
  have up: "weight_id (shares ! i) \<in> bumped_ids tot shares"
    and down: "weight_id (shares ! j) \<notin> bumped_ids tot shares"
    using rounded_up_iff [OF assms(1,2,3)] rounded_up_iff [OF assms(1,2,4)] assms(5,6) by auto
  have mem: "shares ! i \<in> set shares" "shares ! j \<in> set shares" using assms(3,4) by simp_all
  have ne: "weight_id (shares ! i) \<noteq> weight_id (shares ! j)" using up down by auto
  have ok: "0 \<le> tot" "0 < weight_sum shares"
    "0 \<le> bigint_of (weightBp (shares ! i))" "0 \<le> bigint_of (weightBp (shares ! j))"
    using assms(1) mem by (auto simp: allocatable_def valid_weights_def list_all_iff)
  from bumped_priority [OF assms(1) mem up down] ne show ?thesis
    by (auto simp: ranking_cmp_def provisional_share_eq ok Let_def split: if_splits)
qed

text \<open>
  The split does not depend on the order of the shares. Calls whose weights are the same up to
  order return the same shares up to order, so the result does not depend on the order in which
  the database returned the rows.
\<close>

lemma allocation_order_independent:
  assumes "allocatable tot xs" and "mset xs = mset ys"
  shows "\<exists>rs qs. allocateByLargestRemainder tot xs = Ok rs
     \<and> allocateByLargestRemainder tot ys = Ok qs \<and> mset rs = mset qs"
proof -
  have dx: "distinct (map weight_id xs)" using assms(1) by (simp add: allocatable_def)
  have x: "0 \<le> tot" "valid_weights xs" "0 < weight_sum xs" using assms(1) by (simp_all add: allocatable_def)
  have y: "valid_weights ys" "0 < weight_sum ys"
    using x valid_weights_mset [OF assms(2)] weight_sum_mset [OF assms(2)] by simp_all
  define f where "f s = \<lparr>share_id = weight_id s,
       share_cents = (if weight_id s \<in> prov_id ` set (bumped tot xs)
                      then share_floor tot xs s + 1 else share_floor tot xs s)\<rparr>" for s
  have "allocateByLargestRemainder tot xs = Ok (map f xs)"
    unfolding f_def by (rule allocate_eq [OF x])
  moreover have "allocateByLargestRemainder tot ys = Ok (map f ys)"
    using allocate_eq [OF x(1) y]
    by (simp add: f_def bumped_permute [OF assms(2) dx] share_floor_permute [OF assms(2)])
  moreover have "mset (map f xs) = mset (map f ys)" using assms(2) by simp
  ultimately show ?thesis by metis
qed

text \<open>
  The calls that fail. A negative total, or a weight that is negative or not an integer,
  throws a \<open>RangeError\<close>; no other input throws, and with no positive weight every
  share is zero, whatever the total.
\<close>

lemma allocation_errors:
  "(allocateByLargestRemainder tot shares = Thrown RangeError \<longleftrightarrow>
      tot < 0 \<or> (shares \<noteq> [] \<and> \<not> valid_weights shares))
   \<and> (isOk (allocateByLargestRemainder tot shares) \<longleftrightarrow> 0 \<le> tot \<and> valid_weights shares)
   \<and> (0 \<le> tot \<and> valid_weights shares \<and> weight_sum shares = 0 \<longrightarrow>
        allocateByLargestRemainder tot shares = Ok (map (\<lambda>s. \<lparr>share_id = weight_id s, share_cents = 0\<rparr>) shares))"
proof (cases "valid_weights shares")
  case True
  then show ?thesis
    by (auto simp: allocateByLargestRemainder_def total_weight_valid Let_def)
next
  case False
  then have "shares \<noteq> []" by (auto simp: valid_weights_def)
  with False show ?thesis
    by (auto simp: allocateByLargestRemainder_def total_weight_invalid)
qed

text \<open>
  The leftover cents are given by identifier: when two shares carry the same one, both get the cent of
  either, and the parts no longer add up to the total.
\<close>

lemma duplicate_identifiers:
  "allocateByLargestRemainder 1 [\<lparr>weight_id = ''m'', weightBp = IntegerNum 1\<rparr>, \<lparr>weight_id = ''m'', weightBp = IntegerNum 1\<rparr>]
     = Ok [\<lparr>share_id = ''m'', share_cents = 1\<rparr>, \<lparr>share_id = ''m'', share_cents = 1\<rparr>]"
  by code_simp

end
