(* ===== verification/Calendar.thy ===== *)
theory Calendar
  imports Prelude
begin

section \<open>UTC dates of JavaScript\<close>

text \<open>
  The part of the \<open>Date\<close> object that \<open>contribution-period.ts\<close> uses: an instant is a number of
  milliseconds since the epoch, and \<open>getUTC...\<close>/\<open>setUTC...\<close> go through the proleptic Gregorian
  calendar with the standard's \<open>MakeDay\<close>, which lets a day of the month run over into the
  following month. Instants are not clipped to the range of \<open>Date\<close> (\<open>\<plusminus>\<close>8.64e15 ms).
\<close>

definition msPerDay :: int where
  "msPerDay = 86400000"

definition day_of :: "instant \<Rightarrow> int" where
  "day_of t = t div msPerDay"

definition time_in_day :: "instant \<Rightarrow> int" where
  "time_in_day t = t mod msPerDay"

definition day_from_year :: "int \<Rightarrow> int" where
  "day_from_year y = 365 * (y - 1970) + (y - 1969) div 4 - (y - 1901) div 100 + (y - 1601) div 400"

definition leap_year :: "int \<Rightarrow> bool" where
  "leap_year y \<longleftrightarrow> y mod 4 = 0 \<and> y mod 100 \<noteq> 0 \<or> y mod 400 = 0"

text \<open>The year that contains a day: an estimate by the mean length of a year, corrected by one.\<close>

definition year_of_day :: "int \<Rightarrow> int" where
  "year_of_day d =
     (let y = 1970 + (400 * d) div 146097
      in if d < day_from_year y then y - 1
         else if day_from_year (y + 1) \<le> d then y + 1
         else y)"

text \<open>Days before month \<open>m\<close> (0 is January, 12 the whole year).\<close>

definition days_before_month :: "bool \<Rightarrow> int \<Rightarrow> int" where
  "days_before_month leap m =
     (if m \<le> 0 then 0
      else [31, 59, 90, 120, 151, 181, 212, 243, 273, 304, 334, 365] ! nat (m - 1)
           + (if leap \<and> 2 \<le> m then 1 else 0))"

definition month_of_yday :: "bool \<Rightarrow> int \<Rightarrow> int" where
  "month_of_yday leap n =
     int (length (filter (\<lambda>m. days_before_month leap m \<le> n) [1, 2, 3, 4, 5, 6, 7, 8, 9, 10, 11]))"

definition getUTCFullYear :: "instant \<Rightarrow> int" where
  "getUTCFullYear t = year_of_day (day_of t)"

definition yday :: "instant \<Rightarrow> int" where
  "yday t = day_of t - day_from_year (getUTCFullYear t)"

definition getUTCMonth :: "instant \<Rightarrow> int" where
  "getUTCMonth t = month_of_yday (leap_year (getUTCFullYear t)) (yday t)"

definition getUTCDate :: "instant \<Rightarrow> int" where
  "getUTCDate t = yday t - days_before_month (leap_year (getUTCFullYear t)) (getUTCMonth t) + 1"

definition make_day :: "int \<Rightarrow> int \<Rightarrow> int \<Rightarrow> int" where
  "make_day y m d =
     (let ym = y + m div 12
      in day_from_year ym + days_before_month (leap_year ym) (m mod 12) + d - 1)"

definition setUTCDate :: "instant \<Rightarrow> int \<Rightarrow> instant" where
  "setUTCDate t d = make_day (getUTCFullYear t) (getUTCMonth t) d * msPerDay + time_in_day t"

definition setUTCMonth :: "instant \<Rightarrow> int \<Rightarrow> instant" where
  "setUTCMonth t m = make_day (getUTCFullYear t) m (getUTCDate t) * msPerDay + time_in_day t"

definition setUTCFullYear :: "instant \<Rightarrow> int \<Rightarrow> instant" where
  "setUTCFullYear t y = make_day y (getUTCMonth t) (getUTCDate t) * msPerDay + time_in_day t"

text \<open>
  \<open>toISOString\<close>: \<open>YYYY-MM-DDTHH:mm:ss.sssZ\<close>, with a signed six-digit year outside 0 to 9999.
\<close>

definition pad :: "nat \<Rightarrow> int \<Rightarrow> string" where
  "pad width n = (let s = show_nat (nat n) in replicate (width - length s) CHR ''0'' @ s)"

definition iso_year :: "int \<Rightarrow> string" where
  "iso_year y = (if 0 \<le> y \<and> y \<le> 9999 then pad 4 y
     else (if y < 0 then CHR ''-'' else CHR ''+'') # pad 6 \<bar>y\<bar>)"

definition toISOString :: "instant \<Rightarrow> string" where
  "toISOString t = (let ms = time_in_day t in
     iso_year (getUTCFullYear t) @ ''-'' @ pad 2 (getUTCMonth t + 1) @ ''-'' @ pad 2 (getUTCDate t)
     @ ''T'' @ pad 2 (ms div 3600000) @ '':'' @ pad 2 (ms div 60000 mod 60)
     @ '':'' @ pad 2 (ms div 1000 mod 60) @ ''.'' @ pad 3 (ms mod 1000) @ ''Z'')"

subsection \<open>Years\<close>

lemma div_bounds: "0 < (k::int) \<Longrightarrow> k * (a div k) \<le> a \<and> a < k * (a div k) + k"
  by (metis (no_types, opaque_lifting) add_less_cancel_left mult_div_mod_eq pos_mod_bound
      pos_mod_sign add_increasing2 order_refl)

lemma day_from_year_bounds:
  "146097 * (y - 1970) - 600 \<le> 400 * day_from_year y
   \<and> 400 * day_from_year y \<le> 146097 * (y - 1970) + 600"
proof -
  obtain p q r where e: "p = (y - 1969) div 4" "q = (y - 1901) div 100" "r = (y - 1601) div 400"
    by simp
  have "4 * p \<le> y - 1969" "y - 1969 < 4 * p + 4" "100 * q \<le> y - 1901" "y - 1901 < 100 * q + 100"
    "400 * r \<le> y - 1601" "y - 1601 < 400 * r + 400"
    using div_bounds [of 4 "y - 1969"] div_bounds [of 100 "y - 1901"] div_bounds [of 400 "y - 1601"]
    unfolding e by simp_all
  then show ?thesis unfolding day_from_year_def e [symmetric] by (simp add: algebra_simps)
qed

lemma year_of_day_correct:
  "day_from_year (year_of_day d) \<le> d" "d < day_from_year (year_of_day d + 1)"
proof -
  define y where "y = 1970 + (400 * d) div 146097"
  have b: "146097 * (y - 1970) \<le> 400 * d" "400 * d < 146097 * (y - 1970) + 146097"
    using div_bounds [of 146097 "400 * d"] by (simp_all add: y_def)
  have lo: "day_from_year (y - 1) \<le> d"
    using day_from_year_bounds [of "y - 1"] b by simp
  have hi: "d < day_from_year (y + 2)"
    using day_from_year_bounds [of "y + 2"] b by simp
  have e: "year_of_day d = (if d < day_from_year y then y - 1
         else if day_from_year (y + 1) \<le> d then y + 1 else y)"
    by (simp add: year_of_day_def y_def Let_def)
  show "day_from_year (year_of_day d) \<le> d" using lo by (simp add: e)
  show "d < day_from_year (year_of_day d + 1)" using hi by (simp add: e add.commute)
qed

lemma div_step:
  fixes y k :: int
  assumes "0 < k"
  shows "y div k = (y - 1) div k + (if y mod k = 0 then 1 else 0)"
proof (cases "y mod k = 0")
  case True
  have "y - 1 = k * (y div k - 1) + (k - 1)" using True mult_div_mod_eq [of k y] by (simp add: algebra_simps)
  from int_div_pos_eq [OF this] have "(y - 1) div k = y div k - 1" using assms by simp
  with True show ?thesis by simp
next
  case False
  have "0 \<le> y mod k" "y mod k < k" using assms by simp_all
  have "y - 1 = k * (y div k) + (y mod k - 1)" using mult_div_mod_eq [of k y] by simp
  from int_div_pos_eq [OF this] have "(y - 1) div k = y div k"
    using \<open>0 \<le> y mod k\<close> \<open>y mod k < k\<close> False by simp
  with False show ?thesis by simp
qed

lemma mod_shift: "(k::int) dvd c \<Longrightarrow> (y - c) mod k = 0 \<longleftrightarrow> y mod k = 0"
  unfolding mod_eq_0_iff_dvd by (metis diff_add_cancel dvd_add dvd_diff)

lemma year_length: "day_from_year (y + 1) - day_from_year y = 365 + (if leap_year y then 1 else 0)"
proof -
  have imp: "y mod 400 = 0 \<Longrightarrow> y mod 100 = 0" "y mod 100 = 0 \<Longrightarrow> y mod 4 = 0"
    using dvd_trans [of 100 400 y] dvd_trans [of 4 100 y] by (simp_all add: mod_eq_0_iff_dvd)
  define p q r where "p = (y - 1969) div 4" and "q = (y - 1901) div 100" and "r = (y - 1601) div 400"
  have "(y + 1 - 1969) div 4 = p + (if y mod 4 = 0 then 1 else 0)"
    using div_step [of 4 "y - 1968"] mod_shift [of 4 1968 y] by (simp add: p_def)
  moreover have "(y + 1 - 1901) div 100 = q + (if y mod 100 = 0 then 1 else 0)"
    using div_step [of 100 "y - 1900"] mod_shift [of 100 1900 y] by (simp add: q_def)
  moreover have "(y + 1 - 1601) div 400 = r + (if y mod 400 = 0 then 1 else 0)"
    using div_step [of 400 "y - 1600"] mod_shift [of 400 1600 y] by (simp add: r_def)
  ultimately have "day_from_year (y + 1) - day_from_year y = 365 + (if y mod 4 = 0 then 1 else 0)
      - (if y mod 100 = 0 then 1 else 0) + (if y mod 400 = 0 then 1 else 0)"
    unfolding day_from_year_def p_def [symmetric] q_def [symmetric] r_def [symmetric] by simp
  also have "\<dots> = 365 + (if leap_year y then 1 else 0)"
    using imp by (auto simp: leap_year_def)
  finally show ?thesis .
qed

subsection \<open>Months\<close>

lemma month_cases:
  "0 \<le> (k::int) \<Longrightarrow> k \<le> 11 \<Longrightarrow>
     k = 0 \<or> k = 1 \<or> k = 2 \<or> k = 3 \<or> k = 4 \<or> k = 5 \<or> k = 6 \<or> k = 7 \<or> k = 8 \<or> k = 9 \<or> k = 10 \<or> k = 11"
  by arith

lemma days_before_month_simps [simp]:
  "days_before_month L 0 = 0"
  "days_before_month L 1 = 31"
  "days_before_month L 2 = 59 + (if L then 1 else 0)"
  "days_before_month L 3 = 90 + (if L then 1 else 0)"
  "days_before_month L 4 = 120 + (if L then 1 else 0)"
  "days_before_month L 5 = 151 + (if L then 1 else 0)"
  "days_before_month L 6 = 181 + (if L then 1 else 0)"
  "days_before_month L 7 = 212 + (if L then 1 else 0)"
  "days_before_month L 8 = 243 + (if L then 1 else 0)"
  "days_before_month L 9 = 273 + (if L then 1 else 0)"
  "days_before_month L 10 = 304 + (if L then 1 else 0)"
  "days_before_month L 11 = 334 + (if L then 1 else 0)"
  "days_before_month L 12 = 365 + (if L then 1 else 0)"
  by (simp_all add: days_before_month_def)

lemma month_length_table:
  assumes "0 \<le> k" and "k \<le> 11"
  shows "28 \<le> days_before_month L (k + 1) - days_before_month L k"
    and "days_before_month L (k + 1) - days_before_month L k \<le> 31"
  using month_cases [OF assms] by (elim disjE; cases L; simp)+

text \<open>First day of month \<open>m\<close> counted from January of year \<open>y\<close>; \<open>m\<close> may leave the year.\<close>

definition month_start :: "int \<Rightarrow> int \<Rightarrow> int" where
  "month_start y m =
     day_from_year (y + m div 12) + days_before_month (leap_year (y + m div 12)) (m mod 12)"

lemma make_day_eq: "make_day y m d = month_start y m + d - 1"
  by (simp add: make_day_def month_start_def Let_def)

lemma month_succ:
  fixes m :: int
  shows "m mod 12 = 11 \<Longrightarrow> (m + 1) div 12 = m div 12 + 1 \<and> (m + 1) mod 12 = 0"
    and "m mod 12 \<noteq> 11 \<Longrightarrow> (m + 1) div 12 = m div 12 \<and> (m + 1) mod 12 = m mod 12 + 1"
proof -
  have m: "m = 12 * (m div 12) + m mod 12" by simp
  show "m mod 12 = 11 \<Longrightarrow> (m + 1) div 12 = m div 12 + 1 \<and> (m + 1) mod 12 = 0"
  proof -
    assume "m mod 12 = 11"
    with m have e: "m + 1 = 12 * (m div 12 + 1) + 0" by (simp add: distrib_left)
    show ?thesis using int_div_pos_eq [OF e] int_mod_pos_eq [OF e] by simp
  qed
  show "m mod 12 \<noteq> 11 \<Longrightarrow> (m + 1) div 12 = m div 12 \<and> (m + 1) mod 12 = m mod 12 + 1"
  proof -
    assume ne: "m mod 12 \<noteq> 11"
    have "0 \<le> m mod 12" "m mod 12 < 12" by simp_all
    with ne have r: "0 \<le> m mod 12 + 1" "m mod 12 + 1 < 12" by linarith+
    from m have e: "m + 1 = 12 * (m div 12) + (m mod 12 + 1)" by simp
    show ?thesis using int_div_pos_eq [OF e r] int_mod_pos_eq [OF e r] by simp
  qed
qed

lemma month_start_step:
  "28 \<le> month_start y (m + 1) - month_start y m \<and> month_start y (m + 1) - month_start y m \<le> 31"
proof (cases "m mod 12 = 11")
  case True
  have "month_start y (m + 1) = day_from_year (y + m div 12 + 1)"
    by (simp add: month_start_def month_succ(1) [OF True] add.assoc)
  moreover have "month_start y m = day_from_year (y + m div 12) + 334
      + (if leap_year (y + m div 12) then 1 else 0)"
    by (simp add: month_start_def True)
  ultimately show ?thesis using year_length [of "y + m div 12"] by (simp split: if_splits)
next
  case False
  have k: "0 \<le> m mod 12" "m mod 12 \<le> 11" by simp_all
  show ?thesis
    using month_length_table [OF k, of "leap_year (y + m div 12)"]
    by (simp add: month_start_def month_succ(2) [OF False])
qed

lemma year_month_step:
  assumes "0 \<le> m" and "m \<le> 11"
  shows "365 \<le> month_start (y + 1) m - month_start y m \<and> month_start (y + 1) m - month_start y m \<le> 366"
proof -
  have "m div 12 = 0" "m mod 12 = m" using assms by simp_all
  then show ?thesis using month_cases [OF assms] year_length [of y]
    unfolding month_start_def by (elim disjE) (simp_all split: if_splits)
qed

subsection \<open>Reading an instant back\<close>

lemma month_of_yday_range: "0 \<le> month_of_yday L n \<and> month_of_yday L n \<le> 11"
  unfolding month_of_yday_def
  using length_filter_le [of "\<lambda>m. days_before_month L m \<le> n" "[1, 2, 3, 4, 5, 6, 7, 8, 9, 10, 11]"]
  by simp

lemma getUTCMonth_range: "0 \<le> getUTCMonth t" "getUTCMonth t \<le> 11"
  using month_of_yday_range by (simp_all add: getUTCMonth_def)

lemma make_day_fields:
  "make_day (getUTCFullYear t) (getUTCMonth t) (getUTCDate t) = day_of t"
proof -
  have "getUTCMonth t div 12 = 0" "getUTCMonth t mod 12 = getUTCMonth t"
    using getUTCMonth_range [of t] by simp_all
  then show ?thesis
    by (simp add: make_day_def getUTCDate_def yday_def Let_def)
qed

lemma day_of_month_start:
  "day_of t = month_start (getUTCFullYear t) (getUTCMonth t) + getUTCDate t - 1"
  using make_day_fields [of t] by (simp add: make_day_eq)

lemma instant_split: "t = day_of t * msPerDay + time_in_day t"
  by (simp add: day_of_def time_in_day_def)

lemma setUTCDate_shift: "setUTCDate t (getUTCDate t + k) = t + k * msPerDay"
  using instant_split [of t]
  by (simp add: setUTCDate_def make_day_eq day_of_month_start [of t] algebra_simps)

lemma setUTCMonth_shift:
  "setUTCMonth t (getUTCMonth t + k) =
     t + (month_start (getUTCFullYear t) (getUTCMonth t + k)
          - month_start (getUTCFullYear t) (getUTCMonth t)) * msPerDay"
  using instant_split [of t]
  by (simp add: setUTCMonth_def make_day_eq day_of_month_start [of t] algebra_simps)

lemma setUTCFullYear_shift:
  "setUTCFullYear t (getUTCFullYear t + k) =
     t + (month_start (getUTCFullYear t + k) (getUTCMonth t)
          - month_start (getUTCFullYear t) (getUTCMonth t)) * msPerDay"
  using instant_split [of t]
  by (simp add: setUTCFullYear_def make_day_eq day_of_month_start [of t] algebra_simps)

end
