(* ===== verification/Periods.thy ===== *)
theory Periods
  imports Calendar
begin

section \<open>Contribution period windows\<close>

text \<open>
  The window half of \<open>src/apps/api/src/modules/contributions/domain/contribution-period.ts\<close>:
  where a period ends, where the next one starts, when it is due. The lemmas show that windows
  have positive length and that the successive windows of a profile partition time.
\<close>

datatype period_length = WEEKLY | MONTHLY | QUARTERLY | YEARLY

record period_window =
  win_start :: instant
  win_end :: instant

fun periodEndDate :: "instant \<Rightarrow> period_length \<Rightarrow> instant" where
  "periodEndDate start WEEKLY = setUTCDate start (getUTCDate start + 7)"
| "periodEndDate start MONTHLY = setUTCMonth start (getUTCMonth start + 1)"
| "periodEndDate start QUARTERLY = setUTCMonth start (getUTCMonth start + 3)"
| "periodEndDate start YEARLY = setUTCFullYear start (getUTCFullYear start + 1)"

definition firstPeriodWindow :: "instant \<Rightarrow> period_length \<Rightarrow> period_window" where
  "firstPeriodWindow start len = \<lparr>win_start = start, win_end = periodEndDate start len\<rparr>"

definition nextPeriodWindow :: "instant \<Rightarrow> period_length \<Rightarrow> period_window" where
  "nextPeriodWindow previousEnd len = \<lparr>win_start = previousEnd, win_end = periodEndDate previousEnd len\<rparr>"

definition isPeriodDue :: "instant \<Rightarrow> instant \<Rightarrow> bool" where
  "isPeriodDue endDate now \<longleftrightarrow> now \<ge> endDate"

text \<open>The windows a profile goes through: the first one, then the successor of each.\<close>

fun nth_window :: "instant \<Rightarrow> period_length \<Rightarrow> nat \<Rightarrow> period_window" where
  "nth_window start len 0 = firstPeriodWindow start len"
| "nth_window start len (Suc n) = nextPeriodWindow (win_end (nth_window start len n)) len"

definition in_window :: "instant \<Rightarrow> period_window \<Rightarrow> bool" where
  "in_window t w \<longleftrightarrow> win_start w \<le> t \<and> t < win_end w"

text \<open>Whole days in a period, at the least and at the most.\<close>

fun min_days :: "period_length \<Rightarrow> int" where
  "min_days WEEKLY = 7"
| "min_days MONTHLY = 28"
| "min_days QUARTERLY = 84"
| "min_days YEARLY = 365"

fun max_days :: "period_length \<Rightarrow> int" where
  "max_days WEEKLY = 7"
| "max_days MONTHLY = 31"
| "max_days QUARTERLY = 93"
| "max_days YEARLY = 366"

lemma period_days:
  "\<exists>d. periodEndDate start len = start + d * msPerDay \<and> min_days len \<le> d \<and> d \<le> max_days len"
proof (cases len)
  case WEEKLY
  then show ?thesis by (auto simp: setUTCDate_shift)
next
  case MONTHLY
  then show ?thesis
    using month_start_step [of "getUTCFullYear start" "getUTCMonth start"]
    by (auto simp: setUTCMonth_shift)
next
  case QUARTERLY
  let ?y = "getUTCFullYear start" and ?m = "getUTCMonth start"
  have "84 \<le> month_start ?y (?m + 3) - month_start ?y ?m \<and> month_start ?y (?m + 3) - month_start ?y ?m \<le> 93"
    using month_start_step [of ?y ?m] month_start_step [of ?y "?m + 1"] month_start_step [of ?y "?m + 2"]
    by (simp add: add.assoc)
  with QUARTERLY show ?thesis by (auto simp: setUTCMonth_shift)
next
  case YEARLY
  then show ?thesis
    using year_month_step [OF getUTCMonth_range, of "getUTCFullYear start" start]
    by (auto simp: setUTCFullYear_shift)
qed

lemma period_progress: "start + 7 * msPerDay \<le> periodEndDate start len"
proof -
  obtain d where d: "periodEndDate start len = start + d * msPerDay" "min_days len \<le> d"
    using period_days by blast
  moreover have "7 \<le> min_days len" by (cases len) auto
  ultimately show ?thesis by (simp add: msPerDay_def)
qed

lemma window_positive: "win_start (nth_window start len n) < win_end (nth_window start len n)"
proof (cases n)
  case 0
  then show ?thesis using period_progress [of start len] by (simp add: firstPeriodWindow_def msPerDay_def)
next
  case (Suc m)
  then show ?thesis
    using period_progress [of "win_end (nth_window start len m)" len]
    by (simp add: nextPeriodWindow_def msPerDay_def)
qed

lemma window_contiguous: "win_start (nth_window start len (Suc n)) = win_end (nth_window start len n)"
  by (simp add: nextPeriodWindow_def)

lemma window_mono: "m < n \<Longrightarrow> win_end (nth_window start len m) \<le> win_start (nth_window start len n)"
proof (induction n)
  case 0
  then show ?case by simp
next
  case (Suc n)
  have pos: "win_start (nth_window start len n) < win_end (nth_window start len n)"
    by (rule window_positive)
  from Suc.prems consider "m = n" | "m < n" by linarith
  then show ?case
  proof cases
    case 1
    then show ?thesis by (simp add: window_contiguous del: nth_window.simps)
  next
    case 2
    with Suc.IH pos show ?thesis by (simp add: window_contiguous del: nth_window.simps)
  qed
qed

lemma window_end_grows: "start + int n * (7 * msPerDay) < win_end (nth_window start len n)"
proof (induction n)
  case 0
  show ?case using window_positive [of start len 0] by (simp add: firstPeriodWindow_def)
next
  case (Suc n)
  have "win_end (nth_window start len n) + 7 * msPerDay \<le> win_end (nth_window start len (Suc n))"
    using period_progress by (simp add: nextPeriodWindow_def)
  with Suc show ?case by (simp add: algebra_simps del: nth_window.simps)
qed

lemma window_covers:
  assumes "start \<le> t"
  shows "\<exists>n. in_window t (nth_window start len n)"
proof -
  define n where "n = (LEAST n. t < win_end (nth_window start len n))"
  have "t \<le> start + int (nat (t - start)) * (7 * msPerDay)"
    using assms by (simp add: msPerDay_def)
  with window_end_grows [of start "nat (t - start)" len]
  have "t < win_end (nth_window start len (nat (t - start)))" by linarith
  then have hi: "t < win_end (nth_window start len n)" unfolding n_def by (rule LeastI)
  have "win_start (nth_window start len n) \<le> t"
  proof (cases n)
    case 0
    then show ?thesis using assms by (simp add: firstPeriodWindow_def)
  next
    case (Suc m)
    then have "\<not> t < win_end (nth_window start len m)"
      using not_less_Least [of m "\<lambda>n. t < win_end (nth_window start len n)"] by (simp add: n_def)
    with Suc show ?thesis by (simp add: window_contiguous del: nth_window.simps)
  qed
  with hi show ?thesis by (auto simp: in_window_def)
qed

lemma window_unique:
  assumes "in_window t (nth_window start len m)" and "in_window t (nth_window start len n)"
  shows "m = n"
  using assms window_mono [of m n start len] window_mono [of n m start len]
  by (cases m n rule: linorder_cases) (force simp: in_window_def)+

subsection \<open>Properties\<close>

text \<open>
  C33: the periods of a profile partition time. From the start date on, for every period
  length, every instant lies in exactly one of the windows got from \<open>firstPeriodWindow\<close> by
  iterating \<open>nextPeriodWindow\<close>; consecutive windows share their boundary, so there is no
  gap and no overlap.
\<close>

theorem windows_partition_time:
  assumes "start \<le> t"
  shows "\<exists>!n. in_window t (nth_window start len n)"
  using window_covers [OF assms] window_unique by blast

theorem windows_partition_time_witness:
  "\<exists>!n. in_window 1704067200000 (nth_window 0 MONTHLY n)"
  by (rule windows_partition_time) simp

text \<open>
  How long a period is. A period starts at its given instant, keeps the time of day, and lasts
  a whole number of days: 7 for a week, 28 to 31 for a month, 84 to 93 for a quarter, 365 or 366
  for a year. In particular it ends after it starts, and is due exactly from its end on.
\<close>

lemma period_duration:
  "\<exists>d. periodEndDate start len = start + d * msPerDay \<and> min_days len \<le> d \<and> d \<le> max_days len
     \<and> win_start (nextPeriodWindow start len) = start
     \<and> isPeriodDue (win_end (nextPeriodWindow start len)) (start + d * msPerDay)
     \<and> \<not> isPeriodDue (win_end (nextPeriodWindow start len)) (start + d * msPerDay - 1)"
  using period_days [of start len] by (auto simp: nextPeriodWindow_def isPeriodDue_def)

text \<open>
  Months of different lengths: a monthly period that starts on 31 January 2026 ends on 3 March, because
  the month is advanced before the day is looked at.
\<close>

lemma month_end_overflow:
  "win_end (firstPeriodWindow (make_day 2026 0 31 * msPerDay) MONTHLY) = make_day 2026 2 3 * msPerDay"
  by code_simp

end
