(* ===== verification/Analytics.thy ===== *)
theory Analytics
  imports Allocation
begin

section \<open>Analytics core\<close>

text \<open>
  \<open>src/apps/api/src/modules/contributions/domain/analytics\<close> and the member half of
  \<open>contribution-period.ts\<close>: expected contributions, standings, pool totals, reconciliation.
  Percentages of stored rows are integers; a percentage out of range makes
  \<open>Percentage.fromBasisPoints\<close> throw, so the totals are results.
\<close>

datatype standing_state = ON_TRACK | AHEAD | BEHIND

record contribution_standing =
  expectedCents :: cents
  actualCents :: cents
  varianceCents :: cents
  standing_of :: standing_state

text \<open>\<open>MemberExpectation\<close> and \<open>MemberSnapshot\<close> have the same fields.\<close>

record member_snapshot =
  snap_id :: uuid
  incomeCents :: cents
  percentageBp :: int

definition expectedContributionCents :: "cents \<Rightarrow> int \<Rightarrow> cents result" where
  "expectedContributionCents income bp =
     (case fromBasisPoints (IntegerNum bp) of
        Ok p \<Rightarrow> Ok (applyToCents p income)
      | Err e \<Rightarrow> Err e
      | Thrown x \<Rightarrow> Thrown x)"

text \<open>The \<open>reduce\<close> of \<open>poolExpectedTotalCents\<close> in \<open>analytics.ts\<close>.\<close>

fun add_expected :: "cents \<Rightarrow> member_snapshot list \<Rightarrow> cents result" where
  "add_expected acc [] = Ok acc"
| "add_expected acc (e # es) =
     (case expectedContributionCents (incomeCents e) (percentageBp e) of
        Ok c \<Rightarrow> add_expected (acc + c) es
      | Err er \<Rightarrow> Err er
      | Thrown x \<Rightarrow> Thrown x)"

definition poolExpectedTotalCents :: "member_snapshot list \<Rightarrow> cents result" where
  "poolExpectedTotalCents es = add_expected 0 es"

definition poolActualTotalCents :: "cents list \<Rightarrow> cents" where
  "poolActualTotalCents recordAmounts = foldl (+) 0 recordAmounts"

definition computeStanding :: "cents \<Rightarrow> cents \<Rightarrow> contribution_standing" where
  "computeStanding expected actual =
     (let variance = actual - expected
      in \<lparr>expectedCents = expected, actualCents = actual, varianceCents = variance,
          standing_of = (if variance = 0 then ON_TRACK else if variance > 0 then AHEAD else BEHIND)\<rparr>)"

definition expectedForMember :: "member_snapshot \<Rightarrow> cents result" where
  "expectedForMember m = expectedContributionCents (incomeCents m) (percentageBp m)"

definition memberStanding :: "member_snapshot \<Rightarrow> cents \<Rightarrow> contribution_standing result" where
  "memberStanding m actual = (case expectedForMember m of
      Ok e \<Rightarrow> Ok (computeStanding e actual) | Err er \<Rightarrow> Err er | Thrown x \<Rightarrow> Thrown x)"

record reconciliation =
  poolExpectedCents :: cents
  poolActualCents :: cents
  poolVarianceCents :: cents
  shortfallCents :: cents
  reconciled :: bool

text \<open>
  \<open>actualByMember\<close> is a \<open>Map\<close>: its entries in insertion order, keys distinct. The first loop
  of \<open>reconcile\<close> adds up, member by member, what the snapshot's members are expected to pay
  and what they paid; the second adds the records of everyone else.
\<close>

definition amount_for :: "(uuid \<times> cents) list \<Rightarrow> uuid \<Rightarrow> cents" where
  "amount_for actualByMember i = (case map_of actualByMember i of None \<Rightarrow> 0 | Some c \<Rightarrow> c)"

fun member_totals :: "(uuid \<times> cents) list \<Rightarrow> member_snapshot list \<Rightarrow> cents \<Rightarrow> cents
    \<Rightarrow> (cents \<times> cents) result" where
  "member_totals actualByMember [] expected actual = Ok (expected, actual)"
| "member_totals actualByMember (m # ms) expected actual =
     (case expectedForMember m of
        Ok c \<Rightarrow> member_totals actualByMember ms (expected + c) (actual + amount_for actualByMember (snap_id m))
      | Err e \<Rightarrow> Err e
      | Thrown x \<Rightarrow> Thrown x)"

definition reconcile :: "member_snapshot list \<Rightarrow> (uuid \<times> cents) list \<Rightarrow> reconciliation result" where
  "reconcile members actualByMember =
     (case member_totals actualByMember members 0 0 of
        Err e \<Rightarrow> Err e
      | Thrown x \<Rightarrow> Thrown x
      | Ok (expected, inside) \<Rightarrow>
          let actual = foldl (\<lambda>acc (mid, amt).
                  if \<not> list_ex (\<lambda>m. snap_id m = mid) members then acc + amt else acc)
                  inside actualByMember;
              variance = actual - expected
          in Ok \<lparr>poolExpectedCents = expected, poolActualCents = actual,
                 poolVarianceCents = variance,
                 shortfallCents = (if variance < 0 then - variance else 0),
                 reconciled = (variance = 0)\<rparr>)"

subsection \<open>Facts\<close>

definition valid_bps :: "member_snapshot list \<Rightarrow> bool" where
  "valid_bps members \<longleftrightarrow> list_all (\<lambda>m. 0 \<le> percentageBp m \<and> percentageBp m \<le> 10000) members"

definition expected_cents :: "member_snapshot \<Rightarrow> cents" where
  "expected_cents m = bigint_div (incomeCents m * percentageBp m) 10000"

lemma expectedContributionCents_valid:
  "0 \<le> bp \<Longrightarrow> bp \<le> 10000 \<Longrightarrow>
     expectedContributionCents income bp = Ok (bigint_div (income * bp) 10000)"
  by (simp add: expectedContributionCents_def fromBasisPoints_def applyToCents_def BASIS_POINTS_SCALE_def)

lemma expectedContributionCents_invalid:
  "bp < 0 \<or> 10000 < bp \<Longrightarrow> expectedContributionCents income bp = Thrown RangeError"
  by (auto simp: expectedContributionCents_def fromBasisPoints_def)

lemma add_expected_valid:
  "valid_bps ms \<Longrightarrow> add_expected acc ms = Ok (acc + sum_list (map expected_cents ms))"
  by (induction ms arbitrary: acc)
    (auto simp: valid_bps_def expectedContributionCents_valid expected_cents_def)

lemma member_totals_valid:
  "valid_bps ms \<Longrightarrow> member_totals actual ms e a
     = Ok (e + sum_list (map expected_cents ms), a + sum_list (map (\<lambda>m. amount_for actual (snap_id m)) ms))"
  by (induction ms arbitrary: e a)
    (auto simp: valid_bps_def expectedForMember_def expectedContributionCents_valid expected_cents_def)

text \<open>The two loops that add up expectations, in two files of the source, agree, failures included.\<close>

lemma member_totals_expected:
  "(case member_totals actual ms e a of Ok q \<Rightarrow> Ok (fst q) | Err er \<Rightarrow> Err er | Thrown x \<Rightarrow> Thrown x) = add_expected e ms"
proof (induction ms arbitrary: e a)
  case (Cons m ms)
  then show ?case
    by (cases "expectedContributionCents (incomeCents m) (percentageBp m)") (simp_all add: expectedForMember_def)
qed simp

lemma expected_cents_bounds:
  assumes "0 \<le> percentageBp m" and "percentageBp m \<le> 10000" and "0 \<le> incomeCents m"
  shows "0 \<le> expected_cents m \<and> expected_cents m \<le> incomeCents m"
proof -
  have "wf_percentage \<lparr>basisPoints = percentageBp m\<rparr>" using assms by (simp add: wf_percentage_def)
  from applyToCents_bounds [OF this assms(3)] show ?thesis
    by (simp add: applyToCents_def expected_cents_def BASIS_POINTS_SCALE_def)
qed

lemma foldl_plus_map: "foldl (\<lambda>acc x. acc + f x) (a::int) xs = a + sum_list (map f xs)"
  by (induction xs arbitrary: a) auto

lemma poolActual_sum: "poolActualTotalCents xs = sum_list xs"
  unfolding poolActualTotalCents_def using foldl_plus_map [of "\<lambda>x. x" 0 xs] by simp

lemma foldl_if_plus:
  "foldl (\<lambda>acc (k, v). if P k then acc + v else acc) (a::int) xs
     = a + sum_list (map snd (filter (\<lambda>(k, v). P k) xs))"
  by (induction xs arbitrary: a) (auto split: prod.splits)

text \<open>With distinct snapshot members and distinct keys, every entry of the map counts once.\<close>

lemma amounts_of_members:
  assumes "distinct (map fst kvs)" and "distinct ids"
  shows "sum_list (map (amount_for kvs) ids) = sum_list (map snd (filter (\<lambda>(k, v). k \<in> set ids) kvs))"
  using assms
proof (induction kvs)
  case Nil
  then show ?case by (simp add: amount_for_def)
next
  case (Cons kv kvs)
  obtain k v where kv: "kv = (k, v)" by force
  have step: "amount_for (kv # kvs) i = (if i = k then v else amount_for kvs i)" for i
    by (simp add: amount_for_def kv)
  have "k \<notin> fst ` set kvs" using Cons.prems(1) by (auto simp: kv)
  then have "map_of kvs k = None" by (simp add: map_of_eq_None_iff)
  then have k0: "amount_for kvs k = 0" by (simp add: amount_for_def)
  have "sum_list (map (amount_for (kv # kvs)) ids)
      = sum_list (map (amount_for kvs) ids) + (if k \<in> set ids then v else 0)"
    using Cons.prems(2)
  proof (induction ids)
    case Nil
    show ?case by simp
  next
    case (Cons i ids)
    then show ?case by (auto simp: step k0)
  qed
  with Cons kv show ?case by auto
qed

lemma sum_list_partition:
  "sum_list (map snd (filter (\<lambda>(k, v). P k) kvs)) + sum_list (map snd (filter (\<lambda>(k, v). \<not> P k) kvs))
     = (sum_list (map snd kvs) :: int)"
  by (induction kvs) auto

lemma reconcile_eq:
  assumes "valid_bps members" and "distinct (map snap_id members)" and "distinct (map fst actual)"
  shows "reconcile members actual =
    (let e = sum_list (map expected_cents members); a = sum_list (map snd actual)
     in Ok \<lparr>poolExpectedCents = e, poolActualCents = a, poolVarianceCents = a - e,
            shortfallCents = max 0 (e - a), reconciled = (a = e)\<rparr>)"
proof -
  have "list_ex (\<lambda>m. snap_id m = k) members \<longleftrightarrow> k \<in> set (map snap_id members)" for k
    by (induction members) auto
  moreover have "sum_list (map (\<lambda>m. amount_for actual (snap_id m)) members)
      = sum_list (map snd (filter (\<lambda>(k, v). k \<in> set (map snap_id members)) actual))"
    using amounts_of_members [OF assms(3,2)] by (simp add: comp_def)
  ultimately show ?thesis
    using assms(1) sum_list_partition [of "\<lambda>k. k \<in> set (map snap_id members)" actual]
    by (auto simp: reconcile_def member_totals_valid foldl_if_plus Let_def max_def)
qed

lemma floor_div_10000: "10000 * (x div 10000) \<le> x \<and> x < 10000 * (x div 10000 + 1)" for x :: int
proof -
  define q r where qr: "q = x div 10000" "r = x mod 10000"
  have "x = 10000 * q + r" and "0 \<le> r" and "r < 10000" by (simp_all add: qr)
  then have "10000 * q \<le> x \<and> x < 10000 * q + 10000" by linarith
  then show ?thesis by (simp add: qr algebra_simps)
qed

subsection \<open>Properties\<close>

text \<open>
  C32: reconciliation. Over a snapshot with distinct members and percentages in range, and a map
  of recorded amounts, \<open>reconcile\<close> reports the sum of the members' expected
  contributions against the sum of every recorded amount, counting records of people outside the
  snapshot once; the variance is their difference, the shortfall its negative part, and it is
  reconciled exactly when they are equal.
\<close>

theorem reconciliation_exact:
  assumes "valid_bps members" and "distinct (map snap_id members)" and "distinct (map fst actual)"
  shows "\<exists>r. reconcile members actual = Ok r
     \<and> poolExpectedTotalCents members = Ok (poolExpectedCents r)
     \<and> poolActualCents r = poolActualTotalCents (map snd actual)
     \<and> poolVarianceCents r = poolActualCents r - poolExpectedCents r
     \<and> shortfallCents r = max 0 (poolExpectedCents r - poolActualCents r)
     \<and> (reconciled r \<longleftrightarrow> shortfallCents r = 0 \<and> poolVarianceCents r \<le> 0)"
  using assms(1) by (auto simp: reconcile_eq [OF assms] Let_def poolExpectedTotalCents_def
      add_expected_valid poolActual_sum)

theorem reconciliation_exact_witness:
  "\<exists>r. reconcile [\<lparr>snap_id = ''m'', incomeCents = 100000, percentageBp = 2500\<rparr>] [(''m'', 20000), (''x'', 500)] = Ok r
     \<and> poolExpectedTotalCents [\<lparr>snap_id = ''m'', incomeCents = 100000, percentageBp = 2500\<rparr>] = Ok (poolExpectedCents r)
     \<and> poolActualCents r = poolActualTotalCents (map snd [(''m'', 20000), (''x'', 500)])
     \<and> poolVarianceCents r = poolActualCents r - poolExpectedCents r
     \<and> shortfallCents r = max 0 (poolExpectedCents r - poolActualCents r)
     \<and> (reconciled r \<longleftrightarrow> shortfallCents r = 0 \<and> poolVarianceCents r \<le> 0)"
  by (rule reconciliation_exact) (simp_all add: valid_bps_def)

text \<open>
  Expected contributions are bounded. For a non-negative income and a percentage in range, the
  expected contribution is the proportional part of the income rounded down, hence between zero and
  the income; with a percentage out of range, and only then, the computation throws.
\<close>

lemma expected_contribution_bounds:
  assumes "0 \<le> income"
  shows "case expectedContributionCents income bp of
       Ok c \<Rightarrow> 0 \<le> bp \<and> bp \<le> 10000 \<and> 0 \<le> c \<and> c \<le> income \<and> 10000 * c \<le> income * bp \<and> income * bp < 10000 * (c + 1)
     | Err e \<Rightarrow> False
     | Thrown x \<Rightarrow> (bp < 0 \<or> 10000 < bp) \<and> x = RangeError"
proof (cases "0 \<le> bp \<and> bp \<le> 10000")
  case True
  then have nn: "0 \<le> income * bp" using assms by simp
  define q where "q = income * bp div 10000"
  have q: "10000 * q \<le> income * bp" "income * bp < 10000 * (q + 1)"
    using floor_div_10000 [of "income * bp"] unfolding q_def by simp_all
  have "0 \<le> q \<and> q \<le> income"
    using expected_cents_bounds [of "\<lparr>snap_id = [], incomeCents = income, percentageBp = bp\<rparr>"] True assms nn
    by (simp add: expected_cents_def bigint_div_nonneg q_def)
  with True q nn show ?thesis
    by (simp add: expectedContributionCents_valid bigint_div_nonneg flip: q_def)
next
  case False
  then have "bp < 0 \<or> 10000 < bp" by linarith
  then show ?thesis by (simp add: expectedContributionCents_invalid)
qed

end
