(* ===== verification/Membership.thy ===== *)
theory Membership
  imports Errors Calendar
begin

section \<open>Memberships and profiles: the domain rules\<close>

text \<open>
  \<open>src/apps/api/src/modules/profiles/domain/entities\<close>: the membership status machine, the
  role and ownership rules, archival of a profile. The functions take the state and the
  instant and return a delta of fields or a failure; \<open>membership_step\<close> is the relation of
  all their successful applications.
\<close>

subsection \<open>State\<close>

datatype member_role = OWNER | ADMIN | CONTRIBUTOR | VIEWER

datatype membership_status = INVITED | ACTIVE | DECLINED | EXPIRED | LEFT

datatype profile_status = PROFILE_ACTIVE | PROFILE_ARCHIVED

definition role_json :: "member_role \<Rightarrow> json" where
  "role_json r = JStr (case r of OWNER \<Rightarrow> ''OWNER'' | ADMIN \<Rightarrow> ''ADMIN''
     | CONTRIBUTOR \<Rightarrow> ''CONTRIBUTOR'' | VIEWER \<Rightarrow> ''VIEWER'')"

definition status_json :: "membership_status \<Rightarrow> json" where
  "status_json s = JStr (case s of INVITED \<Rightarrow> ''INVITED'' | ACTIVE \<Rightarrow> ''ACTIVE''
     | DECLINED \<Rightarrow> ''DECLINED'' | EXPIRED \<Rightarrow> ''EXPIRED'' | LEFT \<Rightarrow> ''LEFT'')"

definition profile_status_json :: "profile_status \<Rightarrow> json" where
  "profile_status_json s = JStr (case s of PROFILE_ACTIVE \<Rightarrow> ''ACTIVE'' | PROFILE_ARCHIVED \<Rightarrow> ''ARCHIVED'')"

text \<open>A \<open>Date\<close> inside the details of an error or a payload serialises as its ISO text.\<close>

definition date_json :: "instant \<Rightarrow> json" where
  "date_json t = JStr (toISOString t)"

definition INVITATION_TTL_DAYS :: int where
  "INVITATION_TTL_DAYS = 14"

definition INVITATION_TTL_MS :: int where
  "INVITATION_TTL_MS = INVITATION_TTL_DAYS * 24 * 60 * 60 * 1000"

record membership_state =
  ms_id :: uuid
  ms_role :: member_role
  ms_status :: membership_status
  ms_pendingOwnerNominee :: bool
  ms_invitationExpiresAt :: instant
  ms_version :: int

text \<open>A field that a delta leaves alone is \<open>None\<close>.\<close>

record membership_delta =
  d_role :: "member_role option"
  d_status :: "membership_status option"
  d_pendingOwnerNominee :: "bool option"
  d_joinedAt :: "instant option"
  d_leftAt :: "instant option"

definition no_delta :: membership_delta where
  "no_delta = \<lparr>d_role = None, d_status = None, d_pendingOwnerNominee = None,
     d_joinedAt = None, d_leftAt = None\<rparr>"

fun isTerminal :: "membership_status \<Rightarrow> bool" where
  "isTerminal DECLINED = True"
| "isTerminal EXPIRED = True"
| "isTerminal LEFT = True"
| "isTerminal INVITED = False"
| "isTerminal ACTIVE = False"

definition isInvitationExpired :: "membership_state \<Rightarrow> instant \<Rightarrow> bool" where
  "isInvitationExpired m now \<longleftrightarrow> ms_status m = INVITED \<and> now \<ge> ms_invitationExpiresAt m"

definition invitationExpiresAt :: "instant \<Rightarrow> instant" where
  "invitationExpiresAt invitedAt = invitedAt + INVITATION_TTL_MS"

subsection \<open>Transitions\<close>

definition status_details :: "membership_state \<Rightarrow> (string \<times> json) list option" where
  "status_details m = Some [(''status'', status_json (ms_status m))]"

definition id_details :: "uuid \<Rightarrow> (string \<times> json) list option" where
  "id_details i = Some [(''membershipId'', JStr i)]"

definition accept :: "membership_state \<Rightarrow> instant \<Rightarrow> membership_delta result" where
  "accept m now =
     (if ms_status m \<noteq> INVITED then Err (invariant_error (status_details m))
      else if isInvitationExpired m now
      then Err (invariant_error (Some [(''invitationExpiresAt'', date_json (ms_invitationExpiresAt m))]))
      else Ok (no_delta\<lparr>d_status := Some ACTIVE, d_joinedAt := Some now\<rparr>))"

definition decline :: "membership_state \<Rightarrow> membership_delta result" where
  "decline m =
     (if ms_status m \<noteq> INVITED then Err (invariant_error (status_details m))
      else Ok (no_delta\<lparr>d_status := Some DECLINED\<rparr>))"

definition expire :: "membership_state \<Rightarrow> instant \<Rightarrow> membership_delta result" where
  "expire m now =
     (if \<not> isInvitationExpired m now
      then Err (invariant_error (Some [(''invitationExpiresAt'', date_json (ms_invitationExpiresAt m))]))
      else Ok (no_delta\<lparr>d_status := Some EXPIRED\<rparr>))"

definition leave :: "membership_state \<Rightarrow> instant \<Rightarrow> membership_delta result" where
  "leave m now =
     (if ms_status m \<noteq> ACTIVE then Err (invariant_error (status_details m))
      else if ms_role m = OWNER then Err (invariant_error (id_details (ms_id m)))
      else Ok (no_delta\<lparr>d_status := Some LEFT, d_leftAt := Some now\<rparr>))"

definition changeRole :: "membership_state \<Rightarrow> member_role \<Rightarrow> membership_delta result" where
  "changeRole m role =
     (if ms_status m \<noteq> ACTIVE then Err (invariant_error (status_details m))
      else if ms_role m = OWNER then Err (invariant_error (id_details (ms_id m)))
      else if role = OWNER then Err (invariant_error (Some [(''role'', role_json role)]))
      else Ok (no_delta\<lparr>d_role := Some role\<rparr>))"

definition nominateOwner :: "membership_state \<Rightarrow> membership_delta result" where
  "nominateOwner nominee =
     (if ms_status nominee \<noteq> ACTIVE then Err (invariant_error (status_details nominee))
      else if ms_role nominee = OWNER then Err (invariant_error (id_details (ms_id nominee)))
      else Ok (no_delta\<lparr>d_pendingOwnerNominee := Some True\<rparr>))"

record ownership_transfer_deltas =
  nominee_delta :: membership_delta
  outgoingOwner_delta :: membership_delta

definition acceptOwnership ::
    "membership_state \<Rightarrow> membership_state \<Rightarrow> ownership_transfer_deltas result" where
  "acceptOwnership nominee currentOwner =
     (if \<not> ms_pendingOwnerNominee nominee then Err (invariant_error (id_details (ms_id nominee)))
      else if ms_status nominee \<noteq> ACTIVE then Err (invariant_error (status_details nominee))
      else if ms_role currentOwner \<noteq> OWNER then Err (invariant_error (id_details (ms_id currentOwner)))
      else Ok \<lparr>nominee_delta = no_delta\<lparr>d_role := Some OWNER, d_pendingOwnerNominee := Some False\<rparr>,
               outgoingOwner_delta = no_delta\<lparr>d_role := Some ADMIN\<rparr>\<rparr>)"

subsection \<open>Profiles\<close>

record shared_profile_state =
  sps_id :: uuid
  sps_status :: profile_status
  sps_ownerMembershipId :: "uuid option"

definition isWritable :: "shared_profile_state \<Rightarrow> bool" where
  "isWritable p \<longleftrightarrow> sps_status p = PROFILE_ACTIVE"

definition profile_details :: "uuid \<Rightarrow> (string \<times> json) list option" where
  "profile_details i = Some [(''sharedProfileId'', JStr i)]"

definition assertWritable :: "shared_profile_state \<Rightarrow> unit result" where
  "assertWritable p = (if \<not> isWritable p then Err (archived (profile_details (sps_id p))) else Ok ())"

definition activeMemberCount :: "membership_state list \<Rightarrow> nat" where
  "activeMemberCount members = length (filter (\<lambda>m. ms_status m = ACTIVE) members)"

text \<open>The delta of an archival is its instant; the status it sets is always ARCHIVED.\<close>

definition archive :: "shared_profile_state \<Rightarrow> membership_state \<Rightarrow> membership_state list
    \<Rightarrow> instant \<Rightarrow> instant result" where
  "archive p actor members now =
     (if sps_status p = PROFILE_ARCHIVED then Err (invariant_error (profile_details (sps_id p)))
      else if ms_role actor \<noteq> OWNER then Err (forbidden (profile_details (sps_id p)))
      else if activeMemberCount members > 1
      then Err (invariant_error (Some [(''sharedProfileId'', JStr (sps_id p)),
                 (''activeMembers'', JNum (int (activeMemberCount members)))]))
      else Ok now)"

definition assertSingleOwner :: "membership_state list \<Rightarrow> unit result" where
  "assertSingleOwner members =
     (let owners = filter (\<lambda>m. ms_status m = ACTIVE \<and> ms_role m = OWNER) members
      in if length owners \<noteq> 1
         then Err (invariant_error (Some [(''owners'', JNum (int (length owners)))]))
         else Ok ())"

record personal_profile_state =
  pps_id :: uuid
  pps_userId :: uuid

definition isVisibleTo :: "personal_profile_state \<Rightarrow> uuid \<Rightarrow> bool" where
  "isVisibleTo profile requester \<longleftrightarrow> pps_userId profile = requester"

subsection \<open>Inversion rules\<close>

text \<open>Each transition succeeds in exactly one way.\<close>

lemma accept_Ok: "accept m now = Ok d \<longleftrightarrow> ms_status m = INVITED \<and> now < ms_invitationExpiresAt m
    \<and> d = no_delta\<lparr>d_status := Some ACTIVE, d_joinedAt := Some now\<rparr>"
  by (auto simp: accept_def isInvitationExpired_def)

lemma decline_Ok: "decline m = Ok d \<longleftrightarrow> ms_status m = INVITED \<and> d = no_delta\<lparr>d_status := Some DECLINED\<rparr>"
  by (auto simp: decline_def)

lemma expire_Ok: "expire m now = Ok d \<longleftrightarrow> ms_status m = INVITED \<and> ms_invitationExpiresAt m \<le> now
    \<and> d = no_delta\<lparr>d_status := Some EXPIRED\<rparr>"
  by (auto simp: expire_def isInvitationExpired_def)

lemma leave_Ok: "leave m now = Ok d \<longleftrightarrow> ms_status m = ACTIVE \<and> ms_role m \<noteq> OWNER
    \<and> d = no_delta\<lparr>d_status := Some LEFT, d_leftAt := Some now\<rparr>"
  by (auto simp: leave_def)

lemma changeRole_Ok: "changeRole m r = Ok d \<longleftrightarrow> ms_status m = ACTIVE \<and> ms_role m \<noteq> OWNER \<and> r \<noteq> OWNER
    \<and> d = no_delta\<lparr>d_role := Some r\<rparr>"
  by (auto simp: changeRole_def)

lemma nominateOwner_Ok: "nominateOwner m = Ok d \<longleftrightarrow> ms_status m = ACTIVE \<and> ms_role m \<noteq> OWNER
    \<and> d = no_delta\<lparr>d_pendingOwnerNominee := Some True\<rparr>"
  by (auto simp: nominateOwner_def)

lemma acceptOwnership_Ok: "acceptOwnership n c = Ok d \<longleftrightarrow>
    ms_pendingOwnerNominee n \<and> ms_status n = ACTIVE \<and> ms_role c = OWNER
    \<and> d = \<lparr>nominee_delta = no_delta\<lparr>d_role := Some OWNER, d_pendingOwnerNominee := Some False\<rparr>,
           outgoingOwner_delta = no_delta\<lparr>d_role := Some ADMIN\<rparr>\<rparr>"
  by (auto simp: acceptOwnership_def)

lemma archive_Ok: "archive p a ms now = Ok d \<longleftrightarrow> sps_status p = PROFILE_ACTIVE \<and> ms_role a = OWNER
    \<and> activeMemberCount ms \<le> 1 \<and> d = now"
  by (cases "sps_status p") (auto simp: archive_def)

lemma assertWritable_Ok: "assertWritable p = Ok u \<longleftrightarrow> sps_status p = PROFILE_ACTIVE"
  by (auto simp: assertWritable_def isWritable_def)

lemmas transition_Ok = accept_Ok decline_Ok expire_Ok leave_Ok changeRole_Ok nominateOwner_Ok
  acceptOwnership_Ok archive_Ok assertWritable_Ok

lemma transitions_not_Thrown:
  "accept m now \<noteq> Thrown x" "decline m \<noteq> Thrown x" "expire m now \<noteq> Thrown x" "leave m now \<noteq> Thrown x"
  "changeRole m r \<noteq> Thrown x" "nominateOwner m \<noteq> Thrown x" "acceptOwnership n c \<noteq> Thrown x"
  "archive p a ms now \<noteq> Thrown x" "assertWritable p \<noteq> Thrown x"
  by (simp_all add: accept_def decline_def expire_def leave_def changeRole_def nominateOwner_def
      acceptOwnership_def archive_def assertWritable_def)

subsection \<open>The status machine\<close>

text \<open>What persisting a delta does to the fields the domain sees.\<close>

definition with_delta :: "membership_delta \<Rightarrow> membership_state \<Rightarrow> membership_state" where
  "with_delta d m = m\<lparr>
     ms_role := (case d_role d of None \<Rightarrow> ms_role m | Some r \<Rightarrow> r),
     ms_status := (case d_status d of None \<Rightarrow> ms_status m | Some s \<Rightarrow> s),
     ms_pendingOwnerNominee := (case d_pendingOwnerNominee d of None \<Rightarrow> ms_pendingOwnerNominee m | Some b \<Rightarrow> b)\<rparr>"

text \<open>One successful transition of a single membership at an instant.\<close>

inductive membership_step :: "instant \<Rightarrow> membership_state \<Rightarrow> membership_state \<Rightarrow> bool" where
  step_accept: "accept m now = Ok d \<Longrightarrow> membership_step now m (with_delta d m)"
| step_decline: "decline m = Ok d \<Longrightarrow> membership_step now m (with_delta d m)"
| step_expire: "expire m now = Ok d \<Longrightarrow> membership_step now m (with_delta d m)"
| step_leave: "leave m now = Ok d \<Longrightarrow> membership_step now m (with_delta d m)"
| step_role: "changeRole m r = Ok d \<Longrightarrow> membership_step now m (with_delta d m)"
| step_nominate: "nominateOwner m = Ok d \<Longrightarrow> membership_step now m (with_delta d m)"
| step_become_owner: "acceptOwnership m c = Ok d \<Longrightarrow> membership_step now m (with_delta (nominee_delta d) m)"
| step_step_down: "acceptOwnership n m = Ok d \<Longrightarrow> membership_step now m (with_delta (outgoingOwner_delta d) m)"

inductive_cases membership_stepE: "membership_step now m m'"

text \<open>A history: steps at instants that never go back.\<close>

inductive membership_history :: "instant \<Rightarrow> membership_state \<Rightarrow> instant \<Rightarrow> membership_state \<Rightarrow> bool" where
  history_refl: "membership_history t m t m"
| history_wait: "membership_history t m t' m' \<Longrightarrow> t' \<le> t'' \<Longrightarrow> membership_history t m t'' m'"
| history_step: "membership_history t m t' m' \<Longrightarrow> membership_step t' m' m'' \<Longrightarrow> membership_history t m t' m''"

definition status_edge :: "membership_status \<Rightarrow> membership_status \<Rightarrow> bool" where
  "status_edge a b \<longleftrightarrow> (a, b) \<in> {(INVITED, ACTIVE), (INVITED, DECLINED), (INVITED, EXPIRED), (ACTIVE, LEFT)}"

lemma with_delta_frame [simp]:
  "ms_id (with_delta d m) = ms_id m"
  "ms_invitationExpiresAt (with_delta d m) = ms_invitationExpiresAt m"
  "ms_version (with_delta d m) = ms_version m"
  by (simp_all add: with_delta_def)

lemma membership_step_frame:
  "membership_step now m m' \<Longrightarrow> ms_id m' = ms_id m \<and> ms_invitationExpiresAt m' = ms_invitationExpiresAt m"
  by (auto elim: membership_stepE)

lemma membership_step_edge:
  "membership_step now m m' \<Longrightarrow> ms_status m' = ms_status m \<or> status_edge (ms_status m) (ms_status m')"
  by (erule membership_stepE) (auto simp: transition_Ok with_delta_def no_delta_def status_edge_def)

lemma membership_step_terminal:
  "membership_step now m m' \<Longrightarrow> isTerminal (ms_status m) \<Longrightarrow> ms_status m' = ms_status m"
  by (erule membership_stepE) (auto simp: transition_Ok with_delta_def no_delta_def)

lemma membership_step_invited:
  "membership_step now m m' \<Longrightarrow> ms_status m = INVITED \<Longrightarrow> ms_status m' = ACTIVE \<Longrightarrow> now < ms_invitationExpiresAt m"
  by (erule membership_stepE) (auto simp: transition_Ok with_delta_def no_delta_def)

lemma membership_history_time: "membership_history t m t' m' \<Longrightarrow> t \<le> t'"
  by (induction rule: membership_history.induct) auto

lemma membership_history_frame:
  "membership_history t m t' m' \<Longrightarrow> ms_id m' = ms_id m \<and> ms_invitationExpiresAt m' = ms_invitationExpiresAt m"
  by (induction rule: membership_history.induct) (auto dest: membership_step_frame)

subsection \<open>Properties\<close>

text \<open>
  C20: the membership status machine. Along any history of successful transitions a terminal
  membership never changes status again, an active one is active or has left, and an invitation
  whose expiry instant has passed never becomes active.
\<close>

theorem membership_status_machine:
  assumes "membership_history t m t' m'"
  shows "(isTerminal (ms_status m) \<longrightarrow> ms_status m' = ms_status m)
    \<and> (ms_status m = ACTIVE \<longrightarrow> ms_status m' = ACTIVE \<or> ms_status m' = LEFT)
    \<and> (ms_status m = INVITED \<and> ms_invitationExpiresAt m \<le> t \<longrightarrow>
         ms_status m' \<in> {INVITED, DECLINED, EXPIRED})"
  using assms
proof (induction rule: membership_history.induct)
  case (history_step t m t' m' m'')
  have "t \<le> t'" and "ms_invitationExpiresAt m' = ms_invitationExpiresAt m"
    using history_step.hyps(1) membership_history_time membership_history_frame by blast+
  with history_step show ?case
    using membership_step_edge [OF history_step.hyps(2)] membership_step_terminal [OF history_step.hyps(2)]
      membership_step_invited [OF history_step.hyps(2)]
    by (cases "ms_status m'"; cases "ms_status m''"; cases "ms_status m") (auto simp: status_edge_def)
qed auto

definition demo_member :: membership_state where
  "demo_member = \<lparr>ms_id = ''m'', ms_role = VIEWER, ms_status = INVITED, ms_pendingOwnerNominee = False,
     ms_invitationExpiresAt = 100, ms_version = 0\<rparr>"

lemma demo_history: "membership_history 100 demo_member 120 (with_delta (no_delta\<lparr>d_status := Some EXPIRED\<rparr>) demo_member)"
  by (rule history_step [OF history_wait [OF history_refl] step_expire])
    (simp_all add: expire_Ok demo_member_def)

theorem membership_status_machine_witness:
  "ms_status (with_delta (no_delta\<lparr>d_status := Some EXPIRED\<rparr>) demo_member) \<in> {INVITED, DECLINED, EXPIRED}"
  using membership_status_machine [OF demo_history] by (simp add: demo_member_def)

end
