(* ===== verification/Capability.thy ===== *)
theory Capability
  imports Membership
begin

section \<open>Capabilities\<close>

text \<open>
  \<open>src/apps/api/src/modules/permissions\<close>: the capability matrix and the guard that enforces it
  on annotated resolvers.
\<close>

datatype capability =
    VIEW_PROFILE
  | INVITE_MEMBER
  | CHANGE_MEMBER_ROLE
  | REMOVE_MEMBER
  | NOMINATE_OWNER
  | TRANSFER_OWNERSHIP
  | ARCHIVE_PROFILE
  | SET_OWN_INCOME
  | SET_OWN_ALLOCATION
  | RECORD_CONTRIBUTION
  | REDISTRIBUTE_PERCENTAGES
  | MANAGE_SHARED_ELEMENTS
  | SET_DEBT_RESPONSIBILITY

fun MATRIX :: "capability \<Rightarrow> member_role list" where
  "MATRIX VIEW_PROFILE = [OWNER, ADMIN, CONTRIBUTOR, VIEWER]"
| "MATRIX INVITE_MEMBER = [OWNER, ADMIN]"
| "MATRIX CHANGE_MEMBER_ROLE = [OWNER, ADMIN]"
| "MATRIX REMOVE_MEMBER = [OWNER, ADMIN]"
| "MATRIX NOMINATE_OWNER = [OWNER]"
| "MATRIX TRANSFER_OWNERSHIP = [OWNER]"
| "MATRIX ARCHIVE_PROFILE = [OWNER]"
| "MATRIX SET_OWN_INCOME = [OWNER, ADMIN, CONTRIBUTOR]"
| "MATRIX SET_OWN_ALLOCATION = [OWNER, ADMIN, CONTRIBUTOR]"
| "MATRIX RECORD_CONTRIBUTION = [OWNER, ADMIN, CONTRIBUTOR]"
| "MATRIX REDISTRIBUTE_PERCENTAGES = [OWNER, ADMIN]"
| "MATRIX MANAGE_SHARED_ELEMENTS = [OWNER, ADMIN]"
| "MATRIX SET_DEBT_RESPONSIBILITY = [OWNER, ADMIN]"

definition can :: "member_role \<Rightarrow> capability \<Rightarrow> bool" where
  "can role c \<longleftrightarrow> role \<in> set (MATRIX c)"

definition rolesFor :: "capability \<Rightarrow> member_role list" where
  "rolesFor c = MATRIX c"

fun capability_json :: "capability \<Rightarrow> json" where
  "capability_json VIEW_PROFILE = JStr ''VIEW_PROFILE''"
| "capability_json INVITE_MEMBER = JStr ''INVITE_MEMBER''"
| "capability_json CHANGE_MEMBER_ROLE = JStr ''CHANGE_MEMBER_ROLE''"
| "capability_json REMOVE_MEMBER = JStr ''REMOVE_MEMBER''"
| "capability_json NOMINATE_OWNER = JStr ''NOMINATE_OWNER''"
| "capability_json TRANSFER_OWNERSHIP = JStr ''TRANSFER_OWNERSHIP''"
| "capability_json ARCHIVE_PROFILE = JStr ''ARCHIVE_PROFILE''"
| "capability_json SET_OWN_INCOME = JStr ''SET_OWN_INCOME''"
| "capability_json SET_OWN_ALLOCATION = JStr ''SET_OWN_ALLOCATION''"
| "capability_json RECORD_CONTRIBUTION = JStr ''RECORD_CONTRIBUTION''"
| "capability_json REDISTRIBUTE_PERCENTAGES = JStr ''REDISTRIBUTE_PERCENTAGES''"
| "capability_json MANAGE_SHARED_ELEMENTS = JStr ''MANAGE_SHARED_ELEMENTS''"
| "capability_json SET_DEBT_RESPONSIBILITY = JStr ''SET_DEBT_RESPONSIBILITY''"

record request_membership =
  rm_membershipId :: uuid
  rm_sharedProfileId :: uuid
  rm_role :: member_role

text \<open>
  \<open>canActivate\<close>: the annotated capability, if any, and the membership attached to the
  request, if any; a rejection is a thrown \<open>DomainError\<close>.
\<close>

definition canActivate :: "capability option \<Rightarrow> request_membership option \<Rightarrow> bool unwrapped" where
  "canActivate required membership =
     (case required of
        None \<Rightarrow> Value True
      | Some c \<Rightarrow>
          (case membership of
             None \<Rightarrow> ThrewDomainError (forbidden (Some [(''capability'', capability_json c)]))
           | Some m \<Rightarrow>
               if \<not> can (rm_role m) c
               then ThrewDomainError (forbidden (Some [(''capability'', capability_json c),
                      (''role'', role_json (rm_role m))]))
               else Value True))"

text \<open>Seniority OWNER, ADMIN, CONTRIBUTOR, VIEWER as an order on roles.\<close>

fun seniority :: "member_role \<Rightarrow> nat" where
  "seniority OWNER = 3"
| "seniority ADMIN = 2"
| "seniority CONTRIBUTOR = 1"
| "seniority VIEWER = 0"

instantiation member_role :: linorder
begin

definition less_eq_member_role :: "member_role \<Rightarrow> member_role \<Rightarrow> bool" where
  "less_eq_member_role a b \<longleftrightarrow> seniority a \<le> seniority b"

definition less_member_role :: "member_role \<Rightarrow> member_role \<Rightarrow> bool" where
  "less_member_role a b \<longleftrightarrow> seniority a < seniority b"

instance
proof
  fix a b c :: member_role
  show "a < b \<longleftrightarrow> a \<le> b \<and> \<not> b \<le> a" by (auto simp: less_eq_member_role_def less_member_role_def)
  show "a \<le> a" by (simp add: less_eq_member_role_def)
  show "a \<le> b \<Longrightarrow> b \<le> c \<Longrightarrow> a \<le> c" by (simp add: less_eq_member_role_def)
  show "a \<le> b \<Longrightarrow> b \<le> a \<Longrightarrow> a = b" by (cases a; cases b) (simp_all add: less_eq_member_role_def)
  show "a \<le> b \<or> b \<le> a" by (auto simp: less_eq_member_role_def)
qed

end

text \<open>The least role that has a capability: the matrix is exactly \<open>at least this senior\<close>.\<close>

fun least_role :: "capability \<Rightarrow> member_role" where
  "least_role VIEW_PROFILE = VIEWER"
| "least_role SET_OWN_INCOME = CONTRIBUTOR"
| "least_role SET_OWN_ALLOCATION = CONTRIBUTOR"
| "least_role RECORD_CONTRIBUTION = CONTRIBUTOR"
| "least_role NOMINATE_OWNER = OWNER"
| "least_role TRANSFER_OWNERSHIP = OWNER"
| "least_role ARCHIVE_PROFILE = OWNER"
| "least_role _ = ADMIN"

lemma can_iff: "can r c \<longleftrightarrow> least_role c \<le> r"
  by (cases r; cases c) (simp_all add: can_def less_eq_member_role_def)

subsection \<open>Properties\<close>

text \<open>
  C36: authority follows seniority. The guard lets a request through exactly when its resolver is
  not annotated, or when a membership is attached whose role is at least as senior as the least role
  of the capability; otherwise it throws FORBIDDEN. So a capability of a role is one of every more
  senior role, and only the owner may nominate, transfer or archive.
\<close>

theorem guard_follows_seniority:
  "(canActivate required membership = Value True \<longleftrightarrow>
     (case required of None \<Rightarrow> True
      | Some c \<Rightarrow> (case membership of None \<Rightarrow> False | Some m \<Rightarrow> least_role c \<le> rm_role m)))
   \<and> (canActivate required membership \<noteq> Value True \<longrightarrow>
        (\<exists>e. canActivate required membership = ThrewDomainError e \<and> error_code e = FORBIDDEN))
   \<and> (r \<le> r' \<and> can r k \<longrightarrow> can r' k)
   \<and> (can r k \<and> k \<in> {NOMINATE_OWNER, TRANSFER_OWNERSHIP, ARCHIVE_PROFILE} \<longrightarrow> r = OWNER)"
  by (auto simp: canActivate_def can_iff less_eq_member_role_def split: option.splits)
    (cases r; simp)+

theorem guard_follows_seniority_witness:
  "canActivate (Some INVITE_MEMBER)
     (Some \<lparr>rm_membershipId = ''m'', rm_sharedProfileId = ''p'', rm_role = ADMIN\<rparr>) = Value True
   \<and> can OWNER INVITE_MEMBER"
  using guard_follows_seniority [of "Some INVITE_MEMBER"
      "Some \<lparr>rm_membershipId = ''m'', rm_sharedProfileId = ''p'', rm_role = ADMIN\<rparr>" ADMIN OWNER INVITE_MEMBER]
  by (simp add: less_eq_member_role_def can_def)

end
