(* ===== verification/Store.thy ===== *)
theory Store
  imports Membership Periods
begin

section \<open>The database\<close>

text \<open>
  The rows of \<open>src/apps/api/prisma/schema.prisma\<close> as records, the database as a record of
  tables, and the combinators in which the use cases are written. A service method is a function
  from a database to a result and a database. Besides its tables the database value carries what
  the code takes from its surroundings: the clock (\<open>new Date()\<close>, and the database's
  \<open>now()\<close>, which is the same instant within one transaction) and the supply of
  identifiers behind \<open>@default(uuid())\<close>, an arbitrary sequence about which theorems
  assume only that it does not repeat (\<open>fresh_ids\<close>). Column \<open>createdAt\<close>,
  which no code reads, is left out; foreign keys are not modelled (they would be one more way to
  throw and roll back).
\<close>

subsection \<open>Rows\<close>

datatype period_status = OPEN | CLOSED

datatype shared_debt_kind = DEBT | CREDIT_CARD

datatype goal_status = GOAL_ACTIVE | GOAL_ACHIEVED | GOAL_ARCHIVED

datatype profile_type = PERSONAL | SHARED

datatype account_type = WALLET | ACCOUNT | INVESTMENT | EMERGENCY_FUND | CREDIT_CARD_ACCOUNT | DEBT_ACCOUNT

record user_row =
  u_id :: uuid
  u_tenantId :: string
  u_authSubject :: string
  u_displayName :: string

record personal_profile_row =
  pp_id :: uuid
  pp_tenantId :: string
  pp_userId :: uuid

record shared_profile_row =
  sp_id :: uuid
  sp_tenantId :: string
  sp_name :: string
  sp_ownerMembershipId :: "uuid option"
  sp_baseCurrency :: string
  sp_periodLength :: period_length
  sp_status :: profile_status
  sp_archivedAt :: "instant option"

record membership_row =
  m_id :: uuid
  m_tenantId :: string
  m_sharedProfileId :: uuid
  m_userId :: uuid
  m_role :: member_role
  m_status :: membership_status
  m_pendingOwnerNominee :: bool
  m_declaredIncomeCents :: cents
  m_invitedAt :: instant
  m_invitationExpiresAt :: instant
  m_joinedAt :: "instant option"
  m_leftAt :: "instant option"
  m_version :: int

record account_row =
  acct_id :: uuid
  acct_tenantId :: string
  acct_profileType :: profile_type
  acct_profileId :: uuid
  acct_type :: account_type
  acct_name :: string
  acct_balance :: cents
  acct_currency :: string

record plan_row =
  plan_id :: uuid
  plan_tenantId :: string
  plan_sharedProfileId :: uuid
  plan_version :: int
  plan_effectiveFromPeriodId :: "uuid option"
  plan_createdBy :: uuid

record allocation_row =
  alloc_id :: uuid
  alloc_tenantId :: string
  alloc_contributionPlanId :: uuid
  alloc_membershipId :: uuid
  alloc_percentageBp :: int
  alloc_version :: int

record period_row =
  per_id :: uuid
  per_tenantId :: string
  per_sharedProfileId :: uuid
  per_startDate :: instant
  per_endDate :: instant
  per_status :: period_status
  per_planVersionSnapshot :: int
  per_incomeSnapshot :: "(uuid \<times> string) list"

record record_row =
  rec_id :: uuid
  rec_tenantId :: string
  rec_sharedProfileId :: uuid
  rec_periodId :: uuid
  rec_membershipId :: uuid
  rec_amount :: cents
  rec_recordedAt :: instant
  rec_sourceAccountId :: "uuid option"

record goal_row =
  goal_id :: uuid
  goal_tenantId :: string
  goal_sharedProfileId :: uuid
  goal_name :: string
  goal_targetAmount :: cents
  goal_fundedAmount :: cents
  goal_status :: goal_status
  goal_version :: int

record debt_row =
  debt_id :: uuid
  debt_tenantId :: string
  debt_sharedProfileId :: uuid
  debt_kind :: shared_debt_kind
  debt_name :: string
  debt_outstandingBalance :: cents
  debt_version :: int

record responsibility_row =
  resp_id :: uuid
  resp_tenantId :: string
  resp_sharedDebtId :: uuid
  resp_membershipId :: uuid
  resp_percentageBp :: int
  resp_version :: int

record investment_row =
  inv_id :: uuid
  inv_tenantId :: string
  inv_sharedProfileId :: uuid
  inv_name :: string
  inv_currentValue :: cents
  inv_valueAsOf :: instant
  inv_version :: int

record budget_row =
  bud_id :: uuid
  bud_tenantId :: string
  bud_sharedProfileId :: uuid
  bud_category :: string
  bud_limit :: cents
  bud_spent :: cents
  bud_periodId :: uuid
  bud_version :: int

record audit_row =
  aud_id :: uuid
  aud_tenantId :: string
  aud_sharedProfileId :: "uuid option"
  aud_actorMembershipId :: "uuid option"
  aud_action :: string
  aud_beforeValue :: json
  aud_afterValue :: json
  aud_occurredAt :: instant

record outbox_row =
  ev_id :: uuid
  ev_tenantId :: string
  ev_aggregateType :: string
  ev_aggregateId :: uuid
  ev_eventType :: string
  ev_schemaVersion :: int
  ev_payload :: "(string \<times> json) list"
  ev_occurredAt :: instant
  ev_dispatchedAt :: "instant option"

subsection \<open>The database value\<close>

record db =
  uid :: "nat \<Rightarrow> uuid"
  uid_next :: nat
  clock :: instant
  users :: "user_row list"
  personalProfiles :: "personal_profile_row list"
  sharedProfiles :: "shared_profile_row list"
  memberships :: "membership_row list"
  accounts :: "account_row list"
  contributionPlans :: "plan_row list"
  contributionAllocations :: "allocation_row list"
  contributionPeriods :: "period_row list"
  contributionRecords :: "record_row list"
  sharedGoals :: "goal_row list"
  sharedDebts :: "debt_row list"
  debtResponsibilities :: "responsibility_row list"
  sharedInvestments :: "investment_row list"
  sharedBudgets :: "budget_row list"
  auditEntries :: "audit_row list"
  outboxEvents :: "outbox_row list"

text \<open>The identifier the next \<open>create\<close> uses, and the supply after it.\<close>

definition new_id :: "db \<Rightarrow> uuid" where
  "new_id g = uid g (uid_next g)"

definition used_id :: "db \<Rightarrow> db" where
  "used_id g = g\<lparr>uid_next := Suc (uid_next g)\<rparr>"

text \<open>The primary keys in use, and the assumption on the supply: it never repeats.\<close>

definition all_ids :: "db \<Rightarrow> uuid list" where
  "all_ids g = map u_id (users g)
     @ map pp_id (personalProfiles g)
     @ map sp_id (sharedProfiles g)
     @ map m_id (memberships g)
     @ map acct_id (accounts g)
     @ map plan_id (contributionPlans g)
     @ map alloc_id (contributionAllocations g)
     @ map per_id (contributionPeriods g)
     @ map rec_id (contributionRecords g)
     @ map goal_id (sharedGoals g)
     @ map debt_id (sharedDebts g)
     @ map resp_id (debtResponsibilities g)
     @ map inv_id (sharedInvestments g)
     @ map bud_id (sharedBudgets g)
     @ map aud_id (auditEntries g)
     @ map ev_id (outboxEvents g)"

definition fresh_ids :: "db \<Rightarrow> bool" where
  "fresh_ids g \<longleftrightarrow> inj (uid g) \<and> (\<forall>n \<ge> uid_next g. uid g n \<notin> set (all_ids g))"

named_theorems fresh_intros "operations that keep the identifier supply fresh"

lemma all_ids_used [simp]: "all_ids (used_id g) = all_ids g"
  by (simp add: all_ids_def used_id_def)

lemma used_id_fields: "uid (used_id g) = uid g" "uid_next (used_id g) = Suc (uid_next g)"
  by (simp_all add: used_id_def)

lemma fresh_insert:
  assumes "fresh_ids g" and "set (all_ids h) \<subseteq> insert (new_id g) (set (all_ids g))"
    and "uid h = uid g" and "uid_next h = uid_next g"
  shows "fresh_ids (used_id h)"
proof -
  have "uid h n \<noteq> new_id g" if "Suc (uid_next g) \<le> n" for n
    using that assms(1,3) by (auto simp: fresh_ids_def new_id_def dest: injD)
  moreover have "uid h n \<notin> set (all_ids g)" if "Suc (uid_next g) \<le> n" for n
    using that assms(1,3) by (simp add: fresh_ids_def)
  ultimately have "uid h n \<notin> set (all_ids h)" if "Suc (uid_next g) \<le> n" for n
    using that assms(2) by blast
  moreover have "inj (uid h)" using assms(1,3) by (simp add: fresh_ids_def)
  ultimately show ?thesis
    using assms(4) by (simp add: fresh_ids_def used_id_fields)
qed

lemma fresh_keep:
  assumes "fresh_ids g" and "set (all_ids h) \<subseteq> set (all_ids g)"
    and "uid h = uid g" and "uid_next h = uid_next g"
  shows "fresh_ids h"
  using assms unfolding fresh_ids_def by auto

text \<open>Replacing the rows of a table, and adding one row, as the set of primary keys sees it.\<close>

lemma all_ids_replace:
  "map u_id Xu = map u_id (users g) \<Longrightarrow> all_ids (g\<lparr>users := Xu\<rparr>) = all_ids g"
  "map pp_id Xpp = map pp_id (personalProfiles g) \<Longrightarrow> all_ids (g\<lparr>personalProfiles := Xpp\<rparr>) = all_ids g"
  "map sp_id Xsp = map sp_id (sharedProfiles g) \<Longrightarrow> all_ids (g\<lparr>sharedProfiles := Xsp\<rparr>) = all_ids g"
  "map m_id Xm = map m_id (memberships g) \<Longrightarrow> all_ids (g\<lparr>memberships := Xm\<rparr>) = all_ids g"
  "map acct_id Xacct = map acct_id (accounts g) \<Longrightarrow> all_ids (g\<lparr>accounts := Xacct\<rparr>) = all_ids g"
  "map plan_id Xplan = map plan_id (contributionPlans g) \<Longrightarrow> all_ids (g\<lparr>contributionPlans := Xplan\<rparr>) = all_ids g"
  "map alloc_id Xalloc = map alloc_id (contributionAllocations g) \<Longrightarrow> all_ids (g\<lparr>contributionAllocations := Xalloc\<rparr>) = all_ids g"
  "map per_id Xper = map per_id (contributionPeriods g) \<Longrightarrow> all_ids (g\<lparr>contributionPeriods := Xper\<rparr>) = all_ids g"
  "map rec_id Xrec = map rec_id (contributionRecords g) \<Longrightarrow> all_ids (g\<lparr>contributionRecords := Xrec\<rparr>) = all_ids g"
  "map goal_id Xgoal = map goal_id (sharedGoals g) \<Longrightarrow> all_ids (g\<lparr>sharedGoals := Xgoal\<rparr>) = all_ids g"
  "map debt_id Xdebt = map debt_id (sharedDebts g) \<Longrightarrow> all_ids (g\<lparr>sharedDebts := Xdebt\<rparr>) = all_ids g"
  "map resp_id Xresp = map resp_id (debtResponsibilities g) \<Longrightarrow> all_ids (g\<lparr>debtResponsibilities := Xresp\<rparr>) = all_ids g"
  "map inv_id Xinv = map inv_id (sharedInvestments g) \<Longrightarrow> all_ids (g\<lparr>sharedInvestments := Xinv\<rparr>) = all_ids g"
  "map bud_id Xbud = map bud_id (sharedBudgets g) \<Longrightarrow> all_ids (g\<lparr>sharedBudgets := Xbud\<rparr>) = all_ids g"
  "map aud_id Xaud = map aud_id (auditEntries g) \<Longrightarrow> all_ids (g\<lparr>auditEntries := Xaud\<rparr>) = all_ids g"
  "map ev_id Xev = map ev_id (outboxEvents g) \<Longrightarrow> all_ids (g\<lparr>outboxEvents := Xev\<rparr>) = all_ids g"
  by (simp_all add: all_ids_def)

lemma all_ids_add:
  "set (all_ids (g\<lparr>users := users g @ [ru]\<rparr>)) = insert (u_id ru) (set (all_ids g))"
  "set (all_ids (g\<lparr>personalProfiles := personalProfiles g @ [rpp]\<rparr>)) = insert (pp_id rpp) (set (all_ids g))"
  "set (all_ids (g\<lparr>sharedProfiles := sharedProfiles g @ [rsp]\<rparr>)) = insert (sp_id rsp) (set (all_ids g))"
  "set (all_ids (g\<lparr>memberships := memberships g @ [rm]\<rparr>)) = insert (m_id rm) (set (all_ids g))"
  "set (all_ids (g\<lparr>accounts := accounts g @ [racct]\<rparr>)) = insert (acct_id racct) (set (all_ids g))"
  "set (all_ids (g\<lparr>contributionPlans := contributionPlans g @ [rplan]\<rparr>)) = insert (plan_id rplan) (set (all_ids g))"
  "set (all_ids (g\<lparr>contributionAllocations := contributionAllocations g @ [ralloc]\<rparr>)) = insert (alloc_id ralloc) (set (all_ids g))"
  "set (all_ids (g\<lparr>contributionPeriods := contributionPeriods g @ [rper]\<rparr>)) = insert (per_id rper) (set (all_ids g))"
  "set (all_ids (g\<lparr>contributionRecords := contributionRecords g @ [rrec]\<rparr>)) = insert (rec_id rrec) (set (all_ids g))"
  "set (all_ids (g\<lparr>sharedGoals := sharedGoals g @ [rgoal]\<rparr>)) = insert (goal_id rgoal) (set (all_ids g))"
  "set (all_ids (g\<lparr>sharedDebts := sharedDebts g @ [rdebt]\<rparr>)) = insert (debt_id rdebt) (set (all_ids g))"
  "set (all_ids (g\<lparr>debtResponsibilities := debtResponsibilities g @ [rresp]\<rparr>)) = insert (resp_id rresp) (set (all_ids g))"
  "set (all_ids (g\<lparr>sharedInvestments := sharedInvestments g @ [rinv]\<rparr>)) = insert (inv_id rinv) (set (all_ids g))"
  "set (all_ids (g\<lparr>sharedBudgets := sharedBudgets g @ [rbud]\<rparr>)) = insert (bud_id rbud) (set (all_ids g))"
  "set (all_ids (g\<lparr>auditEntries := auditEntries g @ [raud]\<rparr>)) = insert (aud_id raud) (set (all_ids g))"
  "set (all_ids (g\<lparr>outboxEvents := outboxEvents g @ [rowev]\<rparr>)) = insert (ev_id rowev) (set (all_ids g))"
  by (simp_all add: all_ids_def)

lemma fresh_same:
  "fresh_ids g \<Longrightarrow> all_ids h = all_ids g \<Longrightarrow> uid h = uid g \<Longrightarrow> uid_next h = uid_next g \<Longrightarrow> fresh_ids h"
  by (simp add: fresh_ids_def)

lemma fresh_ids_new: "fresh_ids g \<Longrightarrow> new_id g \<notin> set (all_ids g)"
  by (simp add: fresh_ids_def new_id_def)

text \<open>The rows whose tenant satisfies a predicate, in every table.\<close>

definition project :: "(string \<Rightarrow> bool) \<Rightarrow> db \<Rightarrow> db" where
  "project P g = g\<lparr>
     users := filter (\<lambda>r. P (u_tenantId r)) (users g),
     personalProfiles := filter (\<lambda>r. P (pp_tenantId r)) (personalProfiles g),
     sharedProfiles := filter (\<lambda>r. P (sp_tenantId r)) (sharedProfiles g),
     memberships := filter (\<lambda>r. P (m_tenantId r)) (memberships g),
     accounts := filter (\<lambda>r. P (acct_tenantId r)) (accounts g),
     contributionPlans := filter (\<lambda>r. P (plan_tenantId r)) (contributionPlans g),
     contributionAllocations := filter (\<lambda>r. P (alloc_tenantId r)) (contributionAllocations g),
     contributionPeriods := filter (\<lambda>r. P (per_tenantId r)) (contributionPeriods g),
     contributionRecords := filter (\<lambda>r. P (rec_tenantId r)) (contributionRecords g),
     sharedGoals := filter (\<lambda>r. P (goal_tenantId r)) (sharedGoals g),
     sharedDebts := filter (\<lambda>r. P (debt_tenantId r)) (sharedDebts g),
     debtResponsibilities := filter (\<lambda>r. P (resp_tenantId r)) (debtResponsibilities g),
     sharedInvestments := filter (\<lambda>r. P (inv_tenantId r)) (sharedInvestments g),
     sharedBudgets := filter (\<lambda>r. P (bud_tenantId r)) (sharedBudgets g),
     auditEntries := filter (\<lambda>r. P (aud_tenantId r)) (auditEntries g),
     outboxEvents := filter (\<lambda>r. P (ev_tenantId r)) (outboxEvents g)\<rparr>"

text \<open>All rows of two databases; clock and supply are those of the second.\<close>

definition overlay :: "db \<Rightarrow> db \<Rightarrow> db" where
  "overlay a b = b\<lparr>
     users := users a @ users b,
     personalProfiles := personalProfiles a @ personalProfiles b,
     sharedProfiles := sharedProfiles a @ sharedProfiles b,
     memberships := memberships a @ memberships b,
     accounts := accounts a @ accounts b,
     contributionPlans := contributionPlans a @ contributionPlans b,
     contributionAllocations := contributionAllocations a @ contributionAllocations b,
     contributionPeriods := contributionPeriods a @ contributionPeriods b,
     contributionRecords := contributionRecords a @ contributionRecords b,
     sharedGoals := sharedGoals a @ sharedGoals b,
     sharedDebts := sharedDebts a @ sharedDebts b,
     debtResponsibilities := debtResponsibilities a @ debtResponsibilities b,
     sharedInvestments := sharedInvestments a @ sharedInvestments b,
     sharedBudgets := sharedBudgets a @ sharedBudgets b,
     auditEntries := auditEntries a @ auditEntries b,
     outboxEvents := outboxEvents a @ outboxEvents b\<rparr>"

definition all_rows :: "(string \<Rightarrow> bool) \<Rightarrow> db \<Rightarrow> bool" where
  "all_rows P g \<longleftrightarrow> list_all (\<lambda>r. P (u_tenantId r)) (users g)
     \<and> list_all (\<lambda>r. P (pp_tenantId r)) (personalProfiles g)
     \<and> list_all (\<lambda>r. P (sp_tenantId r)) (sharedProfiles g)
     \<and> list_all (\<lambda>r. P (m_tenantId r)) (memberships g)
     \<and> list_all (\<lambda>r. P (acct_tenantId r)) (accounts g)
     \<and> list_all (\<lambda>r. P (plan_tenantId r)) (contributionPlans g)
     \<and> list_all (\<lambda>r. P (alloc_tenantId r)) (contributionAllocations g)
     \<and> list_all (\<lambda>r. P (per_tenantId r)) (contributionPeriods g)
     \<and> list_all (\<lambda>r. P (rec_tenantId r)) (contributionRecords g)
     \<and> list_all (\<lambda>r. P (goal_tenantId r)) (sharedGoals g)
     \<and> list_all (\<lambda>r. P (debt_tenantId r)) (sharedDebts g)
     \<and> list_all (\<lambda>r. P (resp_tenantId r)) (debtResponsibilities g)
     \<and> list_all (\<lambda>r. P (inv_tenantId r)) (sharedInvestments g)
     \<and> list_all (\<lambda>r. P (bud_tenantId r)) (sharedBudgets g)
     \<and> list_all (\<lambda>r. P (aud_tenantId r)) (auditEntries g)
     \<and> list_all (\<lambda>r. P (ev_tenantId r)) (outboxEvents g)"

lemma all_rows_project [simp]: "all_rows P (project P g)"
  by (simp add: all_rows_def project_def list_all_iff)

lemma filter_id_list_all: "list_all P xs \<Longrightarrow> filter P xs = xs"
  by (simp add: list_all_iff)

lemma filter_none_list_all: "list_all (\<lambda>x. \<not> P x) xs \<Longrightarrow> filter P xs = []"
  by (simp add: list_all_iff filter_empty_conv)

lemma project_id: "all_rows P g \<Longrightarrow> project P g = g"
  by (cases g) (simp add: all_rows_def project_def filter_id_list_all)

lemma project_overlay_right:
  assumes "all_rows (\<lambda>t. \<not> P t) a" and "all_rows P b"
  shows "project P (overlay a b) = b"
proof -
  have "filter (\<lambda>r. P (f r)) xs = []" if "list_all (\<lambda>r. \<not> P (f r)) xs" for f :: "'r \<Rightarrow> string" and xs
    using that by (simp add: list_all_iff filter_empty_conv)
  with assms show ?thesis
    by (cases b) (simp add: all_rows_def project_def overlay_def filter_id_list_all filter_none_list_all)
qed

subsection \<open>Combinators of the use cases\<close>

text \<open>
  \<open>const r = ...; if (isErr(r)) return r;\<close> and the rest with \<open>r.value\<close>: the database
  is left as it is by the decision \<open>r\<close>.
\<close>

definition and_then :: "'a result \<Rightarrow> 's \<Rightarrow> ('a \<Rightarrow> 'b result \<times> 's) \<Rightarrow> 'b result \<times> 's" where
  "and_then r g k = (case r of Ok v \<Rightarrow> k v | Err e \<Rightarrow> (Err e, g) | Thrown x \<Rightarrow> (Thrown x, g))"

text \<open>The same for an awaited call that also changes the database.\<close>

definition then_do :: "'a result \<times> 's \<Rightarrow> ('a \<Rightarrow> 's \<Rightarrow> 'b result \<times> 's) \<Rightarrow> 'b result \<times> 's" where
  "then_do c k = (case c of (r, g) \<Rightarrow> and_then r g (\<lambda>v. k v g))"

text \<open>\<open>if (!row) return err(e)\<close>.\<close>

definition found_or :: "domain_error \<Rightarrow> 'a option \<Rightarrow> 'a result" where
  "found_or e x = (case x of None \<Rightarrow> Err e | Some v \<Rightarrow> Ok v)"

text \<open>The non-null assertion \<open>x!\<close> on a row that was just written; using a missing row throws.\<close>

definition asserted :: "'a option \<Rightarrow> 'a result" where
  "asserted x = (case x of None \<Rightarrow> Thrown TypeError | Some v \<Rightarrow> Ok v)"

lemma and_then_simps [simp]:
  "and_then (Ok v) g k = k v" "and_then (Err e) g k = (Err e, g)" "and_then (Thrown x) g k = (Thrown x, g)"
  by (simp_all add: and_then_def)

lemma then_do_simps [simp]:
  "then_do (Ok v, g) k = k v g" "then_do (Err e, g) k = (Err e, g)" "then_do (Thrown x, g) k = (Thrown x, g)"
  by (simp_all add: then_do_def)

lemma and_then_Ok: "and_then r g k = (Ok v, g') \<longleftrightarrow> (\<exists>a. r = Ok a \<and> k a = (Ok v, g'))"
  by (cases r) auto

lemma then_do_Ok: "then_do c k = (Ok v, g') \<longleftrightarrow> (\<exists>a h. c = (Ok a, h) \<and> k a h = (Ok v, g'))"
  by (cases c; cases "fst c") auto

lemma found_or_Ok: "found_or e x = Ok v \<longleftrightarrow> x = Some v"
  by (cases x) (auto simp: found_or_def)

lemma asserted_Ok: "asserted x = Ok v \<longleftrightarrow> x = Some v"
  by (cases x) (auto simp: asserted_def)

lemma guard_Ok: "(if c then (Err e, g) else k) = (Ok v, g') \<longleftrightarrow> \<not> c \<and> k = (Ok v, g')"
  by simp

lemmas use_case_Ok = and_then_Ok then_do_Ok found_or_Ok asserted_Ok guard_Ok

text \<open>
  A use case that fails before it writes: a result that is not \<open>Ok\<close> leaves the database
  as it was.
\<close>

definition rejects_cleanly :: "'s \<Rightarrow> 'a result \<times> 's \<Rightarrow> bool" where
  "rejects_cleanly g c \<longleftrightarrow> isErr (fst c) \<longrightarrow> snd c = g"

lemma rejects_and_then:
  "(\<And>v. r = Ok v \<Longrightarrow> rejects_cleanly g (k v)) \<Longrightarrow> rejects_cleanly g (and_then r g k)"
  by (cases r) (auto simp: rejects_cleanly_def)

lemma rejects_then_do:
  "(\<And>e h. c = (Err e, h) \<Longrightarrow> h = g) \<Longrightarrow> (\<And>v h. c = (Ok v, h) \<Longrightarrow> rejects_cleanly g (k v h)) \<Longrightarrow> rejects_cleanly g (then_do c k)"
  by (cases c; cases "fst c") (auto simp: rejects_cleanly_def)

lemma rejects_base:
  "rejects_cleanly g (Err e, g)" "rejects_cleanly g (Ok v, h)" "rejects_cleanly g (Thrown x, h)"
  "rejects_cleanly g (asserted a, h)"
  by (auto simp: rejects_cleanly_def asserted_def split: option.splits)

lemma rejects_if:
  "(c \<Longrightarrow> rejects_cleanly g a) \<Longrightarrow> (\<not> c \<Longrightarrow> rejects_cleanly g b) \<Longrightarrow> rejects_cleanly g (if c then a else b)"
  by simp

lemmas rejects_intros = rejects_and_then rejects_then_do rejects_base rejects_if

text \<open>
  What a transaction may commit: unless the outcome is thrown, which rolls back, the predicate
  holds of the final database. The rules follow the combinators.
\<close>

named_theorems commits_intros "rules for what a use case may commit"

definition commits :: "('s \<Rightarrow> bool) \<Rightarrow> 'a result \<times> 's \<Rightarrow> bool" where
  "commits P c \<longleftrightarrow> (\<forall>x. fst c \<noteq> Thrown x) \<longrightarrow> P (snd c)"

lemma commits_result [commits_intros]: "P h \<Longrightarrow> commits P (r, h)"
  by (simp add: commits_def)

lemma commits_thrown [commits_intros]: "commits P (Thrown x, h)"
  by (simp add: commits_def)

lemma commits_and_then [commits_intros]:
  "(\<And>x. r \<noteq> Thrown x \<Longrightarrow> P g) \<Longrightarrow> (\<And>v. r = Ok v \<Longrightarrow> commits P (k v)) \<Longrightarrow> commits P (and_then r g k)"
  by (cases r) (auto simp: commits_def)

lemma commits_then_do [commits_intros]:
  "(\<And>e h. c = (Err e, h) \<Longrightarrow> P h) \<Longrightarrow> (\<And>v h. c = (Ok v, h) \<Longrightarrow> commits P (k v h)) \<Longrightarrow> commits P (then_do c k)"
  by (cases c; cases "fst c") (auto simp: commits_def)

lemma commits_if [commits_intros]:
  "(b \<Longrightarrow> commits P c) \<Longrightarrow> (\<not> b \<Longrightarrow> commits P d) \<Longrightarrow> commits P (if b then c else d)"
  by simp

lemma commits_mono: "commits P c \<Longrightarrow> (\<And>h. P h \<Longrightarrow> Q h) \<Longrightarrow> commits Q c"
  by (auto simp: commits_def)

end
