(* ===== verification/Tenancy.thy ===== *)
theory Tenancy
  imports Store
begin

section \<open>Tenant-scoped transactions\<close>

text \<open>
  \<open>src/apps/api/src/modules/tenancy\<close> over the row-level-security policies of
  \<open>prisma/migrations/20260605000002_rls\<close>: a transaction sees and writes only the rows whose
  \<open>tenantId\<close> is the setting \<open>app.tenant_id\<close>; without the setting it sees none. A
  thrown value rolls the transaction back, a returned failure commits it.
\<close>

record tenant_principal =
  pr_tenantId :: string
  pr_userId :: uuid
  pr_authSubject :: string

text \<open>\<open>TenantContext\<close>: the principal of the request, if there is one.\<close>

definition requireTenantId :: "tenant_principal option \<Rightarrow> string result" where
  "requireTenantId ctx = (case ctx of None \<Rightarrow> Thrown GenericError | Some p \<Rightarrow> Ok (pr_tenantId p))"

text \<open>What a connection sees, by its setting.\<close>

definition rls_view :: "string option \<Rightarrow> db \<Rightarrow> db" where
  "rls_view setting g = project (\<lambda>t. setting = Some t) g"

text \<open>
  The unique indices of PostgreSQL are checked against every row, the rows of other tenants included, which
  the session cannot see. All unique columns of the schema but one contain a generated identifier of a row
  of the same tenant, so that rows of two tenants cannot collide there; the one is
  \<open>PersonalProfile.userId\<close>. A transaction that inserts personal profiles has the users whose profile another
  tenant holds as an argument. Foreign keys are not checked in the model: an insertion the server never
  looks up a row for (the user of an invitation, the memberships of a responsibility split) is taken to
  satisfy them.
\<close>

definition held_elsewhere :: "string \<Rightarrow> db \<Rightarrow> uuid \<Rightarrow> bool" where
  "held_elsewhere tenantId g userId \<longleftrightarrow>
     list_ex (\<lambda>r. pp_tenantId r \<noteq> tenantId \<and> pp_userId r = userId) (personalProfiles g)"

text \<open>
  \<open>withTenant\<close>. The empty identifier is refused before any query. A row written for another
  tenant violates the policy's \<open>WITH CHECK\<close>, which throws.
\<close>

definition withTenant :: "string \<Rightarrow> (db \<Rightarrow> 'a result \<times> db) \<Rightarrow> db \<Rightarrow> 'a result \<times> db" where
  "withTenant tenantId f g =
     (if tenantId = [] then (Thrown GenericError, g)
      else case f (rls_view (Some tenantId) g) of
        (Thrown x, _) \<Rightarrow> (Thrown x, g)
      | (Ok v, h) \<Rightarrow>
          if all_rows (\<lambda>t. t = tenantId) h then (Ok v, overlay (project (\<lambda>t. t \<noteq> tenantId) g) h)
          else (Thrown GenericError, g)
      | (Err e, h) \<Rightarrow>
          if all_rows (\<lambda>t. t = tenantId) h then (Err e, overlay (project (\<lambda>t. t \<noteq> tenantId) g) h)
          else (Thrown GenericError, g))"

definition withCurrentTenant ::
    "tenant_principal option \<Rightarrow> (db \<Rightarrow> 'a result \<times> db) \<Rightarrow> db \<Rightarrow> 'a result \<times> db" where
  "withCurrentTenant ctx f g = (case requireTenantId ctx of
      Ok t \<Rightarrow> withTenant t f g | Err e \<Rightarrow> (Err e, g) | Thrown x \<Rightarrow> (Thrown x, g))"

text \<open>A database up to what a tenant can see, and up to what it cannot.\<close>

definition tenant_view :: "string \<Rightarrow> db \<Rightarrow> db" where
  "tenant_view t g = rls_view (Some t) g"

lemma tenant_view_eq: "tenant_view t g = project (\<lambda>u. u = t) g"
  by (simp add: tenant_view_def rls_view_def eq_commute)

lemma tenant_rows_view: "all_rows (\<lambda>u. u = t) (tenant_view t g)"
  by (simp add: tenant_view_eq)

text \<open>Every way a scoped transaction can end.\<close>

lemma withTenant_cases:
  assumes "withTenant t f g = (r, g')"
  obtains (refused) "t = []" "r = Thrown GenericError" "g' = g"
  | (rolled_back) x where "r = Thrown x" "g' = g"
  | (committed) h where "t \<noteq> []" "f (tenant_view t g) = (r, h)" "isOk r \<or> isErr r"
      "all_rows (\<lambda>u. u = t) h" "g' = overlay (project (\<lambda>u. u \<noteq> t) g) h"
proof -
  obtain q h where f: "f (tenant_view t g) = (q, h)" by fastforce
  show thesis
  proof (cases "t = []")
    case True
    then show thesis using assms refused by (simp add: withTenant_def)
  next
    case False
    then show thesis
      using assms f rolled_back committed
      by (cases q) (auto simp: withTenant_def tenant_view_def split: if_splits)
  qed
qed

lemma withTenant_Ok:
  assumes "withTenant t f g = (Ok v, g')"
  shows "f (tenant_view t g) = (Ok v, tenant_view t g')"
    and "g' = overlay (project (\<lambda>u. u \<noteq> t) g) (tenant_view t g')"
proof -
  from assms obtain h where h: "f (tenant_view t g) = (Ok v, h)" "all_rows (\<lambda>u. u = t) h"
    "g' = overlay (project (\<lambda>u. u \<noteq> t) g) h"
    by (cases rule: withTenant_cases) auto
  have "all_rows (\<lambda>u. \<not> u = t) (project (\<lambda>u. u \<noteq> t) g)" by simp
  with h have "tenant_view t g' = h"
    by (simp add: tenant_view_eq project_overlay_right)
  with h show "f (tenant_view t g) = (Ok v, tenant_view t g')"
    and "g' = overlay (project (\<lambda>u. u \<noteq> t) g) (tenant_view t g')"
    by simp_all
qed

text \<open>The view of a tenant after a committed transaction is the database its function returned.\<close>

lemma view_after:
  assumes "withTenant t f g = (r, g')" and "isOk r \<or> isErr r"
  shows "f (tenant_view t g) = (r, tenant_view t g')"
  using assms(1)
proof (cases rule: withTenant_cases)
  case (committed h)
  have "all_rows (\<lambda>u. \<not> u = t) (project (\<lambda>u. u \<noteq> t) g)" by simp
  with committed show ?thesis by (simp add: tenant_view_eq project_overlay_right)
qed (use assms(2) in auto)

text \<open>An invariant of a view that the function keeps is kept by the transaction.\<close>

lemma withTenant_commits:
  assumes "withTenant t f g = (r, g')" and "P (tenant_view t g)" and "commits P (f (tenant_view t g))"
  shows "P (tenant_view t g')"
  using assms(1)
proof (cases rule: withTenant_cases)
  case (committed h)
  then have "P h" using assms(3) by (cases r) (simp_all add: commits_def)
  with committed show ?thesis using view_after [OF assms(1)] by (metis prod.inject)
qed (use assms(2) in simp_all)

lemma project_project [simp]: "project P (project Q g) = project (\<lambda>t. Q t \<and> P t) g"
  by (simp add: project_def conj_commute)

lemma overlay_fields [simp]:
  "clock (overlay a b) = clock b" "uid (overlay a b) = uid b" "uid_next (overlay a b) = uid_next b"
  by (simp_all add: overlay_def)

lemma project_fields [simp]:
  "clock (project P g) = clock g" "uid (project P g) = uid g" "uid_next (project P g) = uid_next g"
  by (simp_all add: project_def)

text \<open>The tables of another tenant, compared without the clock and the identifier supply.\<close>

definition same_tables :: "db \<Rightarrow> db \<Rightarrow> bool" where
  "same_tables a b \<longleftrightarrow> a\<lparr>uid := uid b, uid_next := uid_next b, clock := clock b\<rparr> = b"

lemma same_tables_refl [simp]: "same_tables a a"
  by (cases a) (simp add: same_tables_def)

lemma filter_foreign: "u \<noteq> t \<Longrightarrow> list_all (\<lambda>r. f r = t) xs \<Longrightarrow> filter (\<lambda>r. f r = u) xs = []"
  by (auto simp: list_all_iff filter_empty_conv)

lemma filter_not_other: "u \<noteq> t \<Longrightarrow> filter (\<lambda>r. f r \<noteq> t \<and> f r = u) xs = filter (\<lambda>r. f r = u) xs"
  by (intro filter_cong) auto

lemma same_tables_overlay:
  assumes "u \<noteq> t" and "all_rows (\<lambda>v. v = t) h"
  shows "same_tables (tenant_view u g) (tenant_view u (overlay (project (\<lambda>v. v \<noteq> t) g) h))"
  using assms(2)
  by (cases h; cases g)
    (simp add: same_tables_def tenant_view_eq overlay_def project_def all_rows_def
      filter_foreign [OF assms(1)] filter_not_other [OF assms(1)])

lemma withTenant_other:
  assumes "withTenant t f g = (r, g')" and "u \<noteq> t"
  shows "same_tables (tenant_view u g) (tenant_view u g')"
  using assms(1)
proof (cases rule: withTenant_cases)
  case (committed h)
  then show ?thesis using same_tables_overlay [OF assms(2)] by simp
qed simp_all

lemma view_fields [simp]:
  "clock (tenant_view t g) = clock g" "uid (tenant_view t g) = uid g" "uid_next (tenant_view t g) = uid_next g"
  by (simp_all add: tenant_view_eq)

lemma all_ids_project: "set (all_ids (project P g)) \<subseteq> set (all_ids g)"
  unfolding all_ids_def project_def set_append
  by (intro Un_mono) auto

lemma fresh_view: "fresh_ids g \<Longrightarrow> fresh_ids (tenant_view t g)"
  using all_ids_project [of _ g] by (auto simp: fresh_ids_def tenant_view_eq)

lemma fresh_same_tables:
  assumes "fresh_ids a" and "same_tables a b" and "uid b = uid a" and "uid_next a \<le> uid_next b"
  shows "fresh_ids b"
proof -
  have "all_ids b = all_ids (a\<lparr>uid := uid b, uid_next := uid_next b, clock := clock b\<rparr>)"
    using assms(2) by (simp add: same_tables_def)
  then have "all_ids b = all_ids a" by (simp add: all_ids_def)
  with assms(1,3,4) show ?thesis by (auto simp: fresh_ids_def)
qed

lemma same_tables_memberships:
  assumes "same_tables a b"
  shows "memberships b = memberships a" and "sharedProfiles b = sharedProfiles a"
proof -
  have b: "b = a\<lparr>uid := uid b, uid_next := uid_next b, clock := clock b\<rparr>"
    using assms by (simp add: same_tables_def)
  show "memberships b = memberships a" by (subst b) simp
  show "sharedProfiles b = sharedProfiles a" by (subst b) simp
qed

subsection \<open>Properties\<close>

text \<open>
  C14: tenant isolation. Whatever the unit of work does, a scoped transaction leaves every table of
  every other tenant as it was. It either throws, and then nothing at all has changed (a unit of work that
  leaves a row under another tenant always ends so), or the answer and the tenant's own tables are
  exactly what the unit of work makes of the tenant's rows alone. What the checks of unique indices and
  foreign keys see of other tenants' rows is not the unit of work's: it enters as an argument of it
  (\<open>held_elsewhere\<close>).
\<close>

theorem tenant_isolation:
  assumes "withTenant t f g = (r, g')"
  shows "(\<forall>u. u \<noteq> t \<longrightarrow> same_tables (tenant_view u g) (tenant_view u g'))
    \<and> (if isOk r \<or> isErr r then t \<noteq> [] \<and> f (tenant_view t g) = (r, tenant_view t g') else g' = g)
    \<and> (\<not> all_rows (\<lambda>v. v = t) (snd (f (tenant_view t g))) \<longrightarrow> \<not> isOk r \<and> \<not> isErr r)"
proof (intro conjI)
  show "\<forall>u. u \<noteq> t \<longrightarrow> same_tables (tenant_view u g) (tenant_view u g')"
    using withTenant_other [OF assms] by blast
  show "if isOk r \<or> isErr r then t \<noteq> [] \<and> f (tenant_view t g) = (r, tenant_view t g') else g' = g"
    using assms
  proof (cases rule: withTenant_cases)
    case (committed h)
    then show ?thesis using view_after [OF assms] by auto
  qed simp_all
  show "\<not> all_rows (\<lambda>v. v = t) (snd (f (tenant_view t g))) \<longrightarrow> \<not> isOk r \<and> \<not> isErr r"
    using assms by (cases rule: withTenant_cases) auto
qed

definition demo_user :: "string \<Rightarrow> user_row" where
  "demo_user t = \<lparr>u_id = ''u'', u_tenantId = t, u_authSubject = ''s'', u_displayName = ''n''\<rparr>"

definition no_rows :: db where
  "no_rows = \<lparr>uid = (\<lambda>n. show_nat n), uid_next = 0, clock = 0, users = [], personalProfiles = [],
     sharedProfiles = [], memberships = [], accounts = [], contributionPlans = [],
     contributionAllocations = [], contributionPeriods = [], contributionRecords = [],
     sharedGoals = [], sharedDebts = [], debtResponsibilities = [], sharedInvestments = [],
     sharedBudgets = [], auditEntries = [], outboxEvents = []\<rparr>"

definition delete_users :: "db \<Rightarrow> unit result \<times> db" where
  "delete_users g = (Ok (), g\<lparr>users := []\<rparr>)"

lemma demo_delete: "withTenant ''t'' delete_users (no_rows\<lparr>users := [demo_user ''t'', demo_user ''v'']\<rparr>)
    = (Ok (), no_rows\<lparr>users := [demo_user ''v'']\<rparr>)"
  by (simp add: withTenant_def rls_view_def delete_users_def no_rows_def project_def overlay_def
      all_rows_def demo_user_def)

theorem tenant_isolation_witness:
  "same_tables (tenant_view ''v'' (no_rows\<lparr>users := [demo_user ''t'', demo_user ''v'']\<rparr>))
     (tenant_view ''v'' (no_rows\<lparr>users := [demo_user ''v'']\<rparr>))
   \<and> delete_users (tenant_view ''t'' (no_rows\<lparr>users := [demo_user ''t'', demo_user ''v'']\<rparr>))
     = (Ok (), tenant_view ''t'' (no_rows\<lparr>users := [demo_user ''v'']\<rparr>))"
  using tenant_isolation [OF demo_delete] by simp

text \<open>
  Default deny. Without the tenant setting a connection sees no row of any table, a call without
  a request context throws before any query, and so does the empty tenant identifier.
\<close>

lemma default_deny:
  "all_ids (rls_view None g) = [] \<and> withCurrentTenant None f g = (Thrown GenericError, g)
   \<and> withTenant [] f g = (Thrown GenericError, g)"
  by (simp add: rls_view_def project_def all_ids_def withCurrentTenant_def requireTenantId_def withTenant_def)

end
