(* ===== verification/Versioned.thy ===== *)
theory Versioned
  imports Tenancy
begin

section \<open>Optimistic concurrency\<close>

text \<open>
  \<open>src/apps/api/src/common/persistence/versioned-repository.ts\<close>: a guarded update that
  increments a version, and the mapping of \<open>no row affected\<close> to CONFLICT. The locale
  \<open>versioned_rows\<close> is the interface a table with a version column offers; its lemmas (who
  wins when two writers read the same version) hold for every such table of the schema.
\<close>

text \<open>
  \<open>prismaVersionedUpdate\<close>: the rows that satisfy \<open>where\<close> and carry the expected
  version get the data and the next version; the count of affected rows is returned.
\<close>

definition prismaVersionedUpdate :: "('r \<Rightarrow> int) \<Rightarrow> (int \<Rightarrow> 'r \<Rightarrow> 'r) \<Rightarrow> ('r \<Rightarrow> bool) \<Rightarrow> ('r \<Rightarrow> 'r)
    \<Rightarrow> int \<Rightarrow> 'r list \<Rightarrow> nat \<times> 'r list" where
  "prismaVersionedUpdate ver set_ver wh data expectedVersion rows =
     (let hit = (\<lambda>r. wh r \<and> ver r = expectedVersion)
      in (count_where hit rows, update_where hit (\<lambda>r. set_ver (ver r + 1) (data r)) rows))"

definition updateWithOptimisticLock :: "int \<Rightarrow> (int \<Rightarrow> 's \<Rightarrow> nat \<times> 's) \<Rightarrow> ('s \<Rightarrow> 'a option)
    \<Rightarrow> domain_error option \<Rightarrow> 's \<Rightarrow> 'a option result \<times> 's" where
  "updateWithOptimisticLock expectedVersion conditionalUpdate reload onConflict s =
     (case conditionalUpdate expectedVersion s of
        (affected, s') \<Rightarrow>
          if affected = 0
          then (Err (case onConflict of Some e \<Rightarrow> e
                   | None \<Rightarrow> conflict (Some [(''expectedVersion'', JNum expectedVersion)])), s')
          else (Ok (reload s'), s'))"

subsection \<open>The interface of a versioned table\<close>

locale versioned_rows =
  fixes key :: "'r \<Rightarrow> uuid"
    and ver :: "'r \<Rightarrow> int"
    and set_ver :: "int \<Rightarrow> 'r \<Rightarrow> 'r"
  assumes ver_set [simp]: "ver (set_ver n r) = n"
    and key_set [simp]: "key (set_ver n r) = key r"
begin

definition lock_update :: "uuid \<Rightarrow> ('r \<Rightarrow> 'r) \<Rightarrow> int \<Rightarrow> 'r list \<Rightarrow> nat \<times> 'r list" where
  "lock_update i data = prismaVersionedUpdate ver set_ver (\<lambda>r. key r = i) data"

definition bumped_row :: "('r \<Rightarrow> 'r) \<Rightarrow> 'r \<Rightarrow> 'r" where
  "bumped_row data r = set_ver (ver r + 1) (data r)"

lemma lock_update_current:
  assumes "distinct (map key rows)" and "r \<in> set rows"
  shows "lock_update (key r) data (ver r) rows
       = (1, update_where (\<lambda>q. key q = key r) (bumped_row data) rows)"
proof -
  have only: "key q = key r \<and> ver q = ver r \<longleftrightarrow> key q = key r" if "q \<in> set rows" for q
    using that assms distinct_key_eq by metis
  have one: "length (filter (\<lambda>q. key q = key r) rows) = 1"
    using assms
  proof (induction rows)
    case (Cons x xs)
    show ?case
    proof (cases "x = r")
      case True
      with Cons.prems have "filter (\<lambda>q. key q = key r) xs = []"
        by (auto simp: filter_empty_conv rev_image_eqI)
      with True show ?thesis by simp
    next
      case False
      with Cons show ?thesis by (auto simp: rev_image_eqI)
    qed
  qed simp
  have "filter (\<lambda>q. key q = key r \<and> ver q = ver r) rows = filter (\<lambda>q. key q = key r) rows"
    by (intro filter_cong refl only)
  moreover have "update_where (\<lambda>q. key q = key r \<and> ver q = ver r) f rows
      = update_where (\<lambda>q. key q = key r) f rows" for f
    using only by (simp add: update_where_def)
  ultimately show ?thesis
    using one by (simp add: lock_update_def prismaVersionedUpdate_def count_where_def bumped_row_def [abs_def])
qed

lemma lock_update_stale:
  assumes "\<And>q. q \<in> set rows \<Longrightarrow> key q = i \<Longrightarrow> ver q \<noteq> e"
  shows "lock_update i data e rows = (0, rows)"
proof -
  have "filter (\<lambda>q. key q = i \<and> ver q = e) rows = []" using assms by (auto simp: filter_empty_conv)
  moreover have "update_where (\<lambda>q. key q = i \<and> ver q = e) f rows = rows" for f
    using assms by (auto intro: update_where_none)
  ultimately show ?thesis by (simp add: lock_update_def prismaVersionedUpdate_def count_where_def)
qed

lemma lock_update_outcome:
  assumes "distinct (map key rows)"
  shows "(\<exists>r \<in> set rows. key r = i \<and> ver r = e
      \<and> lock_update i data e rows = (1, update_where (\<lambda>q. key q = i) (bumped_row data) rows))
    \<or> ((\<forall>r \<in> set rows. key r = i \<longrightarrow> ver r \<noteq> e) \<and> lock_update i data e rows = (0, rows))"
proof (cases "\<exists>r \<in> set rows. key r = i \<and> ver r = e")
  case True
  then obtain r where r: "r \<in> set rows" "key r = i" "ver r = e" by auto
  from lock_update_current [OF assms r(1), of data] r show ?thesis
    by (intro disjI1 bexI [of _ r]) simp_all
next
  case False
  then have "lock_update i data e rows = (0, rows)" by (intro lock_update_stale) auto
  with False show ?thesis by simp
qed

text \<open>Of two writers that read the same version, the second is refused and loses nothing.\<close>

lemma second_writer_refused:
  assumes "distinct (map key rows)" and "\<And>r. key (data r) = key r"
    and "lock_update i data e rows = (n, rows')" and "n \<noteq> 0"
  shows "lock_update i data' e rows' = (0, rows')"
proof (rule lock_update_stale)
  from lock_update_outcome [OF assms(1), of i e data] assms(3,4)
  obtain r where r: "r \<in> set rows" "key r = i" "ver r = e"
    and rows': "rows' = update_where (\<lambda>q. key q = i) (bumped_row data) rows" by auto
  fix q
  assume "q \<in> set rows'" and "key q = i"
  then obtain p where p: "p \<in> set rows" "q = (if key p = i then bumped_row data p else p)"
    by (auto simp: rows' set_update_where)
  with \<open>key q = i\<close> assms(2) have "key p = i" by (auto simp: bumped_row_def split: if_splits)
  with p r assms(1) have "p = r" using distinct_key_eq by metis
  with p r \<open>key p = i\<close> show "ver q \<noteq> e" by (simp add: bumped_row_def)
qed

lemma keys_kept:
  assumes "\<And>r. key (data r) = key r"
  shows "map key (snd (lock_update i data e rows)) = map key rows"
  using assms by (simp add: lock_update_def prismaVersionedUpdate_def Let_def map_update_where)

end

subsection \<open>The versioned tables of the schema\<close>

interpretation membership_lock: versioned_rows m_id m_version "\<lambda>n r. r\<lparr>m_version := n\<rparr>"
  by unfold_locales simp_all

interpretation goal_lock: versioned_rows goal_id goal_version "\<lambda>n r. r\<lparr>goal_version := n\<rparr>"
  by unfold_locales simp_all

interpretation debt_lock: versioned_rows debt_id debt_version "\<lambda>n r. r\<lparr>debt_version := n\<rparr>"
  by unfold_locales simp_all

interpretation investment_lock: versioned_rows inv_id inv_version "\<lambda>n r. r\<lparr>inv_version := n\<rparr>"
  by unfold_locales simp_all

interpretation budget_lock: versioned_rows bud_id bud_version "\<lambda>n r. r\<lparr>bud_version := n\<rparr>"
  by unfold_locales simp_all

end
