(* ===== verification/Outbox.thy ===== *)
theory Outbox
  imports Versioned
begin

section \<open>Domain events and audit entries\<close>

text \<open>
  \<open>src/apps/api/src/modules/events/event-envelope.ts\<close>, \<open>outbox/outbox.writer.ts\<close>
  and \<open>modules/permissions/audit/audit.writer.ts\<close>: what every use case appends, in the
  transaction of its state change, to the outbox and to the audit log.
\<close>

definition EventType :: "string list" where
  "EventType = [''SharedProfileCreated'', ''MemberInvited'', ''InvitationAccepted'', ''InvitationDeclined'',
     ''InvitationExpired'', ''DeclaredIncomeSet'', ''ProfileArchived'', ''MemberRoleChanged'', ''MemberLeft'',
     ''OwnerNominated'', ''OwnershipTransferred'', ''AllocationSet'', ''PercentageRedistributed'',
     ''ContributionRecorded'', ''GoalFunded'', ''SharedDebtPaid'', ''DebtResponsibilitySet'',
     ''ContributionPeriodOpened'', ''ContributionPeriodClosed'']"

definition DEFAULT_SCHEMA_VERSION :: int where
  "DEFAULT_SCHEMA_VERSION = 1"

record new_domain_event =
  ne_eventType :: string
  ne_aggregateType :: string
  ne_aggregateId :: uuid
  ne_schemaVersion :: "int option"
  ne_actorMembershipId :: "uuid option"
  ne_payload :: "(string \<times> json) list"

text \<open>The writer folds the actor into the stored payload.\<close>

definition outbox_row_of :: "uuid \<Rightarrow> instant \<Rightarrow> string \<Rightarrow> new_domain_event \<Rightarrow> outbox_row" where
  "outbox_row_of i now tenantId e =
     \<lparr>ev_id = i, ev_tenantId = tenantId, ev_aggregateType = ne_aggregateType e,
      ev_aggregateId = ne_aggregateId e, ev_eventType = ne_eventType e,
      ev_schemaVersion = (case ne_schemaVersion e of None \<Rightarrow> DEFAULT_SCHEMA_VERSION | Some v \<Rightarrow> v),
      ev_payload = with_field (ne_payload e) ''actorMembershipId'' (jstr_or_null (ne_actorMembershipId e)),
      ev_occurredAt = now, ev_dispatchedAt = None\<rparr>"

definition outbox_write :: "string \<Rightarrow> new_domain_event \<Rightarrow> db \<Rightarrow> db" where
  "outbox_write tenantId e g =
     used_id (g\<lparr>outboxEvents := outboxEvents g @ [outbox_row_of (new_id g) (clock g) tenantId e]\<rparr>)"

fun outbox_writeAll :: "string \<Rightarrow> new_domain_event list \<Rightarrow> db \<Rightarrow> db" where
  "outbox_writeAll tenantId [] g = g"
| "outbox_writeAll tenantId (e # es) g = outbox_writeAll tenantId es (outbox_write tenantId e g)"

text \<open>The services' \<open>emit\<close>: an event with an actor and the default schema version.\<close>

definition emit :: "string \<Rightarrow> string \<Rightarrow> string \<Rightarrow> uuid \<Rightarrow> uuid option \<Rightarrow> (string \<times> json) list \<Rightarrow> db \<Rightarrow> db" where
  "emit tenantId eventType aggregateType aggregateId actorMembershipId payload g =
     outbox_write tenantId \<lparr>ne_eventType = eventType, ne_aggregateType = aggregateType,
       ne_aggregateId = aggregateId, ne_schemaVersion = None,
       ne_actorMembershipId = actorMembershipId, ne_payload = payload\<rparr> g"

record audit_record =
  ar_sharedProfileId :: "uuid option"
  ar_actorMembershipId :: "uuid option"
  ar_action :: string
  ar_beforeValue :: "json option"
  ar_afterValue :: "json option"

definition toJson :: "json option \<Rightarrow> json" where
  "toJson v = (case v of None \<Rightarrow> JNull | Some j \<Rightarrow> j)"

definition audit_write :: "string \<Rightarrow> audit_record \<Rightarrow> db \<Rightarrow> db" where
  "audit_write tenantId r g =
     used_id (g\<lparr>auditEntries := auditEntries g @
       [\<lparr>aud_id = new_id g, aud_tenantId = tenantId, aud_sharedProfileId = ar_sharedProfileId r,
         aud_actorMembershipId = ar_actorMembershipId r, aud_action = ar_action r,
         aud_beforeValue = toJson (ar_beforeValue r), aud_afterValue = toJson (ar_afterValue r),
         aud_occurredAt = clock g\<rparr>]\<rparr>)"

subsection \<open>Frames\<close>

text \<open>The writers append to their table and use one identifier; nothing else changes.\<close>

lemma used_id_frame [simp]:
  "users (used_id g) = users g"
  "personalProfiles (used_id g) = personalProfiles g"
  "sharedProfiles (used_id g) = sharedProfiles g"
  "memberships (used_id g) = memberships g"
  "accounts (used_id g) = accounts g"
  "contributionPlans (used_id g) = contributionPlans g"
  "contributionAllocations (used_id g) = contributionAllocations g"
  "contributionPeriods (used_id g) = contributionPeriods g"
  "contributionRecords (used_id g) = contributionRecords g"
  "sharedGoals (used_id g) = sharedGoals g"
  "sharedDebts (used_id g) = sharedDebts g"
  "debtResponsibilities (used_id g) = debtResponsibilities g"
  "sharedInvestments (used_id g) = sharedInvestments g"
  "sharedBudgets (used_id g) = sharedBudgets g"
  "auditEntries (used_id g) = auditEntries g"
  "outboxEvents (used_id g) = outboxEvents g"
  "clock (used_id g) = clock g"
  "uid (used_id g) = uid g"
  by (simp_all add: used_id_def)

lemma outbox_write_frame [simp]:
  "users (outbox_write t e g) = users g"
  "personalProfiles (outbox_write t e g) = personalProfiles g"
  "sharedProfiles (outbox_write t e g) = sharedProfiles g"
  "memberships (outbox_write t e g) = memberships g"
  "accounts (outbox_write t e g) = accounts g"
  "contributionPlans (outbox_write t e g) = contributionPlans g"
  "contributionAllocations (outbox_write t e g) = contributionAllocations g"
  "contributionPeriods (outbox_write t e g) = contributionPeriods g"
  "contributionRecords (outbox_write t e g) = contributionRecords g"
  "sharedGoals (outbox_write t e g) = sharedGoals g"
  "sharedDebts (outbox_write t e g) = sharedDebts g"
  "debtResponsibilities (outbox_write t e g) = debtResponsibilities g"
  "sharedInvestments (outbox_write t e g) = sharedInvestments g"
  "sharedBudgets (outbox_write t e g) = sharedBudgets g"
  "auditEntries (outbox_write t e g) = auditEntries g"
  "clock (outbox_write t e g) = clock g"
  "uid (outbox_write t e g) = uid g"
  by (simp_all add: outbox_write_def used_id_def)

lemma emit_frame [simp]:
  "users (emit t et at ai ac pl g) = users g"
  "personalProfiles (emit t et at ai ac pl g) = personalProfiles g"
  "sharedProfiles (emit t et at ai ac pl g) = sharedProfiles g"
  "memberships (emit t et at ai ac pl g) = memberships g"
  "accounts (emit t et at ai ac pl g) = accounts g"
  "contributionPlans (emit t et at ai ac pl g) = contributionPlans g"
  "contributionAllocations (emit t et at ai ac pl g) = contributionAllocations g"
  "contributionPeriods (emit t et at ai ac pl g) = contributionPeriods g"
  "contributionRecords (emit t et at ai ac pl g) = contributionRecords g"
  "sharedGoals (emit t et at ai ac pl g) = sharedGoals g"
  "sharedDebts (emit t et at ai ac pl g) = sharedDebts g"
  "debtResponsibilities (emit t et at ai ac pl g) = debtResponsibilities g"
  "sharedInvestments (emit t et at ai ac pl g) = sharedInvestments g"
  "sharedBudgets (emit t et at ai ac pl g) = sharedBudgets g"
  "auditEntries (emit t et at ai ac pl g) = auditEntries g"
  "clock (emit t et at ai ac pl g) = clock g"
  "uid (emit t et at ai ac pl g) = uid g"
  by (simp_all add: emit_def)

lemma audit_write_frame [simp]:
  "users (audit_write t r g) = users g"
  "personalProfiles (audit_write t r g) = personalProfiles g"
  "sharedProfiles (audit_write t r g) = sharedProfiles g"
  "memberships (audit_write t r g) = memberships g"
  "accounts (audit_write t r g) = accounts g"
  "contributionPlans (audit_write t r g) = contributionPlans g"
  "contributionAllocations (audit_write t r g) = contributionAllocations g"
  "contributionPeriods (audit_write t r g) = contributionPeriods g"
  "contributionRecords (audit_write t r g) = contributionRecords g"
  "sharedGoals (audit_write t r g) = sharedGoals g"
  "sharedDebts (audit_write t r g) = sharedDebts g"
  "debtResponsibilities (audit_write t r g) = debtResponsibilities g"
  "sharedInvestments (audit_write t r g) = sharedInvestments g"
  "sharedBudgets (audit_write t r g) = sharedBudgets g"
  "outboxEvents (audit_write t r g) = outboxEvents g"
  "clock (audit_write t r g) = clock g"
  "uid (audit_write t r g) = uid g"
  by (simp_all add: audit_write_def used_id_def)

lemma uid_next_writers [simp]:
  "uid_next (used_id g) = Suc (uid_next g)"
  "uid_next (outbox_write t e g) = Suc (uid_next g)"
  "uid_next (emit t et at ai ac pl g) = Suc (uid_next g)"
  "uid_next (audit_write t r g) = Suc (uid_next g)"
  by (simp_all add: used_id_def outbox_write_def emit_def audit_write_def)

lemma outboxEvents_emit [simp]:
  "outboxEvents (emit t et at ai ac pl g) = outboxEvents g @
     [outbox_row_of (new_id g) (clock g) t \<lparr>ne_eventType = et, ne_aggregateType = at, ne_aggregateId = ai,
        ne_schemaVersion = None, ne_actorMembershipId = ac, ne_payload = pl\<rparr>]"
  by (simp add: emit_def outbox_write_def used_id_def)

subsection \<open>The identifier supply\<close>

lemma fresh_emit [fresh_intros]: "fresh_ids g \<Longrightarrow> fresh_ids (emit t et at ai ac pl g)"
  unfolding emit_def outbox_write_def
  by (erule fresh_insert) (simp_all add: all_ids_add outbox_row_of_def)

lemma fresh_audit [fresh_intros]: "fresh_ids g \<Longrightarrow> fresh_ids (audit_write t r g)"
  unfolding audit_write_def by (erule fresh_insert) (simp_all add: all_ids_add)

text \<open>How a transaction may change the identifier supply and the clock.\<close>

definition ids_advance :: "db \<Rightarrow> db \<Rightarrow> bool" where
  "ids_advance g g' \<longleftrightarrow> uid g' = uid g \<and> uid_next g \<le> uid_next g' \<and> clock g' = clock g"

lemma ids_advance_refl [simp]: "ids_advance g g"
  by (simp add: ids_advance_def)

lemma ids_advance_trans: "ids_advance a b \<Longrightarrow> ids_advance b c \<Longrightarrow> ids_advance a c"
  by (auto simp: ids_advance_def)

end
