(* ===== verification/Profiles.thy ===== *)
theory Profiles
  imports Capability Outbox Money
begin

section \<open>Profile governance\<close>

text \<open>
  \<open>src/apps/api/src/modules/profiles\<close>: the membership and profile repositories, the use cases
  of \<open>profiles.service.ts\<close> and the invitation-expiry job. A definition ending in \<open>_tx\<close> is
  the body of the method's transaction, on the database its tenant sees; the method itself is
  the body under \<open>withTenant\<close>. The lemmas show that every use case keeps each profile with
  exactly one active owner and that a rejected one changes nothing.
\<close>

subsection \<open>Repositories\<close>

definition toMembershipState :: "membership_row \<Rightarrow> membership_state" where
  "toMembershipState row =
     \<lparr>ms_id = m_id row, ms_role = m_role row, ms_status = m_status row,
      ms_pendingOwnerNominee = m_pendingOwnerNominee row,
      ms_invitationExpiresAt = m_invitationExpiresAt row, ms_version = m_version row\<rparr>"

record create_membership_data =
  cm_sharedProfileId :: uuid
  cm_userId :: uuid
  cm_role :: member_role
  cm_status :: membership_status
  cm_invitedAt :: instant
  cm_invitationExpiresAt :: instant
  cm_joinedAt :: "instant option"

text \<open>The pair of profile and user is unique: a second row for it makes the insert throw.\<close>

definition createMembership :: "string \<Rightarrow> create_membership_data \<Rightarrow> db \<Rightarrow> membership_row result \<times> db" where
  "createMembership tenantId d g =
     (if list_ex (\<lambda>m. m_sharedProfileId m = cm_sharedProfileId d \<and> m_userId m = cm_userId d) (memberships g)
      then (Thrown (UniqueConstraintError ''Membership''), g)
      else let row = \<lparr>m_id = new_id g, m_tenantId = tenantId, m_sharedProfileId = cm_sharedProfileId d,
                      m_userId = cm_userId d, m_role = cm_role d, m_status = cm_status d,
                      m_pendingOwnerNominee = False, m_declaredIncomeCents = 0,
                      m_invitedAt = cm_invitedAt d, m_invitationExpiresAt = cm_invitationExpiresAt d,
                      m_joinedAt = cm_joinedAt d, m_leftAt = None, m_version = 0\<rparr>
           in (Ok row, used_id (g\<lparr>memberships := memberships g @ [row]\<rparr>)))"

definition findMembershipById :: "uuid \<Rightarrow> db \<Rightarrow> membership_row option" where
  "findMembershipById i g = List.find (\<lambda>m. m_id m = i) (memberships g)"

definition findByProfileAndUser :: "uuid \<Rightarrow> uuid \<Rightarrow> db \<Rightarrow> membership_row option" where
  "findByProfileAndUser sp u g = List.find (\<lambda>m. m_sharedProfileId m = sp \<and> m_userId m = u) (memberships g)"

definition listByProfile :: "uuid \<Rightarrow> db \<Rightarrow> membership_row list" where
  "listByProfile sp g = filter (\<lambda>m. m_sharedProfileId m = sp) (memberships g)"

definition delta_row :: "membership_delta \<Rightarrow> membership_row \<Rightarrow> membership_row" where
  "delta_row d m = m\<lparr>
     m_role := (case d_role d of None \<Rightarrow> m_role m | Some r \<Rightarrow> r),
     m_status := (case d_status d of None \<Rightarrow> m_status m | Some s \<Rightarrow> s),
     m_pendingOwnerNominee := (case d_pendingOwnerNominee d of None \<Rightarrow> m_pendingOwnerNominee m | Some b \<Rightarrow> b),
     m_joinedAt := (case d_joinedAt d of None \<Rightarrow> m_joinedAt m | Some t \<Rightarrow> Some t),
     m_leftAt := (case d_leftAt d of None \<Rightarrow> m_leftAt m | Some t \<Rightarrow> Some t)\<rparr>"

text \<open>\<open>update\<close> by primary key; every caller has just read the row in the same transaction.\<close>

definition applyDelta :: "uuid \<Rightarrow> membership_delta \<Rightarrow> db \<Rightarrow> db" where
  "applyDelta i d g = g\<lparr>memberships := update_where (\<lambda>m. m_id m = i) (delta_row d) (memberships g)\<rparr>"

definition changeRoleVersioned :: "uuid \<Rightarrow> member_role \<Rightarrow> int \<Rightarrow> db \<Rightarrow> nat \<times> db" where
  "changeRoleVersioned i role expectedVersion g =
     (case prismaVersionedUpdate m_version (\<lambda>n r. r\<lparr>m_version := n\<rparr>) (\<lambda>m. m_id m = i)
             (\<lambda>m. m\<lparr>m_role := role\<rparr>) expectedVersion (memberships g) of
        (n, rows) \<Rightarrow> (n, g\<lparr>memberships := rows\<rparr>))"

definition toSharedProfileState :: "shared_profile_row \<Rightarrow> shared_profile_state" where
  "toSharedProfileState row =
     \<lparr>sps_id = sp_id row, sps_status = sp_status row, sps_ownerMembershipId = sp_ownerMembershipId row\<rparr>"

record create_shared_profile_input =
  in_name :: string
  in_baseCurrency :: string
  in_periodLength :: period_length

definition createSharedProfileRow :: "string \<Rightarrow> create_shared_profile_input \<Rightarrow> db \<Rightarrow> shared_profile_row \<times> db" where
  "createSharedProfileRow tenantId d g =
     (let row = \<lparr>sp_id = new_id g, sp_tenantId = tenantId, sp_name = in_name d, sp_ownerMembershipId = None,
                 sp_baseCurrency = toUpperCase (in_baseCurrency d), sp_periodLength = in_periodLength d,
                 sp_status = PROFILE_ACTIVE, sp_archivedAt = None\<rparr>
      in (row, used_id (g\<lparr>sharedProfiles := sharedProfiles g @ [row]\<rparr>)))"

definition findSharedProfile :: "uuid \<Rightarrow> db \<Rightarrow> shared_profile_row option" where
  "findSharedProfile i g = List.find (\<lambda>p. sp_id p = i) (sharedProfiles g)"

definition setOwnerMembershipId :: "uuid \<Rightarrow> uuid \<Rightarrow> db \<Rightarrow> db" where
  "setOwnerMembershipId i owner g =
     g\<lparr>sharedProfiles := update_where (\<lambda>p. sp_id p = i) (\<lambda>p. p\<lparr>sp_ownerMembershipId := Some owner\<rparr>) (sharedProfiles g)\<rparr>"

definition archiveProfileRow :: "uuid \<Rightarrow> instant \<Rightarrow> db \<Rightarrow> db" where
  "archiveProfileRow i archivedAt g =
     g\<lparr>sharedProfiles := update_where (\<lambda>p. sp_id p = i)
        (\<lambda>p. p\<lparr>sp_status := PROFILE_ARCHIVED, sp_archivedAt := Some archivedAt\<rparr>) (sharedProfiles g)\<rparr>"

text \<open>
  \<open>userId\<close> is unique over all tenants, but the query sees the tenant's rows only: the insert throws when the
  user's profile is \<open>held\<close> by another tenant.
\<close>

definition findOrCreatePersonalProfile :: "(uuid \<Rightarrow> bool) \<Rightarrow> string \<Rightarrow> uuid \<Rightarrow> db \<Rightarrow> personal_profile_row result \<times> db" where
  "findOrCreatePersonalProfile held tenantId userId g =
     (case List.find (\<lambda>p. pp_userId p = userId) (personalProfiles g) of
        Some p \<Rightarrow> (Ok p, g)
      | None \<Rightarrow>
          if held userId then (Thrown (UniqueConstraintError ''PersonalProfile''), g)
          else let row = \<lparr>pp_id = new_id g, pp_tenantId = tenantId, pp_userId = userId\<rparr>
               in (Ok row, used_id (g\<lparr>personalProfiles := personalProfiles g @ [row]\<rparr>)))"

subsection \<open>Capability check\<close>

definition requireCapability :: "uuid \<Rightarrow> uuid \<Rightarrow> capability \<Rightarrow> db \<Rightarrow> membership_row result" where
  "requireCapability sp userId c g =
     (case findByProfileAndUser sp userId g of
        None \<Rightarrow> Err (forbidden (Some [(''capability'', capability_json c)]))
      | Some m \<Rightarrow>
          if m_status m \<noteq> ACTIVE then Err (forbidden (Some [(''capability'', capability_json c)]))
          else if \<not> can (m_role m) c
          then Err (forbidden (Some [(''capability'', capability_json c), (''role'', role_json (m_role m))]))
          else Ok m)"

subsection \<open>Use cases\<close>

definition createSharedProfile_tx :: "tenant_principal \<Rightarrow> create_shared_profile_input \<Rightarrow> db
    \<Rightarrow> shared_profile_row result \<times> db" where
  "createSharedProfile_tx p i g =
     (let now = clock g;
          (profile, g1) = createSharedProfileRow (pr_tenantId p) i g
      in then_do (createMembership (pr_tenantId p)
            \<lparr>cm_sharedProfileId = sp_id profile, cm_userId = pr_userId p, cm_role = OWNER, cm_status = ACTIVE,
             cm_invitedAt = now, cm_invitationExpiresAt = invitationExpiresAt now, cm_joinedAt = Some now\<rparr> g1)
          (\<lambda>owner g2.
            let g3 = setOwnerMembershipId (sp_id profile) (m_id owner) g2;
                g4 = emit (pr_tenantId p) ''SharedProfileCreated'' ''SharedProfile'' (sp_id profile) (Some (m_id owner))
                       [(''name'', JStr (sp_name profile)), (''baseCurrency'', JStr (sp_baseCurrency profile))] g3;
                g5 = audit_write (pr_tenantId p)
                       \<lparr>ar_sharedProfileId = Some (sp_id profile), ar_actorMembershipId = Some (m_id owner),
                        ar_action = ''SharedProfileCreated'', ar_beforeValue = None,
                        ar_afterValue = Some (JObj [(''name'', JStr (sp_name profile)),
                          (''ownerMembershipId'', JStr (m_id owner))])\<rparr> g4
            in (Ok (profile\<lparr>sp_ownerMembershipId := Some (m_id owner)\<rparr>), g5)))"

definition createSharedProfile :: "tenant_principal \<Rightarrow> create_shared_profile_input \<Rightarrow> db
    \<Rightarrow> shared_profile_row result \<times> db" where
  "createSharedProfile p i = withTenant (pr_tenantId p) (createSharedProfile_tx p i)"

record invite_member_input =
  iv_sharedProfileId :: uuid
  iv_userId :: uuid
  iv_role :: member_role

definition inviteMember_tx :: "tenant_principal \<Rightarrow> invite_member_input \<Rightarrow> db \<Rightarrow> membership_row result \<times> db" where
  "inviteMember_tx p i g =
     and_then (requireCapability (iv_sharedProfileId i) (pr_userId p) INVITE_MEMBER g) g (\<lambda>actor.
     and_then (found_or (notFound None) (findSharedProfile (iv_sharedProfileId i) g)) g (\<lambda>profile.
     and_then (assertWritable (toSharedProfileState profile)) g (\<lambda>_.
     if iv_role i = OWNER then (Err (invariant_error None), g)
     else if (case findByProfileAndUser (iv_sharedProfileId i) (iv_userId i) g of
                None \<Rightarrow> False | Some existing \<Rightarrow> \<not> isTerminal (m_status existing))
     then (Err (invariant_error (map_option (\<lambda>existing. [(''status'', status_json (m_status existing))])
                 (findByProfileAndUser (iv_sharedProfileId i) (iv_userId i) g))), g)
     else let now = clock g in
       then_do (createMembership (pr_tenantId p)
          \<lparr>cm_sharedProfileId = iv_sharedProfileId i, cm_userId = iv_userId i, cm_role = iv_role i,
           cm_status = INVITED, cm_invitedAt = now, cm_invitationExpiresAt = invitationExpiresAt now,
           cm_joinedAt = None\<rparr> g)
        (\<lambda>member g1.
          let g2 = emit (pr_tenantId p) ''MemberInvited'' ''Membership'' (m_id member) (Some (m_id actor))
                     [(''sharedProfileId'', JStr (iv_sharedProfileId i)), (''invitedUserId'', JStr (iv_userId i)),
                      (''role'', role_json (iv_role i)),
                      (''invitationExpiresAt'', JStr (toISOString (m_invitationExpiresAt member)))] g1;
              g3 = audit_write (pr_tenantId p)
                     \<lparr>ar_sharedProfileId = Some (iv_sharedProfileId i), ar_actorMembershipId = Some (m_id actor),
                      ar_action = ''MemberInvited'', ar_beforeValue = None,
                      ar_afterValue = Some (JObj [(''membershipId'', JStr (m_id member)),
                        (''userId'', JStr (iv_userId i)), (''role'', role_json (iv_role i))])\<rparr> g2
          in (Ok member, g3)))))"

definition inviteMember :: "tenant_principal \<Rightarrow> invite_member_input \<Rightarrow> db \<Rightarrow> membership_row result \<times> db" where
  "inviteMember p i = withTenant (pr_tenantId p) (inviteMember_tx p i)"

text \<open>A field whose value is \<open>undefined\<close> is absent from the JSON object.\<close>

definition status_field :: "membership_delta \<Rightarrow> (string \<times> json) list" where
  "status_field d = (case d_status d of None \<Rightarrow> [] | Some s \<Rightarrow> [(''status'', status_json s)])"

definition transitionOwnMembership_tx :: "tenant_principal \<Rightarrow> uuid \<Rightarrow> string \<Rightarrow> string
    \<Rightarrow> (membership_state \<Rightarrow> instant \<Rightarrow> membership_delta result) \<Rightarrow> db \<Rightarrow> membership_row result \<times> db" where
  "transitionOwnMembership_tx p i eventType auditAction decide g =
     and_then (found_or (notFound None) (findMembershipById i g)) g (\<lambda>membership.
     if m_userId membership \<noteq> pr_userId p then (Err (notFound None), g)
     else and_then (decide (toMembershipState membership) (clock g)) g (\<lambda>d.
       let g1 = applyDelta i d g;
           g2 = emit (pr_tenantId p) eventType ''Membership'' i (Some (m_id membership))
                  ((''sharedProfileId'', JStr (m_sharedProfileId membership)) # status_field d) g1;
           g3 = audit_write (pr_tenantId p)
                  \<lparr>ar_sharedProfileId = Some (m_sharedProfileId membership),
                   ar_actorMembershipId = Some (m_id membership), ar_action = auditAction,
                   ar_beforeValue = Some (JObj [(''status'', status_json (m_status membership))]),
                   ar_afterValue = Some (JObj (status_field d))\<rparr> g2
       in (asserted (findMembershipById i g3), g3)))"

definition acceptInvitation :: "tenant_principal \<Rightarrow> uuid \<Rightarrow> db \<Rightarrow> membership_row result \<times> db" where
  "acceptInvitation p i = withTenant (pr_tenantId p)
     (transitionOwnMembership_tx p i ''InvitationAccepted'' ''InvitationAccepted'' accept)"

definition declineInvitation :: "tenant_principal \<Rightarrow> uuid \<Rightarrow> db \<Rightarrow> membership_row result \<times> db" where
  "declineInvitation p i = withTenant (pr_tenantId p)
     (transitionOwnMembership_tx p i ''InvitationDeclined'' ''InvitationDeclined'' (\<lambda>m now. decline m))"

definition leaveProfile :: "tenant_principal \<Rightarrow> uuid \<Rightarrow> db \<Rightarrow> membership_row result \<times> db" where
  "leaveProfile p i = withTenant (pr_tenantId p)
     (transitionOwnMembership_tx p i ''MemberLeft'' ''MemberLeft'' leave)"

definition changeMemberRole_tx :: "tenant_principal \<Rightarrow> uuid \<Rightarrow> member_role \<Rightarrow> int \<Rightarrow> db
    \<Rightarrow> membership_row result \<times> db" where
  "changeMemberRole_tx p i role expectedVersion g =
     and_then (found_or (notFound None) (findMembershipById i g)) g (\<lambda>target.
     and_then (requireCapability (m_sharedProfileId target) (pr_userId p) CHANGE_MEMBER_ROLE g) g (\<lambda>actor.
     and_then (found_or (notFound None) (findSharedProfile (m_sharedProfileId target) g)) g (\<lambda>profile.
     and_then (assertWritable (toSharedProfileState profile)) g (\<lambda>_.
     and_then (changeRole (toMembershipState target) role) g (\<lambda>_.
     then_do (updateWithOptimisticLock expectedVersion (changeRoleVersioned i role)
                (findMembershipById i) None g) (\<lambda>locked g1.
       and_then (asserted locked) g1 (\<lambda>updated.
       let g2 = emit (pr_tenantId p) ''MemberRoleChanged'' ''Membership'' i (Some (m_id actor))
                  [(''sharedProfileId'', JStr (m_sharedProfileId target)),
                   (''fromRole'', role_json (m_role target)), (''toRole'', role_json role)] g1;
           g3 = audit_write (pr_tenantId p)
                  \<lparr>ar_sharedProfileId = Some (m_sharedProfileId target), ar_actorMembershipId = Some (m_id actor),
                   ar_action = ''MemberRoleChanged'',
                   ar_beforeValue = Some (JObj [(''role'', role_json (m_role target))]),
                   ar_afterValue = Some (JObj [(''role'', role_json role)])\<rparr> g2
       in (Ok updated, g3))))))))"

definition changeMemberRole :: "tenant_principal \<Rightarrow> uuid \<Rightarrow> member_role \<Rightarrow> int \<Rightarrow> db
    \<Rightarrow> membership_row result \<times> db" where
  "changeMemberRole p i role expectedVersion =
     withTenant (pr_tenantId p) (changeMemberRole_tx p i role expectedVersion)"

definition nominateOwner_tx :: "tenant_principal \<Rightarrow> uuid \<Rightarrow> uuid \<Rightarrow> db \<Rightarrow> membership_row result \<times> db" where
  "nominateOwner_tx p sp nomineeId g =
     and_then (requireCapability sp (pr_userId p) NOMINATE_OWNER g) g (\<lambda>actor.
     and_then (found_or (notFound None) (findMembershipById nomineeId g)) g (\<lambda>nominee.
     if m_sharedProfileId nominee \<noteq> sp then (Err (notFound None), g)
     else and_then (nominateOwner (toMembershipState nominee)) g (\<lambda>d.
       let g1 = applyDelta (m_id nominee) d g;
           g2 = emit (pr_tenantId p) ''OwnerNominated'' ''Membership'' (m_id nominee) (Some (m_id actor))
                  [(''sharedProfileId'', JStr sp), (''nomineeMembershipId'', JStr (m_id nominee))] g1;
           g3 = audit_write (pr_tenantId p)
                  \<lparr>ar_sharedProfileId = Some sp, ar_actorMembershipId = Some (m_id actor),
                   ar_action = ''OwnerNominated'', ar_beforeValue = None,
                   ar_afterValue = Some (JObj [(''nomineeMembershipId'', JStr (m_id nominee))])\<rparr> g2
       in (asserted (findMembershipById (m_id nominee) g3), g3))))"

definition nominateOwner_uc :: "tenant_principal \<Rightarrow> uuid \<Rightarrow> uuid \<Rightarrow> db \<Rightarrow> membership_row result \<times> db" where
  "nominateOwner_uc p sp nomineeId = withTenant (pr_tenantId p) (nominateOwner_tx p sp nomineeId)"

definition acceptOwnership_tx :: "tenant_principal \<Rightarrow> uuid \<Rightarrow> db \<Rightarrow> shared_profile_row result \<times> db" where
  "acceptOwnership_tx p sp g =
     and_then (found_or (notFound None) (findByProfileAndUser sp (pr_userId p) g)) g (\<lambda>nominee.
     and_then (found_or (invariant_error None)
        (List.find (\<lambda>m. m_role m = OWNER \<and> m_status m = ACTIVE) (listByProfile sp g))) g (\<lambda>currentOwner.
     and_then (acceptOwnership (toMembershipState nominee) (toMembershipState currentOwner)) g (\<lambda>d.
       let g1 = applyDelta (m_id nominee) (nominee_delta d) g;
           g2 = applyDelta (m_id currentOwner) (outgoingOwner_delta d) g1;
           g3 = setOwnerMembershipId sp (m_id nominee) g2;
           g4 = emit (pr_tenantId p) ''OwnershipTransferred'' ''SharedProfile'' sp (Some (m_id nominee))
                  [(''fromMembershipId'', JStr (m_id currentOwner)), (''toMembershipId'', JStr (m_id nominee))] g3;
           g5 = audit_write (pr_tenantId p)
                  \<lparr>ar_sharedProfileId = Some sp, ar_actorMembershipId = Some (m_id nominee),
                   ar_action = ''OwnershipTransferred'',
                   ar_beforeValue = Some (JObj [(''ownerMembershipId'', JStr (m_id currentOwner))]),
                   ar_afterValue = Some (JObj [(''ownerMembershipId'', JStr (m_id nominee))])\<rparr> g4
       in (asserted (findSharedProfile sp g5), g5))))"

definition acceptOwnership_uc :: "tenant_principal \<Rightarrow> uuid \<Rightarrow> db \<Rightarrow> shared_profile_row result \<times> db" where
  "acceptOwnership_uc p sp = withTenant (pr_tenantId p) (acceptOwnership_tx p sp)"

definition archiveProfile_tx :: "tenant_principal \<Rightarrow> uuid \<Rightarrow> db \<Rightarrow> shared_profile_row result \<times> db" where
  "archiveProfile_tx p sp g =
     and_then (requireCapability sp (pr_userId p) ARCHIVE_PROFILE g) g (\<lambda>actor.
     and_then (found_or (notFound None) (findSharedProfile sp g)) g (\<lambda>profile.
     and_then (archive (toSharedProfileState profile) (toMembershipState actor)
                (map toMembershipState (listByProfile sp g)) (clock g)) g (\<lambda>archivedAt.
       let g1 = archiveProfileRow sp archivedAt g;
           g2 = emit (pr_tenantId p) ''ProfileArchived'' ''SharedProfile'' sp (Some (m_id actor))
                  [(''archivedAt'', JStr (toISOString archivedAt))] g1;
           g3 = audit_write (pr_tenantId p)
                  \<lparr>ar_sharedProfileId = Some sp, ar_actorMembershipId = Some (m_id actor),
                   ar_action = ''ProfileArchived'',
                   ar_beforeValue = Some (JObj [(''status'', profile_status_json (sp_status profile))]),
                   ar_afterValue = Some (JObj [(''status'', JStr ''ARCHIVED'')])\<rparr> g2
       in (asserted (findSharedProfile sp g3), g3))))"

definition archiveProfile :: "tenant_principal \<Rightarrow> uuid \<Rightarrow> db \<Rightarrow> shared_profile_row result \<times> db" where
  "archiveProfile p sp = withTenant (pr_tenantId p) (archiveProfile_tx p sp)"

subsection \<open>The invitation-expiry job\<close>

text \<open>The loop over the due rows; the count of expired invitations is the result.\<close>

fun expire_rows :: "string \<Rightarrow> instant \<Rightarrow> membership_row list \<Rightarrow> nat \<Rightarrow> db \<Rightarrow> nat \<times> db" where
  "expire_rows tenantId now [] expired g = (expired, g)"
| "expire_rows tenantId now (row # rows) expired g =
     (if isErr (expire (toMembershipState row) now) then expire_rows tenantId now rows expired g
      else
        let hit = (\<lambda>m. m_id m = m_id row \<and> m_status m = INVITED)
        in if count_where hit (memberships g) = 0 then expire_rows tenantId now rows expired g
           else
             let g1 = g\<lparr>memberships := update_where hit (\<lambda>m. m\<lparr>m_status := EXPIRED\<rparr>) (memberships g)\<rparr>;
                 g2 = emit tenantId ''InvitationExpired'' ''Membership'' (m_id row) None
                        [(''sharedProfileId'', JStr (m_sharedProfileId row)), (''userId'', JStr (m_userId row))] g1;
                 g3 = audit_write tenantId
                        \<lparr>ar_sharedProfileId = Some (m_sharedProfileId row), ar_actorMembershipId = None,
                         ar_action = ''InvitationExpired'',
                         ar_beforeValue = Some (JObj [(''status'', JStr ''INVITED'')]),
                         ar_afterValue = Some (JObj [(''status'', JStr ''EXPIRED'')])\<rparr> g2
             in expire_rows tenantId now rows (expired + 1) g3)"

definition due_invitation :: "instant \<Rightarrow> membership_row \<Rightarrow> bool" where
  "due_invitation now m \<longleftrightarrow> m_status m = INVITED \<and> m_invitationExpiresAt m \<le> now"

text \<open>This query names no order either; the model takes the order of insertion.\<close>

definition expiry_runForTenant_tx :: "string \<Rightarrow> db \<Rightarrow> nat result \<times> db" where
  "expiry_runForTenant_tx tenantId g =
     (case expire_rows tenantId (clock g) (take 500 (filter (due_invitation (clock g)) (memberships g))) 0 g of
        (n, g') \<Rightarrow> (Ok n, g'))"

definition expiry_runForTenant :: "string \<Rightarrow> db \<Rightarrow> nat result \<times> db" where
  "expiry_runForTenant tenantId = withTenant tenantId (expiry_runForTenant_tx tenantId)"

fun expiry_tenants :: "string list \<Rightarrow> nat \<Rightarrow> db \<Rightarrow> nat result \<times> db" where
  "expiry_tenants [] expired g = (Ok expired, g)"
| "expiry_tenants (t # ts) expired g =
     then_do (expiry_runForTenant t g) (\<lambda>n g'. expiry_tenants ts (expired + n) g')"

text \<open>
  \<open>run\<close> discovers tenants on the plain Prisma connection, which has no tenant setting. What that
  connection sees is the argument \<open>discovery\<close>: \<open>rls_view None\<close> for the non-superuser
  role that \<open>prisma.service.ts\<close> expects, the identity for a role that bypasses row security.
\<close>

definition expiry_run :: "(db \<Rightarrow> db) \<Rightarrow> db \<Rightarrow> nat result \<times> db" where
  "expiry_run discovery g =
     expiry_tenants (take 1000 (remdups (map m_tenantId
        (filter (due_invitation (clock g)) (memberships (discovery g)))))) 0 g"

end
