(* ===== verification/Governance.thy ===== *)
theory Governance
  imports Profiles
begin

section \<open>Governance invariants\<close>

text \<open>
  What the use cases of \<open>Profiles\<close> keep true: primary keys and the unique pair of the
  membership table, and the ownership structure. A membership is OWNER exactly when the
  profile's \<open>ownerMembershipId\<close> names it, an owner is active and not a nominee, and every
  profile has an owner.
\<close>

definition owner_of :: "shared_profile_row \<Rightarrow> membership_row \<Rightarrow> bool" where
  "owner_of p m \<longleftrightarrow> m_sharedProfileId m = sp_id p \<and> sp_ownerMembershipId p = Some (m_id m)"

definition keys_ok :: "shared_profile_row list \<Rightarrow> membership_row list \<Rightarrow> bool" where
  "keys_ok ps ms \<longleftrightarrow> distinct (map m_id ms) \<and> distinct (map (\<lambda>m. (m_sharedProfileId m, m_userId m)) ms)
     \<and> distinct (map sp_id ps) \<and> (\<forall>m \<in> set ms. m_sharedProfileId m \<in> sp_id ` set ps)"

definition owners_ok :: "shared_profile_row list \<Rightarrow> membership_row list \<Rightarrow> bool" where
  "owners_ok ps ms \<longleftrightarrow>
     (\<forall>m \<in> set ms. m_role m = OWNER \<longrightarrow> m_status m = ACTIVE \<and> \<not> m_pendingOwnerNominee m)
     \<and> (\<forall>p \<in> set ps. \<exists>m \<in> set ms. owner_of p m)
     \<and> (\<forall>p \<in> set ps. \<forall>m \<in> set ms. m_sharedProfileId m = sp_id p \<longrightarrow>
           (m_role m = OWNER \<longleftrightarrow> sp_ownerMembershipId p = Some (m_id m)))"

definition governed :: "db \<Rightarrow> bool" where
  "governed g \<longleftrightarrow> fresh_ids g \<and> keys_ok (sharedProfiles g) (memberships g)
     \<and> owners_ok (sharedProfiles g) (memberships g)"

subsection \<open>Rows updated in place\<close>

lemma keys_ok_update:
  assumes "keys_ok ps ms"
    and "\<And>m. m_id (f m) = m_id m" and "\<And>m. m_sharedProfileId (f m) = m_sharedProfileId m"
    and "\<And>m. m_userId (f m) = m_userId m"
  shows "keys_ok ps (update_where c f ms)"
  using assms by (simp add: keys_ok_def map_update_where) (auto simp: set_update_where)

lemma keys_ok_profiles: "map sp_id ps' = map sp_id ps \<Longrightarrow> keys_ok ps' ms = keys_ok ps ms"
  unfolding keys_ok_def by (metis set_map)

lemma in_update_by_key:
  assumes "distinct (map k rows)" and "r \<in> set rows"
  shows "q \<in> set (update_where (\<lambda>x. k x = k r) f rows) \<longleftrightarrow> q = f r \<or> (q \<in> set rows \<and> q \<noteq> r)"
  using assms by (auto simp: set_update_where) (metis distinct_key_eq)+

lemma owners_ok_update:
  assumes "keys_ok ps ms" and "owners_ok ps ms" and "m \<in> set ms" and "m_role m \<noteq> OWNER"
    and "m_role (f m) \<noteq> OWNER" and "m_id (f m) = m_id m" and "m_sharedProfileId (f m) = m_sharedProfileId m"
  shows "owners_ok ps (update_where (\<lambda>q. m_id q = m_id m) f ms)"
proof -
  have d: "distinct (map m_id ms)" using assms(1) by (simp add: keys_ok_def)
  have in_new: "q \<in> set (update_where (\<lambda>q. m_id q = m_id m) f ms) \<longleftrightarrow> q = f m \<or> (q \<in> set ms \<and> q \<noteq> m)" for q
    by (rule in_update_by_key [OF d assms(3)])
  show ?thesis
    unfolding owners_ok_def
  proof (intro conjI ballI impI)
    fix p assume p: "p \<in> set ps"
    with assms(2) obtain w where w: "w \<in> set ms" "owner_of p w" by (auto simp: owners_ok_def)
    with assms(2) p have "m_role w = OWNER" by (auto simp: owners_ok_def owner_of_def)
    with assms(4) have "w \<noteq> m" by auto
    with w show "\<exists>q \<in> set (update_where (\<lambda>q. m_id q = m_id m) f ms). owner_of p q"
      using in_new by blast
  next
    fix p q
    assume pq: "p \<in> set ps" "q \<in> set (update_where (\<lambda>q. m_id q = m_id m) f ms)" "m_sharedProfileId q = sp_id p"
    show "(m_role q = OWNER) = (sp_ownerMembershipId p = Some (m_id q))"
    proof (cases "q = f m")
      case True
      with pq assms(7) have "m_sharedProfileId m = sp_id p" by simp
      with assms(2,3,4) pq(1) have "sp_ownerMembershipId p \<noteq> Some (m_id m)" by (auto simp: owners_ok_def)
      with True assms(5,6) show ?thesis by simp
    next
      case False
      with pq in_new assms(2) show ?thesis by (auto simp: owners_ok_def)
    qed
  qed (use in_new assms(2,5) in \<open>auto simp: owners_ok_def\<close>)
qed

lemma profile_status_kept:
  assumes "\<And>p. sp_id (f p) = sp_id p" and "\<And>p. sp_ownerMembershipId (f p) = sp_ownerMembershipId p"
  shows "keys_ok (update_where c f ps) ms = keys_ok ps ms"
    and "owners_ok (update_where c f ps) ms = owners_ok ps ms"
proof -
  have ids: "map sp_id (update_where c f ps) = map sp_id ps" by (rule map_update_where) (rule assms)
  then have "sp_id ` set (update_where c f ps) = sp_id ` set ps" by (metis set_map)
  with ids show "keys_ok (update_where c f ps) ms = keys_ok ps ms" by (simp add: keys_ok_def)
  have "(\<forall>p \<in> set (update_where c f ps). Q (sp_id p) (sp_ownerMembershipId p))
      = (\<forall>p \<in> set ps. Q (sp_id p) (sp_ownerMembershipId p))" for Q
    by (induction ps) (simp_all add: update_where_def assms)
  from this [of "\<lambda>i w. \<exists>m \<in> set ms. m_sharedProfileId m = i \<and> w = Some (m_id m)"]
    this [of "\<lambda>i w. \<forall>m \<in> set ms. m_sharedProfileId m = i \<longrightarrow> (m_role m = OWNER \<longleftrightarrow> w = Some (m_id m))"]
  show "owners_ok (update_where c f ps) ms = owners_ok ps ms"
    by (simp add: owners_ok_def owner_of_def)
qed

subsection \<open>Rows added\<close>

lemma governed_invite:
  assumes "keys_ok ps ms" and "owners_ok ps ms" and "m_role m \<noteq> OWNER" and "m_id m \<notin> m_id ` set ms"
    and "m_sharedProfileId m \<in> sp_id ` set ps"
    and "\<And>q. q \<in> set ms \<Longrightarrow> m_sharedProfileId q = m_sharedProfileId m \<Longrightarrow> m_userId q \<noteq> m_userId m"
    and "\<And>p. p \<in> set ps \<Longrightarrow> sp_ownerMembershipId p \<noteq> Some (m_id m)"
  shows "keys_ok ps (ms @ [m])" and "owners_ok ps (ms @ [m])"
proof -
  have "(m_sharedProfileId m, m_userId m) \<notin> (\<lambda>q. (m_sharedProfileId q, m_userId q)) ` set ms"
  proof
    assume "(m_sharedProfileId m, m_userId m) \<in> (\<lambda>q. (m_sharedProfileId q, m_userId q)) ` set ms"
    then obtain q where "q \<in> set ms" "m_sharedProfileId q = m_sharedProfileId m" "m_userId q = m_userId m" by auto
    with assms(6) show False by blast
  qed
  then show "keys_ok ps (ms @ [m])" using assms(1,4,5) by (simp add: keys_ok_def)
  show "owners_ok ps (ms @ [m])" using assms(2,3,7) by (auto simp: owners_ok_def)
qed

text \<open>The owner a profile names is a row of the membership table.\<close>

lemma named_owner_exists:
  assumes "keys_ok ps ms" and "owners_ok ps ms" and "p \<in> set ps" and "sp_ownerMembershipId p = Some i"
  shows "i \<in> m_id ` set ms"
  using assms by (fastforce simp: owners_ok_def owner_of_def)

lemma governed_found:
  assumes "keys_ok ps ms" and "owners_ok ps ms"
    and "m_role w = OWNER" "m_status w = ACTIVE" "\<not> m_pendingOwnerNominee w"
    and "sp_ownerMembershipId p = Some (m_id w)" and "m_sharedProfileId w = sp_id p"
    and "m_id w \<notin> m_id ` set ms" and "sp_id p \<notin> sp_id ` set ps"
  shows "keys_ok (ps @ [p]) (ms @ [w])" and "owners_ok (ps @ [p]) (ms @ [w])"
proof -
  have new: "m_sharedProfileId m \<noteq> sp_id p" if "m \<in> set ms" for m
  proof -
    have "m_sharedProfileId m \<in> sp_id ` set ps" using that assms(1) by (simp add: keys_ok_def)
    with assms(9) show ?thesis by metis
  qed
  show "keys_ok (ps @ [p]) (ms @ [w])" using assms(1,7,8,9) new by (auto simp: keys_ok_def)
  have other: "sp_id q \<noteq> sp_id p" if "q \<in> set ps" for q using that assms(9) by (metis imageI)
  show "owners_ok (ps @ [p]) (ms @ [w])"
    using assms(2-8) new other by (auto simp: owners_ok_def owner_of_def)
qed

subsection \<open>Transfer of ownership\<close>

lemma governed_transfer:
  assumes k: "keys_ok ps ms" and ok: "owners_ok ps ms"
    and n: "n \<in> set ms" "m_sharedProfileId n = sp" "m_role n \<noteq> OWNER" "m_status n = ACTIVE"
    and w: "w \<in> set ms" "m_sharedProfileId w = sp" "m_role w = OWNER"
    and f: "\<And>m. m_id (f m) = m_id m" "\<And>m. m_sharedProfileId (f m) = m_sharedProfileId m"
      "m_role (f n) = OWNER" "m_status (f n) = ACTIVE" "\<not> m_pendingOwnerNominee (f n)"
    and h: "\<And>m. m_id (h m) = m_id m" "\<And>m. m_sharedProfileId (h m) = m_sharedProfileId m" "m_role (h w) \<noteq> OWNER"
    and s: "\<And>p. sp_id (s p) = sp_id p" "\<And>p. sp_ownerMembershipId (s p) = Some (m_id n)"
  shows "owners_ok (update_where (\<lambda>p. sp_id p = sp) s ps)
           (update_where (\<lambda>m. m_id m = m_id w) h (update_where (\<lambda>m. m_id m = m_id n) f ms))"
proof -
  let ?ms1 = "update_where (\<lambda>m. m_id m = m_id n) f ms"
  let ?ms2 = "update_where (\<lambda>m. m_id m = m_id w) h ?ms1"
  have d: "distinct (map m_id ms)" using k by (simp add: keys_ok_def)
  have ne: "w \<noteq> n" using n(3) w(3) by auto
  have in1: "q \<in> set ?ms1 \<longleftrightarrow> q = f n \<or> (q \<in> set ms \<and> q \<noteq> n)" for q by (rule in_update_by_key [OF d n(1)])
  have d1: "distinct (map m_id ?ms1)" using d by (simp add: map_update_where f)
  have w1: "w \<in> set ?ms1" using w(1) ne in1 by simp
  have in2: "q \<in> set ?ms2 \<longleftrightarrow> q = h w \<or> (q = f n \<and> q \<noteq> w) \<or> (q \<in> set ms \<and> q \<noteq> n \<and> q \<noteq> w)" for q
    using in_update_by_key [OF d1 w1, of q h] in1 by blast
  have ids: "m_id w \<noteq> m_id n" using d n(1) w(1) ne distinct_key_eq by metis
  have fnw: "f n \<noteq> w" using f(1) [of n] ids by auto
  have other: "m_role q \<noteq> OWNER" if "q \<in> set ms" "m_sharedProfileId q = sp" "q \<noteq> w" "sp \<in> sp_id ` set ps" for q
  proof -
    from that(4) obtain p where p: "p \<in> set ps" "sp_id p = sp" by auto
    with ok w have "sp_ownerMembershipId p = Some (m_id w)" by (auto simp: owners_ok_def)
    with ok p that have "m_role q = OWNER \<longleftrightarrow> m_id q = m_id w" by (auto simp: owners_ok_def)
    with d that w(1) show ?thesis by (auto dest: distinct_key_eq)
  qed
  show ?thesis
    unfolding owners_ok_def
  proof (intro conjI ballI impI)
    fix q assume "q \<in> set ?ms2" "m_role q = OWNER"
    then show "m_status q = ACTIVE" and "\<not> m_pendingOwnerNominee q"
      using in2 f h ok by (auto simp: owners_ok_def)
  next
    fix p' assume "p' \<in> set (update_where (\<lambda>p. sp_id p = sp) s ps)"
    then obtain p where p: "p \<in> set ps" "p' = (if sp_id p = sp then s p else p)" by (auto simp: set_update_where)
    show "\<exists>m \<in> set ?ms2. owner_of p' m"
    proof (cases "sp_id p = sp")
      case True
      then have "owner_of p' (f n)" using p f s n by (simp add: owner_of_def)
      moreover have "f n \<in> set ?ms2" using in2 fnw by simp
      ultimately show ?thesis by blast
    next
      case False
      from ok p(1) obtain m where m: "m \<in> set ms" "owner_of p m" by (auto simp: owners_ok_def)
      with False n w have "m \<noteq> n" "m \<noteq> w" by (auto simp: owner_of_def)
      with m in2 p False show ?thesis by auto
    qed
  next
    fix p' q
    assume "p' \<in> set (update_where (\<lambda>p. sp_id p = sp) s ps)" and q: "q \<in> set ?ms2" "m_sharedProfileId q = sp_id p'"
    then obtain p where p: "p \<in> set ps" "p' = (if sp_id p = sp then s p else p)" by (auto simp: set_update_where)
    have sp: "sp_id p' = sp_id p" using p s by simp
    consider "q = h w" | "q = f n" | "q \<in> set ms" "q \<noteq> n" "q \<noteq> w" using q(1) in2 by blast
    then show "(m_role q = OWNER) = (sp_ownerMembershipId p' = Some (m_id q))"
    proof cases
      case 1
      then have "sp_id p = sp" using q sp h w by simp
      with 1 p s h ids show ?thesis by simp
    next
      case 2
      then have "sp_id p = sp" using q sp f n by simp
      with 2 p s f show ?thesis by simp
    next
      case 3
      show ?thesis
      proof (cases "sp_id p = sp")
        case True
        then have "m_role q \<noteq> OWNER" using 3 other p(1) q sp by auto
        moreover have "m_id q \<noteq> m_id n" using 3 d n(1) distinct_key_eq by metis
        ultimately show ?thesis using True p s by simp
      next
        case False
        with 3 p q sp ok show ?thesis by (auto simp: owners_ok_def)
      qed
    qed
  qed
qed

subsection \<open>Each use case keeps the invariant\<close>

lemma fresh_applyDelta [fresh_intros]: "fresh_ids g \<Longrightarrow> fresh_ids (applyDelta i d g)"
  unfolding applyDelta_def
  by (erule fresh_same) (simp_all add: all_ids_replace map_update_where delta_row_def)

lemma fresh_setOwner [fresh_intros]: "fresh_ids g \<Longrightarrow> fresh_ids (setOwnerMembershipId i w g)"
  unfolding setOwnerMembershipId_def by (erule fresh_same) (simp_all add: all_ids_replace map_update_where)

lemma fresh_archive [fresh_intros]: "fresh_ids g \<Longrightarrow> fresh_ids (archiveProfileRow i t g)"
  unfolding archiveProfileRow_def by (erule fresh_same) (simp_all add: all_ids_replace map_update_where)

lemma createMembership_Ok: "createMembership t d g = (Ok m, g') \<longleftrightarrow>
    \<not> list_ex (\<lambda>m. m_sharedProfileId m = cm_sharedProfileId d \<and> m_userId m = cm_userId d) (memberships g)
    \<and> m = \<lparr>m_id = new_id g, m_tenantId = t, m_sharedProfileId = cm_sharedProfileId d,
          m_userId = cm_userId d, m_role = cm_role d, m_status = cm_status d,
          m_pendingOwnerNominee = False, m_declaredIncomeCents = 0, m_invitedAt = cm_invitedAt d,
          m_invitationExpiresAt = cm_invitationExpiresAt d, m_joinedAt = cm_joinedAt d, m_leftAt = None, m_version = 0\<rparr>
    \<and> g' = used_id (g\<lparr>memberships := memberships g @ [m]\<rparr>)"
  by (auto simp: createMembership_def Let_def)

lemma createMembership_not_Err: "createMembership t d g \<noteq> (Err e, h)"
  by (simp add: createMembership_def Let_def)

lemma fresh_createMembership:
  "createMembership t d g = (Ok m, g') \<Longrightarrow> fresh_ids g \<Longrightarrow> fresh_ids g'"
  by (simp add: createMembership_Ok) (erule fresh_insert, simp_all add: all_ids_add)

lemma delta_row_fields [simp]:
  "m_id (delta_row d m) = m_id m" "m_sharedProfileId (delta_row d m) = m_sharedProfileId m"
  "m_userId (delta_row d m) = m_userId m" "m_tenantId (delta_row d m) = m_tenantId m"
  "m_version (delta_row d m) = m_version m"
  "m_role (delta_row d m) = (case d_role d of None \<Rightarrow> m_role m | Some r \<Rightarrow> r)"
  "m_status (delta_row d m) = (case d_status d of None \<Rightarrow> m_status m | Some s \<Rightarrow> s)"
  "m_pendingOwnerNominee (delta_row d m) = (case d_pendingOwnerNominee d of None \<Rightarrow> m_pendingOwnerNominee m | Some b \<Rightarrow> b)"
  by (simp_all add: delta_row_def)

lemma no_delta_fields [simp]:
  "d_role no_delta = None" "d_status no_delta = None" "d_pendingOwnerNominee no_delta = None"
  "d_joinedAt no_delta = None" "d_leftAt no_delta = None"
  by (simp_all add: no_delta_def)

lemma toMembershipState_fields [simp]:
  "ms_id (toMembershipState m) = m_id m" "ms_role (toMembershipState m) = m_role m"
  "ms_status (toMembershipState m) = m_status m"
  "ms_pendingOwnerNominee (toMembershipState m) = m_pendingOwnerNominee m"
  "ms_invitationExpiresAt (toMembershipState m) = m_invitationExpiresAt m"
  by (simp_all add: toMembershipState_def)

text \<open>A delta on a row that is not the owner's, and does not make it the owner's.\<close>

lemma governed_applyDelta:
  assumes "governed g" and "m \<in> set (memberships g)" and "m_role m \<noteq> OWNER"
    and "d_role d \<noteq> Some OWNER"
  shows "governed (applyDelta (m_id m) d g)"
proof -
  have ok: "fresh_ids g" "keys_ok (sharedProfiles g) (memberships g)" "owners_ok (sharedProfiles g) (memberships g)"
    using assms(1) by (simp_all add: governed_def)
  have "m_role (delta_row d m) \<noteq> OWNER" using assms(3,4) by (auto split: option.splits)
  then have "owners_ok (sharedProfiles g) (update_where (\<lambda>q. m_id q = m_id m) (delta_row d) (memberships g))"
    by (intro owners_ok_update [OF ok(2,3) assms(2,3)]) simp_all
  moreover have "keys_ok (sharedProfiles g) (update_where (\<lambda>q. m_id q = m_id m) (delta_row d) (memberships g))"
    by (rule keys_ok_update [OF ok(2)]) simp_all
  ultimately show ?thesis
    using fresh_applyDelta [OF ok(1)] by (simp add: governed_def applyDelta_def)
qed

text \<open>A later database of the same transaction that is still governed.\<close>

definition governed_from :: "db \<Rightarrow> db \<Rightarrow> bool" where
  "governed_from g h \<longleftrightarrow> governed h \<and> ids_advance g h"

lemma governed_from_refl: "governed g \<Longrightarrow> governed_from g g"
  by (simp add: governed_from_def)

lemma governed_writers [commits_intros]:
  "governed_from g h \<Longrightarrow> governed_from g (emit t et at ai ac pl h)"
  "governed_from g h \<Longrightarrow> governed_from g (audit_write t r h)"
  by (simp_all add: governed_from_def governed_def ids_advance_def fresh_intros)

lemma governed_from_applyDelta:
  "governed g \<Longrightarrow> m \<in> set (memberships g) \<Longrightarrow> m_role m \<noteq> OWNER \<Longrightarrow> d_role d \<noteq> Some OWNER
     \<Longrightarrow> i = m_id m \<Longrightarrow> governed_from g (applyDelta i d g)"
  by (simp add: governed_from_def governed_applyDelta) (simp add: applyDelta_def ids_advance_def)

lemma found_member: "findMembershipById i g = Some m \<Longrightarrow> m \<in> set (memberships g) \<and> m_id m = i"
  unfolding findMembershipById_def by (rule find_SomeD)

lemma found_by_user:
  "findByProfileAndUser sp u g = Some m \<Longrightarrow> m \<in> set (memberships g) \<and> m_sharedProfileId m = sp \<and> m_userId m = u"
  unfolding findByProfileAndUser_def by (drule find_SomeD) simp

lemma found_profile: "findSharedProfile i g = Some p \<Longrightarrow> p \<in> set (sharedProfiles g) \<and> sp_id p = i"
  unfolding findSharedProfile_def by (rule find_SomeD)

lemma found_profile_id: "findSharedProfile i g = Some p \<Longrightarrow> i \<in> sp_id ` set (sharedProfiles g)"
  by (drule found_profile) auto

lemma requireCapability_Ok: "requireCapability sp u c g = Ok m \<longleftrightarrow>
    findByProfileAndUser sp u g = Some m \<and> m_status m = ACTIVE \<and> can (m_role m) c"
  by (auto simp: requireCapability_def split: option.splits)

lemmas use_case_facts = found_or_Ok asserted_Ok requireCapability_Ok transition_Ok found_member found_by_user
  found_profile

text \<open>A transition of one's own membership: the status machine never makes an owner or moves one.\<close>

lemma governed_transition:
  assumes "governed g"
    and "\<And>m d now. decide m now = Ok d \<Longrightarrow> (ms_role m = OWNER \<Longrightarrow> ms_status m = ACTIVE) \<Longrightarrow> ms_role m \<noteq> OWNER \<and> d_role d = None"
  shows "commits (governed_from g) (transitionOwnMembership_tx p i et aa decide g)"
  unfolding transitionOwnMembership_tx_def Let_def
proof (intro commits_intros governed_from_refl assms(1))
  fix m d
  assume "found_or (notFound None) (findMembershipById i g) = Ok m"
    and d: "decide (toMembershipState m) (clock g) = Ok d"
  then have m: "m \<in> set (memberships g)" "m_id m = i" by (simp_all add: use_case_facts)
  have "ms_status (toMembershipState m) = ACTIVE" if "ms_role (toMembershipState m) = OWNER"
    using that assms(1) m(1) by (simp add: governed_def owners_ok_def)
  from assms(2) [OF d this] m show "governed_from g (applyDelta i d g)"
    by (intro governed_from_applyDelta [OF assms(1) m(1)]) simp_all
qed

lemma governed_own_transitions [commits_intros]:
  assumes "governed g"
  shows "commits (governed_from g) (transitionOwnMembership_tx p i et aa accept g)"
    and "commits (governed_from g) (transitionOwnMembership_tx p i et aa (\<lambda>m now. decline m) g)"
    and "commits (governed_from g) (transitionOwnMembership_tx p i et aa leave g)"
  using assms by (auto intro!: governed_transition simp: transition_Ok)

lemma governed_nominate [commits_intros]:
  assumes "governed g"
  shows "commits (governed_from g) (nominateOwner_tx p sp i g)"
  unfolding nominateOwner_tx_def Let_def
proof (intro commits_intros governed_from_refl assms)
  fix m d
  assume "found_or (notFound None) (findMembershipById i g) = Ok m"
    and "nominateOwner (toMembershipState m) = Ok d"
  then show "governed_from g (applyDelta (m_id m) d g)"
    by (intro governed_from_applyDelta [OF assms]) (auto simp: use_case_facts)
qed

lemma governed_changeRole [commits_intros]:
  assumes "governed g"
  shows "commits (governed_from g) (changeMemberRole_tx p i role e g)"
proof -
  have ok: "fresh_ids g" "keys_ok (sharedProfiles g) (memberships g)" "owners_ok (sharedProfiles g) (memberships g)"
    using assms by (simp_all add: governed_def)
  have upd: "governed_from g h"
    if "m \<in> set (memberships g)" "m_id m = i" "m_role m \<noteq> OWNER" "role \<noteq> OWNER"
      and h: "changeRoleVersioned i role e g = (n, h)" for m n h
  proof -
    let ?f = "membership_lock.bumped_row (\<lambda>m. m\<lparr>m_role := role\<rparr>)"
    have f: "m_id (?f q) = m_id q" "m_sharedProfileId (?f q) = m_sharedProfileId q"
      "m_userId (?f q) = m_userId q" "m_role (?f q) = role" for q :: membership_row
      by (simp_all add: membership_lock.bumped_row_def)
    have "distinct (map m_id (memberships g))" using ok(2) by (simp add: keys_ok_def)
    from membership_lock.lock_update_outcome [OF this, of i e "\<lambda>m. m\<lparr>m_role := role\<rparr>"] h
    consider "h = g" | "h = g\<lparr>memberships := update_where (\<lambda>q. m_id q = i) ?f (memberships g)\<rparr>"
      by (auto simp: changeRoleVersioned_def membership_lock.lock_update_def)
    then show ?thesis
    proof cases
      case 1
      with assms show ?thesis by (simp add: governed_from_refl)
    next
      case 2
      have "keys_ok (sharedProfiles g) (update_where (\<lambda>q. m_id q = m_id m) ?f (memberships g))"
        using ok(2) by (rule keys_ok_update) (simp_all add: f)
      moreover have "owners_ok (sharedProfiles g) (update_where (\<lambda>q. m_id q = m_id m) ?f (memberships g))"
        using ok(2,3) that(1,3) by (rule owners_ok_update) (simp_all add: f that(4))
      moreover have "fresh_ids h"
        unfolding 2 by (rule fresh_same [OF ok(1)]) (simp_all add: all_ids_replace map_update_where f)
      ultimately show ?thesis using 2 that(2) by (simp add: governed_from_def governed_def ids_advance_def)
    qed
  qed
  show ?thesis
    unfolding changeMemberRole_tx_def Let_def
  proof (intro commits_intros governed_from_refl assms)
    fix m d
    assume "found_or (notFound None) (findMembershipById i g) = Ok m"
      and "changeRole (toMembershipState m) role = Ok d"
    then have m: "m \<in> set (memberships g)" "m_id m = i" "m_role m \<noteq> OWNER" "role \<noteq> OWNER"
      by (auto simp: use_case_facts)
    obtain n h where h: "changeRoleVersioned i role e g = (n, h)" by fastforce
    have "h' = h"
      if "updateWithOptimisticLock e (changeRoleVersioned i role) (findMembershipById i) None g = (x, h')" for x :: "membership_row option result" and h'
      using that h by (simp add: updateWithOptimisticLock_def split: if_splits)
    note same = this
    { fix e' h' assume "updateWithOptimisticLock e (changeRoleVersioned i role) (findMembershipById i) None g = (Err e', h')"
      with same upd [OF m h] show "governed_from g h'" by simp }
    { fix v h' assume "updateWithOptimisticLock e (changeRoleVersioned i role) (findMembershipById i) None g = (Ok v, h')"
      with same upd [OF m h] show "governed_from g h'" and "governed_from g h'" by simp_all }
  qed
qed

lemma fresh_createSharedProfileRow:
  "createSharedProfileRow t d g = (p, g') \<Longrightarrow> fresh_ids g \<Longrightarrow> fresh_ids g'"
  by (simp add: createSharedProfileRow_def Let_def) (clarify, erule fresh_insert, simp_all add: all_ids_add)

lemma new_member_id: "fresh_ids g \<Longrightarrow> new_id g \<notin> m_id ` set (memberships g)"
  and new_profile_id: "fresh_ids g \<Longrightarrow> new_id g \<notin> sp_id ` set (sharedProfiles g)"
  using fresh_ids_new [of g] by (simp_all add: all_ids_def)

lemma governed_createSharedProfile [commits_intros]:
  assumes "governed g"
  shows "commits (governed_from g) (createSharedProfile_tx p i g)"
proof -
  have ok: "fresh_ids g" "keys_ok (sharedProfiles g) (memberships g)" "owners_ok (sharedProfiles g) (memberships g)"
    using assms by (simp_all add: governed_def)
  obtain q g1 where c: "createSharedProfileRow (pr_tenantId p) i g = (q, g1)" by fastforce
  then have q: "sp_id q = new_id g" "sharedProfiles g1 = sharedProfiles g @ [q]" "memberships g1 = memberships g"
    "uid g1 = uid g" "uid_next g1 = Suc (uid_next g)" "clock g1 = clock g" "sp_id q \<notin> sp_id ` set (sharedProfiles g)"
    using new_profile_id [OF ok(1)] by (auto simp: createSharedProfileRow_def Let_def)
  have f1: "fresh_ids g1" using fresh_createSharedProfileRow [OF c ok(1)] .
  have upd: "update_where (\<lambda>p. sp_id p = new_id g) f (sharedProfiles g @ [q]) = sharedProfiles g @ [f q]" for f
    using q(1) new_profile_id [OF ok(1)] by (auto simp: table_simps intro!: update_where_none) (metis imageI)
  have "governed_from g (setOwnerMembershipId (sp_id q) (m_id w) g2)"
    if w: "createMembership (pr_tenantId p) d g1 = (Ok w, g2)"
      and d: "cm_sharedProfileId d = sp_id q" "cm_role d = OWNER" "cm_status d = ACTIVE" for d w g2
  proof -
    from w d have m: "m_role w = OWNER" "m_status w = ACTIVE" "\<not> m_pendingOwnerNominee w"
      "m_sharedProfileId w = sp_id q" "m_id w = new_id g1"
      and g2: "g2 = used_id (g1\<lparr>memberships := memberships g @ [w]\<rparr>)"
      by (simp_all add: createMembership_Ok q)
    let ?q = "q\<lparr>sp_ownerMembershipId := Some (m_id w)\<rparr>"
    have "m_id w \<notin> m_id ` set (memberships g)" using new_member_id [OF f1] m(5) q(3) by simp
    then have "keys_ok (sharedProfiles g @ [?q]) (memberships g @ [w])"
      and "owners_ok (sharedProfiles g @ [?q]) (memberships g @ [w])"
      using governed_found [OF ok(2,3) m(1-3), of ?q] m(4) q(7) by simp_all
    moreover have "fresh_ids (setOwnerMembershipId (sp_id q) (m_id w) g2)"
      by (rule fresh_setOwner) (rule fresh_createMembership [OF w f1])
    ultimately show ?thesis
      using q by (simp add: governed_from_def governed_def setOwnerMembershipId_def g2 upd ids_advance_def used_id_def)
  qed
  then show ?thesis
    unfolding createSharedProfile_tx_def Let_def c split_conv
    by (intro commits_intros) (simp_all add: createMembership_not_Err)
qed

lemma governed_inviteMember [commits_intros]:
  assumes "governed g"
  shows "commits (governed_from g) (inviteMember_tx p i g)"
proof -
  have ok: "fresh_ids g" "keys_ok (sharedProfiles g) (memberships g)" "owners_ok (sharedProfiles g) (memberships g)"
    using assms by (simp_all add: governed_def)
  have "governed_from g g1"
    if w: "createMembership (pr_tenantId p) d g = (Ok w, g1)" and "cm_role d \<noteq> OWNER"
      and "cm_sharedProfileId d \<in> sp_id ` set (sharedProfiles g)" for d w g1
  proof -
    from w have m: "m_role w = cm_role d" "m_sharedProfileId w = cm_sharedProfileId d" "m_id w = new_id g"
      and uniq: "\<And>q. q \<in> set (memberships g) \<Longrightarrow> m_sharedProfileId q = m_sharedProfileId w \<Longrightarrow> m_userId q \<noteq> m_userId w"
      and g1: "g1 = used_id (g\<lparr>memberships := memberships g @ [w]\<rparr>)"
      by (auto simp: createMembership_Ok list_ex_iff)
    have new: "m_id w \<notin> m_id ` set (memberships g)" using new_member_id [OF ok(1)] m(3) by simp
    have "sp_ownerMembershipId q \<noteq> Some (m_id w)" if "q \<in> set (sharedProfiles g)" for q
      using named_owner_exists [OF ok(2,3) that] new by metis
    with governed_invite [OF ok(2,3) _ new _ uniq] m that(2,3)
    have "keys_ok (sharedProfiles g) (memberships g @ [w])" "owners_ok (sharedProfiles g) (memberships g @ [w])"
      by simp_all
    with fresh_createMembership [OF w ok(1)] g1 show ?thesis
      by (simp add: governed_from_def governed_def ids_advance_def)
  qed
  note created = this
  show ?thesis
    unfolding inviteMember_tx_def Let_def
  proof (intro commits_intros governed_from_refl assms)
    fix e h
    assume "createMembership (pr_tenantId p) \<lparr>cm_sharedProfileId = iv_sharedProfileId i, cm_userId = iv_userId i,
       cm_role = iv_role i, cm_status = INVITED, cm_invitedAt = clock g,
       cm_invitationExpiresAt = invitationExpiresAt (clock g), cm_joinedAt = None\<rparr> g = (Err e, h)"
    then show "governed_from g h" by (simp add: createMembership_not_Err)
  next
    fix q w h
    assume "found_or (notFound None) (findSharedProfile (iv_sharedProfileId i) g) = Ok q" and "iv_role i \<noteq> OWNER"
      and w: "createMembership (pr_tenantId p) \<lparr>cm_sharedProfileId = iv_sharedProfileId i, cm_userId = iv_userId i,
       cm_role = iv_role i, cm_status = INVITED, cm_invitedAt = clock g,
       cm_invitationExpiresAt = invitationExpiresAt (clock g), cm_joinedAt = None\<rparr> g = (Ok w, h)"
    then show "governed_from g h" by (intro created [OF w]) (simp_all add: found_or_Ok found_profile_id)
  qed
qed

lemma found_owner:
  "List.find (\<lambda>m. m_role m = OWNER \<and> m_status m = ACTIVE) (listByProfile sp g) = Some w
     \<Longrightarrow> w \<in> set (memberships g) \<and> m_sharedProfileId w = sp \<and> m_role w = OWNER \<and> m_status w = ACTIVE"
  by (drule find_SomeD) (simp add: listByProfile_def)

lemma governed_acceptOwnership [commits_intros]:
  assumes "governed g"
  shows "commits (governed_from g) (acceptOwnership_tx p sp g)"
proof -
  have ok: "fresh_ids g" "keys_ok (sharedProfiles g) (memberships g)" "owners_ok (sharedProfiles g) (memberships g)"
    using assms by (simp_all add: governed_def)
  show ?thesis
    unfolding acceptOwnership_tx_def Let_def
  proof (intro commits_intros governed_from_refl assms)
    fix n w :: membership_row and d :: ownership_transfer_deltas
    let ?g2 = "applyDelta (m_id w) (outgoingOwner_delta d) (applyDelta (m_id n) (nominee_delta d) g)"
    assume "found_or (notFound None) (findByProfileAndUser sp (pr_userId p) g) = Ok n"
      and "found_or (invariant_error None)
        (List.find (\<lambda>m. m_role m = OWNER \<and> m_status m = ACTIVE) (listByProfile sp g)) = Ok w"
      and "acceptOwnership (toMembershipState n) (toMembershipState w) = Ok d"
    then have n: "n \<in> set (memberships g)" "m_sharedProfileId n = sp" "m_status n = ACTIVE" "m_pendingOwnerNominee n"
      and w: "w \<in> set (memberships g)" "m_sharedProfileId w = sp" "m_role w = OWNER"
      and d: "nominee_delta d = no_delta\<lparr>d_role := Some OWNER, d_pendingOwnerNominee := Some False\<rparr>"
        "outgoingOwner_delta d = no_delta\<lparr>d_role := Some ADMIN\<rparr>"
      by (auto simp: found_or_Ok acceptOwnership_Ok dest: found_owner found_by_user)
    have nr: "m_role n \<noteq> OWNER" using n ok(3) by (auto simp: owners_ok_def)
    have "owners_ok (sharedProfiles (setOwnerMembershipId sp (m_id n) ?g2)) (memberships (setOwnerMembershipId sp (m_id n) ?g2))"
      using governed_transfer [OF ok(2,3) n(1,2) nr n(3) w, of "delta_row (nominee_delta d)"
          "delta_row (outgoingOwner_delta d)" "\<lambda>p. p\<lparr>sp_ownerMembershipId := Some (m_id n)\<rparr>"] n(3)
      by (simp add: setOwnerMembershipId_def applyDelta_def d)
    moreover have "keys_ok (sharedProfiles (setOwnerMembershipId sp (m_id n) ?g2)) (memberships (setOwnerMembershipId sp (m_id n) ?g2))"
    proof -
      have "keys_ok (sharedProfiles g) (memberships ?g2)"
        unfolding applyDelta_def by (simp add: keys_ok_update ok(2))
      moreover have "map sp_id (sharedProfiles (setOwnerMembershipId sp (m_id n) ?g2)) = map sp_id (sharedProfiles g)"
        by (simp add: setOwnerMembershipId_def applyDelta_def map_update_where)
      ultimately have "keys_ok (sharedProfiles (setOwnerMembershipId sp (m_id n) ?g2)) (memberships ?g2)"
        by (elim iffD2 [OF keys_ok_profiles, rotated])
      then show ?thesis by (simp add: setOwnerMembershipId_def)
    qed
    moreover have "fresh_ids (setOwnerMembershipId sp (m_id n) ?g2)"
      by (intro fresh_intros ok(1))
    ultimately show "governed_from g (setOwnerMembershipId sp (m_id n) ?g2)"
      by (simp add: governed_from_def governed_def)
        (simp add: ids_advance_def setOwnerMembershipId_def applyDelta_def)
  qed
qed

lemma governed_archive [commits_intros]:
  assumes "governed g"
  shows "commits (governed_from g) (archiveProfile_tx p sp g)"
proof -
  have "governed_from g (archiveProfileRow sp t g)" for t
    using assms fresh_archive [of g sp t]
    by (simp add: governed_from_def governed_def ids_advance_def archiveProfileRow_def profile_status_kept)
  then show ?thesis
    unfolding archiveProfile_tx_def Let_def by (intro commits_intros governed_from_refl assms)
qed

lemma governed_expire_rows:
  assumes "governed_from g h" and "expire_rows t now rows k h = (n, h')"
  shows "governed_from g h'"
  using assms
proof (induction rows arbitrary: h k)
  case Nil
  then show ?case by simp
next
  case (Cons row rows)
  let ?hit = "\<lambda>m. m_id m = m_id row \<and> m_status m = INVITED"
  let ?f = "\<lambda>m. m\<lparr>m_status := EXPIRED\<rparr>"
  let ?g1 = "h\<lparr>memberships := update_where ?hit ?f (memberships h)\<rparr>"
  show ?case
  proof (cases "isErr (expire (toMembershipState row) now) \<or> count_where ?hit (memberships h) = 0")
    case True
    with Cons show ?thesis by (auto split: if_splits)
  next
    case False
    have ok: "fresh_ids h" "keys_ok (sharedProfiles h) (memberships h)" "owners_ok (sharedProfiles h) (memberships h)"
      and adv: "ids_advance g h"
      using Cons.prems(1) by (simp_all add: governed_from_def governed_def)
    from False obtain m where m: "m \<in> set (memberships h)" "m_id m = m_id row" "m_status m = INVITED"
      by (auto simp: count_where_def filter_empty_conv)
    then have nr: "m_role m \<noteq> OWNER" using ok(3) by (auto simp: owners_ok_def)
    have "?hit q \<longleftrightarrow> m_id q = m_id m" if "q \<in> set (memberships h)" for q
      using that m ok(2) by (auto simp: keys_ok_def dest: distinct_key_eq)
    then have same: "update_where ?hit ?f (memberships h) = update_where (\<lambda>q. m_id q = m_id m) ?f (memberships h)"
      by (simp add: update_where_def)
    have "keys_ok (sharedProfiles h) (memberships ?g1)" using ok(2) by (simp add: keys_ok_update)
    moreover have "owners_ok (sharedProfiles h) (memberships ?g1)"
      unfolding same using owners_ok_update [OF ok(2,3) m(1) nr, of ?f] nr by simp
    moreover have "fresh_ids ?g1"
      by (rule fresh_same [OF ok(1)]) (simp_all add: all_ids_replace map_update_where)
    ultimately have g1: "governed_from g ?g1"
      using adv by (simp add: governed_from_def governed_def ids_advance_def)
    from False Cons.prems(2) show ?thesis
      by (simp add: Let_def) (erule Cons.IH [rotated], intro governed_writers g1)
  qed
qed

lemma governed_expiry [commits_intros]:
  assumes "governed g"
  shows "commits (governed_from g) (expiry_runForTenant_tx t g)"
proof -
  obtain n h where h: "expire_rows t (clock g) (take 500 (filter (due_invitation (clock g)) (memberships g))) 0 g = (n, h)"
    by fastforce
  from governed_expire_rows [OF governed_from_refl [OF assms] h] show ?thesis
    by (simp add: expiry_runForTenant_tx_def h commits_def)
qed

text \<open>A failed use case has written nothing.\<close>

lemma profiles_reject_cleanly:
  "rejects_cleanly g (createSharedProfile_tx p ci g)"
  "rejects_cleanly g (inviteMember_tx p ii g)"
  "rejects_cleanly g (transitionOwnMembership_tx p i et aa decide g)"
  "rejects_cleanly g (nominateOwner_tx p sp i g)"
  "rejects_cleanly g (acceptOwnership_tx p sp g)"
  "rejects_cleanly g (archiveProfile_tx p sp g)"
  unfolding createSharedProfile_tx_def inviteMember_tx_def transitionOwnMembership_tx_def nominateOwner_tx_def
    acceptOwnership_tx_def archiveProfile_tx_def Let_def createSharedProfileRow_def split_conv
  by (intro rejects_intros; simp add: createMembership_not_Err)+

end
