(* ===== verification/GovernanceRuns.thy ===== *)
theory GovernanceRuns
  imports Governance
begin

section \<open>Runs of the governance use cases\<close>

text \<open>
  The governance use cases as commands, that they keep the invariant, and what single ones
  do: a rejected command, a transfer of ownership, an archival, an expiry sweep.
\<close>

datatype governance_command =
    CreateProfile create_shared_profile_input
  | Invite invite_member_input
  | AcceptInvitation uuid
  | DeclineInvitation uuid
  | LeaveProfile uuid
  | ChangeRole uuid member_role int
  | NominateOwner uuid uuid
  | TakeOwnership uuid
  | ArchiveProfile uuid
  | ExpireInvitations

text \<open>The outcome of a command without the row it returns.\<close>

definition discard :: "'a result \<times> db \<Rightarrow> unit result \<times> db" where
  "discard c = (result_map (\<lambda>_. ()) (fst c), snd c)"

fun run_governance :: "tenant_principal \<Rightarrow> governance_command \<Rightarrow> db \<Rightarrow> unit result \<times> db" where
  "run_governance p (CreateProfile i) g = discard (createSharedProfile p i g)"
| "run_governance p (Invite i) g = discard (inviteMember p i g)"
| "run_governance p (AcceptInvitation m) g = discard (acceptInvitation p m g)"
| "run_governance p (DeclineInvitation m) g = discard (declineInvitation p m g)"
| "run_governance p (LeaveProfile m) g = discard (leaveProfile p m g)"
| "run_governance p (ChangeRole m r v) g = discard (changeMemberRole p m r v g)"
| "run_governance p (NominateOwner sp m) g = discard (nominateOwner_uc p sp m g)"
| "run_governance p (TakeOwnership sp) g = discard (acceptOwnership_uc p sp g)"
| "run_governance p (ArchiveProfile sp) g = discard (archiveProfile p sp g)"
| "run_governance p ExpireInvitations g = discard (expiry_runForTenant (pr_tenantId p) g)"

lemma snd_discard [simp]: "snd (discard c) = snd c"
  by (simp add: discard_def)

lemma governed_same_tables:
  assumes "governed a" and "same_tables a b" and "uid b = uid a" and "uid_next a \<le> uid_next b"
  shows "governed b"
proof -
  have a: "fresh_ids a" "keys_ok (sharedProfiles a) (memberships a)" "owners_ok (sharedProfiles a) (memberships a)"
    using assms(1) by (simp_all add: governed_def)
  have "fresh_ids b" by (rule fresh_same_tables [OF a(1) assms(2-4)])
  with a(2,3) show ?thesis
    unfolding governed_def same_tables_memberships(1) [OF assms(2)] same_tables_memberships(2) [OF assms(2)]
    by blast
qed

lemma single_owner:
  assumes "governed g" and "p \<in> set (sharedProfiles g)"
  obtains m where "m \<in> set (memberships g)" "sp_ownerMembershipId p = Some (m_id m)" "m_status m = ACTIVE"
    "filter (\<lambda>q. m_role q = OWNER) (listByProfile (sp_id p) g) = [m]"
proof -
  from assms obtain m where m: "m \<in> set (memberships g)" "owner_of p m"
    by (auto simp: governed_def owners_ok_def)
  with assms have mo: "m_role m = OWNER" "m_status m = ACTIVE" by (auto simp: governed_def owners_ok_def owner_of_def)
  have d: "distinct (map m_id (memberships g))" using assms(1) by (simp add: governed_def keys_ok_def)
  have only: "m_sharedProfileId q = sp_id p \<and> m_role q = OWNER \<longleftrightarrow> m_id q = m_id m" if "q \<in> set (memberships g)" for q
    using that assms m mo d by (auto simp: governed_def owners_ok_def owner_of_def dest: distinct_key_eq)
  have "filter (\<lambda>q. m_id q = m_id m) rows = [m]" if "distinct (map m_id rows)" "m \<in> set rows" for rows
    using that
  proof (induction rows)
    case (Cons x xs)
    show ?case
    proof (cases "x = m")
      case True
      with Cons.prems have "filter (\<lambda>q. m_id q = m_id m) xs = []" by (auto simp: filter_empty_conv rev_image_eqI)
      with True show ?thesis by simp
    next
      case False
      with Cons show ?thesis by (auto simp: rev_image_eqI)
    qed
  qed simp
  from this [OF d m(1)] only
  have "filter (\<lambda>q. m_role q = OWNER) (listByProfile (sp_id p) g) = [m]"
    by (simp add: listByProfile_def cong: filter_cong)
  with m mo show thesis by (intro that) (simp_all add: owner_of_def)
qed

text \<open>
  Single ownership: \<open>assertSingleOwner\<close> succeeds on the members of every profile, and the owner
  is the membership that the profile's \<open>ownerMembershipId\<close> names.
\<close>

lemma owner_facts:
  assumes "governed g" and "p \<in> set (sharedProfiles g)"
  shows "assertSingleOwner (map toMembershipState (listByProfile (sp_id p) g)) = Ok ()"
    and "\<exists>m. filter (\<lambda>q. m_role q = OWNER) (listByProfile (sp_id p) g) = [m]
          \<and> sp_ownerMembershipId p = Some (m_id m) \<and> m_status m = ACTIVE"
proof -
  obtain m where m: "sp_ownerMembershipId p = Some (m_id m)" "m_status m = ACTIVE"
    "filter (\<lambda>q. m_role q = OWNER) (listByProfile (sp_id p) g) = [m]"
    using single_owner [OF assms] by metis
  have "filter (\<lambda>q. m_status q = ACTIVE \<and> m_role q = OWNER) (listByProfile (sp_id p) g)
      = filter (\<lambda>q. m_status q = ACTIVE) (filter (\<lambda>q. m_role q = OWNER) (listByProfile (sp_id p) g))"
    by (simp add: conj_commute)
  then have "filter (\<lambda>q. m_status q = ACTIVE \<and> m_role q = OWNER) (listByProfile (sp_id p) g) = [m]"
    using m by simp
  then have "length (filter (\<lambda>s. ms_status s = ACTIVE \<and> ms_role s = OWNER)
      (map toMembershipState (listByProfile (sp_id p) g))) = 1"
    by (simp add: filter_map comp_def)
  then show "assertSingleOwner (map toMembershipState (listByProfile (sp_id p) g)) = Ok ()" by (simp add: assertSingleOwner_def)
  show "\<exists>m. filter (\<lambda>q. m_role q = OWNER) (listByProfile (sp_id p) g) = [m]
      \<and> sp_ownerMembershipId p = Some (m_id m) \<and> m_status m = ACTIVE" using m by blast
qed

subsection \<open>Failures, transfer, archival, expiry\<close>

lemma update_where_count0: "count_where p rows = 0 \<Longrightarrow> update_where p f rows = rows"
  by (auto simp: count_where_def filter_empty_conv intro: update_where_none)

lemma changeMemberRole_clean: "rejects_cleanly g (changeMemberRole_tx p i role e g)"
proof -
  have same: "h = g" if "updateWithOptimisticLock e (changeRoleVersioned i role) (findMembershipById i) None g = (Err er, h)" for er h
    using that by (auto simp: updateWithOptimisticLock_def changeRoleVersioned_def prismaVersionedUpdate_def
        Let_def update_where_count0 split: if_splits)
  show ?thesis
    unfolding changeMemberRole_tx_def Let_def
    by (intro rejects_intros same; (assumption)?) (auto simp: rejects_cleanly_def and_then_def asserted_def split: option.splits)
qed

lemma expiry_clean: "rejects_cleanly g (expiry_runForTenant_tx t g)"
  by (simp add: rejects_cleanly_def expiry_runForTenant_tx_def split: prod.splits)

lemma discard_Err: "discard c = (Err e, h) \<longleftrightarrow> c = (Err e, h)"
  by (cases c; cases "fst c") (auto simp: discard_def)

lemma expire_rows_exact:
  assumes "distinct (map m_id (memberships h))" and "distinct (map m_id rows)"
    and "\<And>r. r \<in> set rows \<Longrightarrow> r \<in> set (memberships h) \<and> due_invitation now r"
    and "expire_rows t now rows k h = (n, h')"
  shows "n = k + length rows
    \<and> memberships h' = update_where (\<lambda>m. m_id m \<in> m_id ` set rows) (\<lambda>m. m\<lparr>m_status := EXPIRED\<rparr>) (memberships h)
    \<and> (\<exists>evs. outboxEvents h' = outboxEvents h @ evs \<and> map ev_eventType evs = replicate (length rows) ''InvitationExpired''
          \<and> map ev_aggregateId evs = map m_id rows)"
  using assms
proof (induction rows arbitrary: h k)
  case Nil
  then show ?case by (simp add: update_where_none)
next
  case (Cons row rows)
  let ?hit = "\<lambda>m. m_id m = m_id row \<and> m_status m = INVITED"
  let ?f = "\<lambda>m. m\<lparr>m_status := EXPIRED\<rparr>"
  let ?ms1 = "update_where ?hit ?f (memberships h)"
  have row: "row \<in> set (memberships h)" "m_status row = INVITED" "m_invitationExpiresAt row \<le> now"
    using Cons.prems(3) by (auto simp: due_invitation_def)
  have one: "?hit q \<longleftrightarrow> m_id q = m_id row" if "q \<in> set (memberships h)" for q
    using that row Cons.prems(1) by (auto dest: distinct_key_eq)
  then have ms1: "?ms1 = update_where (\<lambda>q. m_id q = m_id row) ?f (memberships h)" by (simp add: update_where_def)
  have ok: "\<not> isErr (expire (toMembershipState row) now)" "count_where ?hit (memberships h) \<noteq> 0"
    using row by (auto simp: expire_def isInvitationExpired_def count_where_def filter_empty_conv)
  obtain h1 where run: "expire_rows t now rows (k + 1) h1 = (n, h')"
    and h1: "memberships h1 = ?ms1" "\<exists>e. outboxEvents h1 = outboxEvents h @ [e] \<and> ev_eventType e = ''InvitationExpired''
        \<and> ev_aggregateId e = m_id row"
    using Cons.prems(4) ok by (auto simp: Let_def outbox_row_of_def)
  have d1: "distinct (map m_id (memberships h1))" using Cons.prems(1) by (simp add: h1 map_update_where)
  have in1: "r \<in> set (memberships h1) \<and> due_invitation now r" if "r \<in> set rows" for r
  proof -
    have "r \<in> set (memberships h)" "due_invitation now r" using that Cons.prems(3) [of r] by simp_all
    moreover have "m_id r \<noteq> m_id row" using that Cons.prems(2) by (metis distinct.simps(2) image_eqI image_set list.simps(9))
    ultimately show ?thesis by (auto simp: h1 ms1 set_update_where)
  qed
  from Cons.IH [OF d1 _ in1 run] Cons.prems(2)
  have IH: "n = k + 1 + length rows"
    "memberships h' = update_where (\<lambda>m. m_id m \<in> m_id ` set rows) ?f ?ms1"
    "\<exists>evs. outboxEvents h' = outboxEvents h1 @ evs \<and> map ev_eventType evs = replicate (length rows) ''InvitationExpired''
       \<and> map ev_aggregateId evs = map m_id rows"
    by (simp_all add: h1)
  have "update_where (\<lambda>m. m_id m \<in> m_id ` set rows) ?f ?ms1
      = update_where (\<lambda>m. m_id m \<in> m_id ` set (row # rows)) ?f (memberships h)"
    unfolding ms1 by (auto simp: update_where_def)
  with IH h1(2) show ?case by (auto simp del: image_insert)
qed

lemma acceptOwnership_effect:
  assumes "governed g" and "acceptOwnership_tx p sp g = (Ok q, h)"
  obtains n w where "n \<in> set (memberships g)" "w \<in> set (memberships g)" "n \<noteq> w"
    "m_userId n = pr_userId p" "m_sharedProfileId n = sp" "m_sharedProfileId w = sp"
    "m_pendingOwnerNominee n" "m_status n = ACTIVE" "m_role w = OWNER"
    "memberships h = map (\<lambda>m. if m = n then m\<lparr>m_role := OWNER, m_pendingOwnerNominee := False\<rparr>
        else if m = w then m\<lparr>m_role := ADMIN\<rparr> else m) (memberships g)"
    "sharedProfiles h = map (\<lambda>r. if sp_id r = sp then r\<lparr>sp_ownerMembershipId := Some (m_id n)\<rparr> else r) (sharedProfiles g)"
    "findSharedProfile sp h = Some q" "sp_ownerMembershipId q = Some (m_id n)"
proof -
  from assms(2) obtain n w d where
    f: "findByProfileAndUser sp (pr_userId p) g = Some n"
      "List.find (\<lambda>m. m_role m = OWNER \<and> m_status m = ACTIVE) (listByProfile sp g) = Some w"
      "acceptOwnership (toMembershipState n) (toMembershipState w) = Ok d"
    and h: "memberships h = update_where (\<lambda>m. m_id m = m_id w) (delta_row (outgoingOwner_delta d))
        (update_where (\<lambda>m. m_id m = m_id n) (delta_row (nominee_delta d)) (memberships g))"
    and ps: "sharedProfiles h = map (\<lambda>r. if sp_id r = sp then r\<lparr>sp_ownerMembershipId := Some (m_id n)\<rparr> else r) (sharedProfiles g)"
    and q: "findSharedProfile sp (setOwnerMembershipId sp (m_id n) g) = Some q"
    by (auto simp: update_where_def acceptOwnership_tx_def use_case_Ok Let_def setOwnerMembershipId_def applyDelta_def findSharedProfile_def)
  note n = found_by_user [OF f(1)] and w = found_owner [OF f(2)]
  have d: "nominee_delta d = no_delta\<lparr>d_role := Some OWNER, d_pendingOwnerNominee := Some False\<rparr>"
    "outgoingOwner_delta d = no_delta\<lparr>d_role := Some ADMIN\<rparr>" "m_pendingOwnerNominee n" "m_status n = ACTIVE"
    using f(3) by (auto simp: acceptOwnership_Ok)
  have dist: "distinct (map m_id (memberships g))" using assms(1) by (simp add: governed_def keys_ok_def)
  have ne: "n \<noteq> w" using assms(1) n w d by (auto simp: governed_def owners_ok_def)
  then have idne: "m_id n \<noteq> m_id w" using dist n w distinct_key_eq by metis
  have "memberships h = map (\<lambda>m. if m = n then m\<lparr>m_role := OWNER, m_pendingOwnerNominee := False\<rparr>
        else if m = w then m\<lparr>m_role := ADMIN\<rparr> else m) (memberships g)"
    unfolding h update_where_def map_map
    by (rule map_cong [OF refl])
      (use dist n w idne in \<open>auto simp: d delta_row_def no_delta_def dest: distinct_key_eq\<close>)
  moreover
  have qin: "q \<in> set (update_where (\<lambda>p. sp_id p = sp) (\<lambda>p. p\<lparr>sp_ownerMembershipId := Some (m_id n)\<rparr>) (sharedProfiles g))"
    and qid: "sp_id q = sp"
    using found_profile [OF q] by (simp_all add: setOwnerMembershipId_def)
  moreover have "sp_ownerMembershipId q = Some (m_id n)"
    by (rule update_where_hit [OF qin qid]) simp_all
  moreover have "findSharedProfile sp h = Some q"
    using q by (simp add: findSharedProfile_def setOwnerMembershipId_def ps update_where_def)
  ultimately show thesis using that n w d ne ps by blast
qed

lemma archive_effect:
  assumes "archiveProfile_tx p sp g = (Ok q, h)"
  shows "m \<in> set (memberships g) \<Longrightarrow> m_sharedProfileId m = sp \<Longrightarrow> m_status m = ACTIVE \<Longrightarrow> m_userId m = pr_userId p"
    and "sp_status q = PROFILE_ARCHIVED" and "findSharedProfile sp h = Some q"
proof -
  from assms obtain a where a: "findByProfileAndUser sp (pr_userId p) g = Some a" "m_status a = ACTIVE"
    and one: "activeMemberCount (map toMembershipState (listByProfile sp g)) \<le> 1"
    and q: "findSharedProfile sp h = Some q" and h: "sharedProfiles h = sharedProfiles (archiveProfileRow sp (clock g) g)"
    by (auto simp: archiveProfile_tx_def use_case_Ok Let_def requireCapability_Ok archive_Ok)
  from found_by_user [OF a(1)] have am: "a \<in> set (memberships g)" "m_sharedProfileId a = sp" "m_userId a = pr_userId p"
    by simp_all
  have "length (filter (\<lambda>m. m_sharedProfileId m = sp \<and> m_status m = ACTIVE) (memberships g)) \<le> 1"
    using one by (simp add: activeMemberCount_def listByProfile_def filter_map comp_def conj_commute)
  moreover have "a \<in> set (filter (\<lambda>m. m_sharedProfileId m = sp \<and> m_status m = ACTIVE) (memberships g))"
    using am a(2) by simp
  ultimately have "filter (\<lambda>m. m_sharedProfileId m = sp \<and> m_status m = ACTIVE) (memberships g) = [a]"
    by (cases "filter (\<lambda>m. m_sharedProfileId m = sp \<and> m_status m = ACTIVE) (memberships g)") auto
  then have "set (filter (\<lambda>m. m_sharedProfileId m = sp \<and> m_status m = ACTIVE) (memberships g)) = {a}" by simp
  then have "m = a" if "m \<in> set (memberships g)" "m_sharedProfileId m = sp" "m_status m = ACTIVE" for m
    using that by auto
  then show "m \<in> set (memberships g) \<Longrightarrow> m_sharedProfileId m = sp \<Longrightarrow> m_status m = ACTIVE \<Longrightarrow> m_userId m = pr_userId p"
    using am by blast
  show "findSharedProfile sp h = Some q" by (rule q)
  have qin: "q \<in> set (update_where (\<lambda>p. sp_id p = sp)
      (\<lambda>p. p\<lparr>sp_status := PROFILE_ARCHIVED, sp_archivedAt := Some (clock g)\<rparr>) (sharedProfiles g))"
    and qid: "sp_id q = sp"
    using found_profile [OF q] h by (simp_all add: archiveProfileRow_def)
  show "sp_status q = PROFILE_ARCHIVED"
    by (rule update_where_hit [OF qin qid]) simp_all
qed

subsection \<open>Concrete databases\<close>

definition demo_owner :: tenant_principal where
  "demo_owner = \<lparr>pr_tenantId = ''t'', pr_userId = ''ann'', pr_authSubject = ''s1''\<rparr>"

definition demo_guest :: tenant_principal where
  "demo_guest = \<lparr>pr_tenantId = ''t'', pr_userId = ''bob'', pr_authSubject = ''s2''\<rparr>"

definition demo_profile_input :: create_shared_profile_input where
  "demo_profile_input = \<lparr>in_name = ''Home'', in_baseCurrency = ''eur'', in_periodLength = MONTHLY\<rparr>"

lemma no_rows_fresh: "fresh_ids no_rows"
proof -
  have "inj show_nat" by (rule injI) (metis option.inject parse_show_nat)
  then show ?thesis by (simp add: fresh_ids_def no_rows_def all_ids_def)
qed

text \<open>A profile of Ann's with Bob as an active member whom she has nominated.\<close>

definition demo_membership :: "uuid \<Rightarrow> uuid \<Rightarrow> member_role \<Rightarrow> bool \<Rightarrow> membership_row" where
  "demo_membership i u r nominee =
     \<lparr>m_id = i, m_tenantId = ''t'', m_sharedProfileId = ''p'', m_userId = u, m_role = r, m_status = ACTIVE,
      m_pendingOwnerNominee = nominee, m_declaredIncomeCents = 0, m_invitedAt = 0, m_invitationExpiresAt = 100,
      m_joinedAt = Some 0, m_leftAt = None, m_version = 0\<rparr>"

definition demo_profile_row :: shared_profile_row where
  "demo_profile_row = \<lparr>sp_id = ''p'', sp_tenantId = ''t'', sp_name = ''Home'', sp_ownerMembershipId = Some ''a'',
     sp_baseCurrency = ''EUR'', sp_periodLength = MONTHLY, sp_status = PROFILE_ACTIVE, sp_archivedAt = None\<rparr>"

definition demo_household :: "membership_row list \<Rightarrow> db" where
  "demo_household ms = no_rows\<lparr>sharedProfiles := [demo_profile_row], memberships := ms\<rparr>"

definition demo_pair :: "membership_row list" where
  "demo_pair = [demo_membership ''a'' ''ann'' OWNER False, demo_membership ''b'' ''bob'' VIEWER True]"

lemma show_nat_not: "parse_digits 0 s = None \<Longrightarrow> show_nat n \<noteq> s"
  by (metis option.distinct(1) parse_show_nat)

lemma demo_household_fresh:
  assumes "list_all (\<lambda>m. parse_digits 0 (m_id m) = None) ms"
  shows "fresh_ids (demo_household ms)"
proof -
  have ids: "all_ids (demo_household ms) = ''p'' # map m_id ms"
    by (simp add: all_ids_def demo_household_def no_rows_def demo_profile_row_def)
  have p: "parse_digits 0 ''p'' = None" by code_simp
  have "show_nat n \<notin> set (''p'' # map m_id ms)" for n
    using assms show_nat_not [OF p] show_nat_not by (auto simp: list_all_iff)
  then show ?thesis
    using no_rows_fresh by (simp only: fresh_ids_def ids) (simp add: demo_household_def no_rows_def)
qed

lemma demo_pair_governed: "governed (demo_household demo_pair)"
proof -
  have "fresh_ids (demo_household demo_pair)"
    by (rule demo_household_fresh) code_simp
  then show ?thesis
    by (simp add: governed_def keys_ok_def owners_ok_def owner_of_def demo_household_def demo_pair_def
        demo_profile_row_def demo_membership_def)
qed

lemmas demo_household_simps = demo_household_def demo_pair_def demo_profile_row_def demo_membership_def
  demo_owner_def demo_guest_def no_rows_def

lemma demo_transfer: "\<exists>q h. acceptOwnership_tx demo_guest ''p'' (demo_household demo_pair) = (Ok q, h)"
  by (simp add: acceptOwnership_tx_def demo_household_simps findByProfileAndUser_def found_or_def
      listByProfile_def acceptOwnership_def toMembershipState_def Let_def asserted_def findSharedProfile_def
      setOwnerMembershipId_def applyDelta_def update_where_def)

lemma demo_archive: "\<exists>q h. archiveProfile_tx demo_owner ''p'' (demo_household [demo_membership ''a'' ''ann'' OWNER False]) = (Ok q, h)"
  by (simp add: archiveProfile_tx_def demo_household_simps findByProfileAndUser_def found_or_def requireCapability_def
      can_def listByProfile_def archive_def activeMemberCount_def toMembershipState_def toSharedProfileState_def
      Let_def asserted_def findSharedProfile_def archiveProfileRow_def update_where_def)

definition demo_due :: db where
  "demo_due = demo_household [(demo_membership ''c'' ''cid'' VIEWER False)\<lparr>m_status := INVITED, m_invitationExpiresAt := 0\<rparr>]"

lemma demo_expiry: "\<exists>n h. expiry_runForTenant_tx ''t'' demo_due = (Ok n, h)"
  by (simp add: expiry_runForTenant_tx_def split: prod.splits)

subsection \<open>Properties\<close>

text \<open>
  C18: transfer of ownership. When \<open>acceptOwnership\<close> succeeds the caller was an active,
  nominated member of the profile; exactly two memberships change, the caller's to OWNER without
  a nomination and the previous owner's to ADMIN, and in the table of profiles exactly the owner of
  this profile changes, to the caller's membership; the answer is the profile's new row.
\<close>

theorem ownership_transfer:
  assumes "governed g" and "acceptOwnership_tx p sp g = (Ok q, h)"
  shows "\<exists>n w. n \<in> set (memberships g) \<and> w \<in> set (memberships g) \<and> n \<noteq> w \<and> m_userId n = pr_userId p
    \<and> m_sharedProfileId n = sp \<and> m_sharedProfileId w = sp
    \<and> m_pendingOwnerNominee n \<and> m_status n = ACTIVE \<and> m_role w = OWNER
    \<and> memberships h = map (\<lambda>m. if m = n then m\<lparr>m_role := OWNER, m_pendingOwnerNominee := False\<rparr>
        else if m = w then m\<lparr>m_role := ADMIN\<rparr> else m) (memberships g)
    \<and> sharedProfiles h = map (\<lambda>r. if sp_id r = sp then r\<lparr>sp_ownerMembershipId := Some (m_id n)\<rparr> else r)
        (sharedProfiles g)
    \<and> findSharedProfile sp h = Some q \<and> sp_ownerMembershipId q = Some (m_id n)"
  by (rule acceptOwnership_effect [OF assms]) blast

theorem ownership_transfer_witness:
  "\<exists>q h n w. acceptOwnership_tx demo_guest ''p'' (demo_household demo_pair) = (Ok q, h)
    \<and> n \<in> set demo_pair \<and> w \<in> set demo_pair \<and> n \<noteq> w
    \<and> memberships h = map (\<lambda>m. if m = n then m\<lparr>m_role := OWNER, m_pendingOwnerNominee := False\<rparr>
        else if m = w then m\<lparr>m_role := ADMIN\<rparr> else m) demo_pair
    \<and> findSharedProfile ''p'' h = Some q \<and> sp_ownerMembershipId q = Some (m_id n)"
proof -
  obtain q h where r: "acceptOwnership_tx demo_guest ''p'' (demo_household demo_pair) = (Ok q, h)"
    using demo_transfer by blast
  from ownership_transfer [OF demo_pair_governed r] r show ?thesis
    by (auto simp: demo_household_def)
qed

text \<open>
  C34: archival. When \<open>archiveProfile\<close> succeeds the caller is the only active member of the
  profile, the profile is then archived, and from there on inviting anyone into it fails with
  ARCHIVED or FORBIDDEN, as does changing the role of any of its members to any role.
\<close>

theorem archive_by_sole_member:
  assumes "archiveProfile_tx p sp g = (Ok q, h)"
  shows "(\<forall>m \<in> set (memberships g). m_sharedProfileId m = sp \<and> m_status m = ACTIVE \<longrightarrow> m_userId m = pr_userId p)
    \<and> sp_status q = PROFILE_ARCHIVED
    \<and> failed_with (fst (inviteMember_tx p' \<lparr>iv_sharedProfileId = sp, iv_userId = u, iv_role = r\<rparr> h))
        \<in> {Some ARCHIVED_ERROR, Some FORBIDDEN}
    \<and> (\<forall>m. findMembershipById i h = Some m \<and> m_sharedProfileId m = sp \<longrightarrow>
         failed_with (fst (changeMemberRole_tx p' i r v h)) \<in> {Some ARCHIVED_ERROR, Some FORBIDDEN})"
proof -
  have q: "findSharedProfile sp h = Some q" "sp_status q = PROFILE_ARCHIVED"
    using archive_effect [OF assms] by simp_all
  have closed: "assertWritable (toSharedProfileState q) = Err (archived (profile_details (sp_id q)))"
    using q(2) by (simp add: assertWritable_def isWritable_def toSharedProfileState_def)
  have req: "(\<exists>a. requireCapability sp v c h = Ok a) \<or> (\<exists>d. requireCapability sp v c h = Err (forbidden d))" for v c
    by (auto simp: requireCapability_def split: option.splits)
  have "failed_with (fst (inviteMember_tx p' \<lparr>iv_sharedProfileId = sp, iv_userId = u, iv_role = r\<rparr> h))
      \<in> {Some ARCHIVED_ERROR, Some FORBIDDEN}"
    using req [of "pr_userId p'" INVITE_MEMBER] by (auto simp: inviteMember_tx_def q closed found_or_def)
  moreover have "failed_with (fst (changeMemberRole_tx p' i r v h)) \<in> {Some ARCHIVED_ERROR, Some FORBIDDEN}"
    if "findMembershipById i h = Some m" "m_sharedProfileId m = sp" for m
    using req [of "pr_userId p'" CHANGE_MEMBER_ROLE] that
    by (auto simp: changeMemberRole_tx_def q closed found_or_def)
  ultimately show ?thesis using archive_effect(1) [OF assms] q(2) by blast
qed

theorem archive_by_sole_member_witness:
  "\<exists>q h. archiveProfile_tx demo_owner ''p'' (demo_household [demo_membership ''a'' ''ann'' OWNER False]) = (Ok q, h)
     \<and> sp_status q = PROFILE_ARCHIVED
     \<and> failed_with (fst (inviteMember_tx demo_owner \<lparr>iv_sharedProfileId = ''p'', iv_userId = ''bob'', iv_role = VIEWER\<rparr> h))
         \<in> {Some ARCHIVED_ERROR, Some FORBIDDEN}"
  using demo_archive archive_by_sole_member [where p = demo_owner and sp = "''p''"] by blast

text \<open>
  C35: the expiry sweep. One run over a tenant expires exactly the first 500 invitations that are
  due (all of them when there are no more than 500), touches no other membership, and writes one
  InvitationExpired event for each.
\<close>

theorem expiry_sweep_exact:
  assumes "distinct (map m_id (memberships g))" and "expiry_runForTenant_tx t g = (Ok n, h)"
  shows "(let due = take 500 (filter (due_invitation (clock g)) (memberships g)) in
      n = length due
      \<and> memberships h = map (\<lambda>m. if m \<in> set due then m\<lparr>m_status := EXPIRED\<rparr> else m) (memberships g)
      \<and> (\<exists>evs. outboxEvents h = outboxEvents g @ evs \<and> map ev_aggregateId evs = map m_id due
            \<and> list_all (\<lambda>e. ev_eventType e = ''InvitationExpired'') evs))"
proof -
  let ?due = "take 500 (filter (due_invitation (clock g)) (memberships g))"
  have run: "expire_rows t (clock g) ?due 0 g = (n, h)"
    using assms(2) by (simp add: expiry_runForTenant_tx_def split: prod.splits)
  have sub: "r \<in> set (memberships g) \<and> due_invitation (clock g) r" if "r \<in> set ?due" for r
    using set_take_subset that by fastforce
  have "distinct (map m_id (filter (due_invitation (clock g)) (memberships g)))"
    using assms(1) by (rule distinct_map_filter)
  then have dd: "distinct (map m_id ?due)" by (simp add: take_map [symmetric] distinct_take)
  from expire_rows_exact [OF assms(1) dd sub run]
  obtain evs where n: "n = length ?due"
    and ms: "memberships h = update_where (\<lambda>m. m_id m \<in> m_id ` set ?due) (\<lambda>m. m\<lparr>m_status := EXPIRED\<rparr>) (memberships g)"
    and evs: "outboxEvents h = outboxEvents g @ evs" "map ev_aggregateId evs = map m_id ?due"
      "map ev_eventType evs = replicate (length ?due) ''InvitationExpired''"
    by auto
  have "m_id m \<in> m_id ` set ?due \<longleftrightarrow> m \<in> set ?due" if "m \<in> set (memberships g)" for m
  proof
    assume "m_id m \<in> m_id ` set ?due"
    then obtain r where r: "r \<in> set ?due" "m_id r = m_id m" by fastforce
    have "r = m" using r(2) by (intro distinct_key_eq [OF assms(1)] that) (use sub [OF r(1)] in simp_all)
    with r(1) show "m \<in> set ?due" by simp
  qed (rule imageI)
  then have "memberships h = map (\<lambda>m. if m \<in> set ?due then m\<lparr>m_status := EXPIRED\<rparr> else m) (memberships g)"
    unfolding ms update_where_def by (intro map_cong) simp_all
  moreover have "list_all (\<lambda>e. ev_eventType e = ''InvitationExpired'') evs"
  proof -
    have "set (map ev_eventType evs) \<subseteq> {''InvitationExpired''}" unfolding evs(3) by auto
    then show ?thesis by (auto simp: list_all_iff)
  qed
  ultimately show ?thesis using n evs(1,2) by (auto simp: Let_def)
qed

theorem expiry_sweep_exact_witness:
  "\<exists>n h. expiry_runForTenant_tx ''t'' demo_due = (Ok n, h)
     \<and> n = length (take 500 (filter (due_invitation (clock demo_due)) (memberships demo_due)))"
proof -
  obtain n h where r: "expiry_runForTenant_tx ''t'' demo_due = (Ok n, h)" using demo_expiry by blast
  have "distinct (map m_id (memberships demo_due))"
    by (simp add: demo_due_def demo_household_def)
  from expiry_sweep_exact [OF this r] r show ?thesis by (auto simp: Let_def)
qed

end
