(* ===== verification/Cap.thy ===== *)
theory Cap
  imports Errors
begin

section \<open>The cross-profile cap and redistribution sets\<close>

text \<open>
  \<open>src/apps/api/src/modules/contributions/domain/cross-profile-cap.ts\<close> and
  \<open>redistribution.ts\<close>: a member commits at most 100% of an income over all profiles, and
  a redistribution names each membership at most once with a percentage in range.
\<close>

definition FULL_ALLOCATION_BP :: int where
  "FULL_ALLOCATION_BP = 10000"

record profile_commitment =
  pc_sharedProfileId :: uuid
  pc_percentageBp :: int

definition committedTotalBp :: "profile_commitment list \<Rightarrow> int" where
  "committedTotalBp commitments = foldl (\<lambda>acc c. acc + pc_percentageBp c) 0 commitments"

definition remainingBp :: "profile_commitment list \<Rightarrow> int" where
  "remainingBp commitments = max 0 (FULL_ALLOCATION_BP - committedTotalBp commitments)"

text \<open>The range test on a number from outside: an integer from 0 to 10000.\<close>

definition in_bp_range :: "js_number \<Rightarrow> bool" where
  "in_bp_range x = (case x of NonIntegerNum _ \<Rightarrow> False | IntegerNum n \<Rightarrow> 0 \<le> n \<and> n \<le> FULL_ALLOCATION_BP)"

definition checkAllocationWithinCap :: "profile_commitment list \<Rightarrow> uuid \<Rightarrow> js_number \<Rightarrow> unit result" where
  "checkAllocationWithinCap current targetProfileId newBp =
     (if \<not> in_bp_range newBp then Err (validation (Some [(''percentageBp'', json_of_number newBp)]))
      else
        let others = filter (\<lambda>c. pc_sharedProfileId c \<noteq> targetProfileId) current;
            othersTotal = committedTotalBp others;
            bp = (case newBp of IntegerNum n \<Rightarrow> n | NonIntegerNum _ \<Rightarrow> 0)
        in if othersTotal + bp > FULL_ALLOCATION_BP
           then Err (capExceeded (Some [(''remainingBp'', JNum (max 0 (FULL_ALLOCATION_BP - othersTotal))),
                  (''requestedBp'', JNum bp), (''committedElsewhereBp'', JNum othersTotal)]))
           else Ok ())"

record redistribution_allocation =
  ra_membershipId :: uuid
  ra_percentageBp :: js_number

definition nextPlanVersion :: "int option \<Rightarrow> int" where
  "nextPlanVersion currentVersion = (case currentVersion of None \<Rightarrow> 0 | Some v \<Rightarrow> v) + 1"

text \<open>The loop over the set, with the memberships already seen.\<close>

fun validate_loop :: "uuid list \<Rightarrow> redistribution_allocation list \<Rightarrow> unit result" where
  "validate_loop seen [] = Ok ()"
| "validate_loop seen (a # as) =
     (if ra_membershipId a \<in> set seen
      then Err (validation (Some [(''membershipId'', JStr (ra_membershipId a))]))
      else if \<not> in_bp_range (ra_percentageBp a)
      then Err (validation (Some [(''membershipId'', JStr (ra_membershipId a)),
              (''percentageBp'', json_of_number (ra_percentageBp a))]))
      else validate_loop (ra_membershipId a # seen) as)"

definition validateRedistribution :: "redistribution_allocation list \<Rightarrow> unit result" where
  "validateRedistribution allocations =
     (if allocations = [] then Err (validation None) else validate_loop [] allocations)"

text \<open>The integer of a number that passed the range test.\<close>

definition bp_of :: "js_number \<Rightarrow> int" where
  "bp_of x = (case x of IntegerNum n \<Rightarrow> n | NonIntegerNum _ \<Rightarrow> 0)"

lemma in_bp_range_bp: "in_bp_range x \<Longrightarrow> x = IntegerNum (bp_of x) \<and> 0 \<le> bp_of x \<and> bp_of x \<le> 10000"
  by (cases x) (auto simp: in_bp_range_def bp_of_def FULL_ALLOCATION_BP_def)

lemma committedTotalBp_sum: "committedTotalBp cs = sum_list (map pc_percentageBp cs)"
proof -
  have "foldl (\<lambda>acc c. acc + pc_percentageBp c) a cs = a + sum_list (map pc_percentageBp cs)" for a
    by (induction cs arbitrary: a) auto
  then show ?thesis by (simp add: committedTotalBp_def)
qed

lemma checkAllocationWithinCap_Ok:
  "checkAllocationWithinCap current target newBp = Ok u \<longleftrightarrow>
     in_bp_range newBp
     \<and> sum_list (map pc_percentageBp (filter (\<lambda>c. pc_sharedProfileId c \<noteq> target) current)) + bp_of newBp \<le> 10000"
  by (auto simp: checkAllocationWithinCap_def Let_def committedTotalBp_sum bp_of_def FULL_ALLOCATION_BP_def)

lemma checkAllocationWithinCap_not_Thrown: "checkAllocationWithinCap c t b \<noteq> Thrown x"
  by (simp add: checkAllocationWithinCap_def Let_def)

lemma validate_loop_Ok:
  "validate_loop seen as = Ok u \<longleftrightarrow> distinct (map ra_membershipId as)
     \<and> set (map ra_membershipId as) \<inter> set seen = {} \<and> list_all (\<lambda>a. in_bp_range (ra_percentageBp a)) as"
  by (induction as arbitrary: seen) auto

lemma validateRedistribution_Ok:
  "validateRedistribution as = Ok u \<longleftrightarrow>
     as \<noteq> [] \<and> distinct (map ra_membershipId as) \<and> list_all (\<lambda>a. in_bp_range (ra_percentageBp a)) as"
  by (auto simp: validateRedistribution_def validate_loop_Ok)

subsection \<open>Properties\<close>

text \<open>
  C31: the cap decision. Every number a caller may send is decided: a number that is not an integer,
  a negative one and one above 10000 fail with VALIDATION; an integer from 0 to 10000 is allowed
  exactly when, added to what the member has committed in the other profiles, it stays within 10000,
  and fails with CAP_EXCEEDED otherwise, with details that carry exactly the headroom left for this
  profile, which would itself be accepted.
\<close>

theorem cap_decision:
  assumes "list_all (\<lambda>c. 0 \<le> pc_percentageBp c) current"
  shows "(let elsewhere = sum_list (map pc_percentageBp (filter (\<lambda>c. pc_sharedProfileId c \<noteq> target) current));
              decide = checkAllocationWithinCap current target
    in (\<forall>x. failed_with (decide (NonIntegerNum x)) = Some VALIDATION)
     \<and> (\<forall>n. failed_with (decide (IntegerNum n)) = Some VALIDATION \<longleftrightarrow> n < 0 \<or> 10000 < n)
     \<and> (\<forall>n. decide (IntegerNum n) = Ok () \<longleftrightarrow> 0 \<le> n \<and> n \<le> 10000 \<and> elsewhere + n \<le> 10000)
     \<and> (\<forall>n. 0 \<le> n \<and> n \<le> 10000 \<and> 10000 < elsewhere + n \<longrightarrow>
          (\<exists>rest. decide (IntegerNum n)
              = Err (capExceeded (Some ((''remainingBp'', JNum (max 0 (10000 - elsewhere))) # rest)))))
     \<and> (elsewhere \<le> 10000 \<longrightarrow> decide (IntegerNum (10000 - elsewhere)) = Ok ()))"
proof -
  have "0 \<le> sum_list (map pc_percentageBp (filter (\<lambda>c. pc_sharedProfileId c \<noteq> target) current))"
    using assms by (induction current) auto
  then show ?thesis
    by (auto simp: Let_def checkAllocationWithinCap_def committedTotalBp_sum bp_of_def FULL_ALLOCATION_BP_def
        in_bp_range_def validation_def capExceeded_def split: js_number.splits if_splits)
qed

theorem cap_decision_witness:
  "(\<exists>rest. checkAllocationWithinCap [\<lparr>pc_sharedProfileId = ''p'', pc_percentageBp = 4000\<rparr>,
         \<lparr>pc_sharedProfileId = ''q'', pc_percentageBp = 7000\<rparr>] ''p'' (IntegerNum 3001)
     = Err (capExceeded (Some ((''remainingBp'', JNum 3000) # rest))))
   \<and> failed_with (checkAllocationWithinCap [\<lparr>pc_sharedProfileId = ''p'', pc_percentageBp = 4000\<rparr>,
         \<lparr>pc_sharedProfileId = ''q'', pc_percentageBp = 7000\<rparr>] ''p'' (IntegerNum (- 1))) = Some VALIDATION"
  using cap_decision [of "[\<lparr>pc_sharedProfileId = ''p'', pc_percentageBp = 4000\<rparr>,
         \<lparr>pc_sharedProfileId = ''q'', pc_percentageBp = 7000\<rparr>]" "''p''"]
  by (auto simp: Let_def)

end
