(* ===== verification/Contributions.thy ===== *)
theory Contributions
  imports Cap Analytics Profiles
begin

section \<open>Contributions\<close>

text \<open>
  \<open>src/apps/api/src/modules/contributions\<close>: the repository of plans, allocations, periods and
  records, the period life cycle of \<open>period.service.ts\<close>, the use cases of
  \<open>contributions.service.ts\<close> and the rollover job. As in \<open>Profiles\<close>, a definition
  ending in \<open>_tx\<close> is the body of a method's transaction.
\<close>

subsection \<open>Plans and allocations\<close>

definition currentPlan :: "uuid \<Rightarrow> db \<Rightarrow> plan_row option" where
  "currentPlan sp g = find_first_desc plan_version (filter (\<lambda>p. plan_sharedProfileId p = sp) (contributionPlans g))"

definition createPlan :: "string \<Rightarrow> uuid \<Rightarrow> int \<Rightarrow> uuid \<Rightarrow> uuid option \<Rightarrow> db \<Rightarrow> plan_row result \<times> db" where
  "createPlan tenantId sp version createdBy effectiveFromPeriodId g =
     (if list_ex (\<lambda>p. plan_sharedProfileId p = sp \<and> plan_version p = version) (contributionPlans g)
      then (Thrown (UniqueConstraintError ''ContributionPlan''), g)
      else let row = \<lparr>plan_id = new_id g, plan_tenantId = tenantId, plan_sharedProfileId = sp,
                      plan_version = version, plan_effectiveFromPeriodId = effectiveFromPeriodId,
                      plan_createdBy = createdBy\<rparr>
           in (Ok row, used_id (g\<lparr>contributionPlans := contributionPlans g @ [row]\<rparr>)))"

definition planByVersion :: "uuid \<Rightarrow> int \<Rightarrow> db \<Rightarrow> plan_row option" where
  "planByVersion sp version g =
     List.find (\<lambda>p. plan_sharedProfileId p = sp \<and> plan_version p = version) (contributionPlans g)"

definition listAllocations :: "uuid \<Rightarrow> db \<Rightarrow> allocation_row list" where
  "listAllocations planId g = filter (\<lambda>a. alloc_contributionPlanId a = planId) (contributionAllocations g)"

definition allocationFor :: "uuid \<Rightarrow> uuid \<Rightarrow> db \<Rightarrow> allocation_row option" where
  "allocationFor planId membershipId g =
     List.find (\<lambda>a. alloc_contributionPlanId a = planId \<and> alloc_membershipId a = membershipId)
       (contributionAllocations g)"

definition upsertAllocation :: "string \<Rightarrow> uuid \<Rightarrow> uuid \<Rightarrow> int \<Rightarrow> db \<Rightarrow> db" where
  "upsertAllocation tenantId planId membershipId bp g =
     (case allocationFor planId membershipId g of
        None \<Rightarrow>
          used_id (g\<lparr>contributionAllocations := contributionAllocations g @
            [\<lparr>alloc_id = new_id g, alloc_tenantId = tenantId, alloc_contributionPlanId = planId,
              alloc_membershipId = membershipId, alloc_percentageBp = bp, alloc_version = 0\<rparr>]\<rparr>)
      | Some _ \<Rightarrow>
          g\<lparr>contributionAllocations := update_where
              (\<lambda>a. alloc_contributionPlanId a = planId \<and> alloc_membershipId a = membershipId)
              (\<lambda>a. a\<lparr>alloc_percentageBp := bp, alloc_version := alloc_version a + 1\<rparr>)
              (contributionAllocations g)\<rparr>)"

text \<open>One entry per active membership of the user whose profile has a plan.\<close>

definition commitment_of :: "db \<Rightarrow> membership_row \<Rightarrow> profile_commitment list" where
  "commitment_of g m =
     (case currentPlan (m_sharedProfileId m) g of
        None \<Rightarrow> []
      | Some plan \<Rightarrow>
          [\<lparr>pc_sharedProfileId = m_sharedProfileId m,
            pc_percentageBp = (case allocationFor (plan_id plan) (m_id m) g of
                None \<Rightarrow> 0 | Some a \<Rightarrow> alloc_percentageBp a)\<rparr>])"

definition committedByUser :: "uuid \<Rightarrow> db \<Rightarrow> profile_commitment list" where
  "committedByUser userId g =
     concat (map (commitment_of g) (filter (\<lambda>m. m_userId m = userId \<and> m_status m = ACTIVE) (memberships g)))"

subsection \<open>Periods and records\<close>

definition openPeriodOf :: "uuid \<Rightarrow> db \<Rightarrow> period_row option" where
  "openPeriodOf sp g = find_first_desc per_startDate
     (filter (\<lambda>p. per_sharedProfileId p = sp \<and> per_status p = OPEN) (contributionPeriods g))"

definition createPeriod :: "string \<Rightarrow> uuid \<Rightarrow> instant \<Rightarrow> instant \<Rightarrow> int \<Rightarrow> (uuid \<times> string) list \<Rightarrow> db
    \<Rightarrow> period_row \<times> db" where
  "createPeriod tenantId sp startDate endDate planVersion income g =
     (let row = \<lparr>per_id = new_id g, per_tenantId = tenantId, per_sharedProfileId = sp, per_startDate = startDate,
                 per_endDate = endDate, per_status = OPEN, per_planVersionSnapshot = planVersion,
                 per_incomeSnapshot = income\<rparr>
      in (row, used_id (g\<lparr>contributionPeriods := contributionPeriods g @ [row]\<rparr>)))"

definition closePeriod :: "uuid \<Rightarrow> db \<Rightarrow> db" where
  "closePeriod i g = g\<lparr>contributionPeriods :=
     update_where (\<lambda>p. per_id p = i) (\<lambda>p. p\<lparr>per_status := CLOSED\<rparr>) (contributionPeriods g)\<rparr>"

text \<open>The query names no order; the model takes the rows as they were inserted, one of the orders it may answer in.\<close>

definition duePeriods :: "instant \<Rightarrow> db \<Rightarrow> period_row list" where
  "duePeriods now g = take 500 (filter (\<lambda>p. per_status p = OPEN \<and> per_endDate p \<le> now) (contributionPeriods g))"

record create_record_data =
  cr_sharedProfileId :: uuid
  cr_periodId :: uuid
  cr_membershipId :: uuid
  cr_amount :: cents
  cr_sourceAccountId :: "uuid option"

definition createRecord :: "string \<Rightarrow> create_record_data \<Rightarrow> db \<Rightarrow> record_row \<times> db" where
  "createRecord tenantId d g =
     (let row = \<lparr>rec_id = new_id g, rec_tenantId = tenantId, rec_sharedProfileId = cr_sharedProfileId d,
                 rec_periodId = cr_periodId d, rec_membershipId = cr_membershipId d, rec_amount = cr_amount d,
                 rec_recordedAt = clock g, rec_sourceAccountId = cr_sourceAccountId d\<rparr>
      in (row, used_id (g\<lparr>contributionRecords := contributionRecords g @ [row]\<rparr>)))"

text \<open>\<open>groupBy membershipId\<close> with the sum of the amounts.\<close>

definition actualByMember :: "uuid \<Rightarrow> db \<Rightarrow> (uuid \<times> cents) list" where
  "actualByMember periodId g =
     (let rows = filter (\<lambda>r. rec_periodId r = periodId) (contributionRecords g)
      in map (\<lambda>i. (i, sum_list (map rec_amount (filter (\<lambda>r. rec_membershipId r = i) rows))))
           (remdups (map rec_membershipId rows)))"

definition actualForMember :: "uuid \<Rightarrow> uuid \<Rightarrow> db \<Rightarrow> cents" where
  "actualForMember periodId membershipId g =
     sum_list (map rec_amount
       (filter (\<lambda>r. rec_periodId r = periodId \<and> rec_membershipId r = membershipId) (contributionRecords g)))"

definition activeMemberships :: "uuid \<Rightarrow> db \<Rightarrow> membership_row list" where
  "activeMemberships sp g = filter (\<lambda>m. m_sharedProfileId m = sp \<and> m_status m = ACTIVE) (memberships g)"

subsection \<open>The period service\<close>

definition openPeriod :: "string \<Rightarrow> uuid \<Rightarrow> instant \<Rightarrow> instant \<Rightarrow> db \<Rightarrow> period_row \<times> db" where
  "openPeriod tenantId sp startDate endDate g =
     (let planVersion = (case currentPlan sp g of None \<Rightarrow> 0 | Some p \<Rightarrow> plan_version p);
          income = map (\<lambda>m. (m_id m, show_int (m_declaredIncomeCents m))) (activeMemberships sp g);
          (period, g1) = createPeriod tenantId sp startDate endDate planVersion income g
      in (period, emit tenantId ''ContributionPeriodOpened'' ''ContributionPeriod'' (per_id period) None
            [(''sharedProfileId'', JStr sp), (''startDate'', JStr (toISOString startDate)),
             (''endDate'', JStr (toISOString endDate)), (''planVersionSnapshot'', JNum planVersion)] g1))"

definition ensureOpenPeriod :: "string \<Rightarrow> shared_profile_row \<Rightarrow> instant \<Rightarrow> db \<Rightarrow> period_row \<times> db" where
  "ensureOpenPeriod tenantId profile now g =
     (case openPeriodOf (sp_id profile) g of
        Some p \<Rightarrow> (p, g)
      | None \<Rightarrow>
          let w = firstPeriodWindow now (sp_periodLength profile)
          in openPeriod tenantId (sp_id profile) (win_start w) (win_end w) g)"

text \<open>
  \<open>BigInt(cents)\<close> on the strings of the income snapshot, which only \<open>openPeriod\<close>
  writes, in decimal; a string that is not decimal throws.
\<close>

fun snapshot_entries :: "(uuid \<times> int) list \<Rightarrow> (uuid \<times> string) list \<Rightarrow> member_snapshot list result" where
  "snapshot_entries bpByMember [] = Ok []"
| "snapshot_entries bpByMember ((i, c) # es) =
     (case parse_int c of
        None \<Rightarrow> Thrown SyntaxError
      | Some n \<Rightarrow>
          (case snapshot_entries bpByMember es of
             Ok ms \<Rightarrow> Ok (\<lparr>snap_id = i, incomeCents = n,
                percentageBp = (case map_of bpByMember i of None \<Rightarrow> 0 | Some b \<Rightarrow> b)\<rparr> # ms)
           | Err e \<Rightarrow> Err e | Thrown x \<Rightarrow> Thrown x))"

definition snapshotMembers :: "period_row \<Rightarrow> db \<Rightarrow> member_snapshot list result" where
  "snapshotMembers period g =
     (let allocations = (case planByVersion (per_sharedProfileId period) (per_planVersionSnapshot period) g of
            None \<Rightarrow> [] | Some plan \<Rightarrow> listAllocations (plan_id plan) g);
          bpByMember = rev (map (\<lambda>a. (alloc_membershipId a, alloc_percentageBp a)) allocations)
      in snapshot_entries bpByMember (per_incomeSnapshot period))"

text \<open>The sweep's loop over the due periods, and the count of periods it opened.\<close>

fun rollover_loop :: "string \<Rightarrow> instant \<Rightarrow> period_row list \<Rightarrow> nat \<Rightarrow> db \<Rightarrow> nat result \<times> db" where
  "rollover_loop tenantId now [] rolled g = (Ok rolled, g)"
| "rollover_loop tenantId now (period # ps) rolled g =
     (if \<not> isPeriodDue (per_endDate period) now then rollover_loop tenantId now ps rolled g
      else
        and_then (snapshotMembers period g) g (\<lambda>members.
        and_then (reconcile members (actualByMember (per_id period) g)) g (\<lambda>rc.
        let g1 = closePeriod (per_id period) g;
            g2 = emit tenantId ''ContributionPeriodClosed'' ''ContributionPeriod'' (per_id period) None
                   [(''sharedProfileId'', JStr (per_sharedProfileId period)),
                    (''reconciledTotalCents'', JStr (show_int (poolActualCents rc)))] g1
        in case findSharedProfile (per_sharedProfileId period) g2 of
             None \<Rightarrow> rollover_loop tenantId now ps rolled g2
           | Some profile \<Rightarrow>
               if sp_status profile \<noteq> PROFILE_ACTIVE then rollover_loop tenantId now ps rolled g2
               else
                 let w = nextPeriodWindow (per_endDate period) (sp_periodLength profile);
                     (opened, g3) = openPeriod tenantId (per_sharedProfileId period) (win_start w) (win_end w) g2
                 in rollover_loop tenantId now ps (rolled + 1) g3)))"

definition rolloverForTenant_tx :: "string \<Rightarrow> db \<Rightarrow> nat result \<times> db" where
  "rolloverForTenant_tx tenantId g = rollover_loop tenantId (clock g) (duePeriods (clock g) g) 0 g"

definition rolloverForTenant :: "string \<Rightarrow> db \<Rightarrow> nat result \<times> db" where
  "rolloverForTenant tenantId = withTenant tenantId (rolloverForTenant_tx tenantId)"

text \<open>The job: discovery on the plain connection, then one sweep per tenant (as for invitations).\<close>

fun rollover_tenants :: "string list \<Rightarrow> nat \<Rightarrow> db \<Rightarrow> nat result \<times> db" where
  "rollover_tenants [] rolled g = (Ok rolled, g)"
| "rollover_tenants (t # ts) rolled g =
     then_do (rolloverForTenant t g) (\<lambda>n g'. rollover_tenants ts (rolled + n) g')"

definition rollover_run :: "(db \<Rightarrow> db) \<Rightarrow> db \<Rightarrow> nat result \<times> db" where
  "rollover_run discovery g =
     rollover_tenants (take 1000 (remdups (map per_tenantId
        (filter (\<lambda>p. per_status p = OPEN \<and> per_endDate p \<le> clock g) (contributionPeriods (discovery g)))))) 0 g"

subsection \<open>Use cases\<close>

definition selfMember :: "uuid \<Rightarrow> uuid \<Rightarrow> uuid \<Rightarrow> capability \<Rightarrow> db \<Rightarrow> membership_row result" where
  "selfMember sp membershipId userId c g =
     (case findMembershipById membershipId g of
        None \<Rightarrow> Err (forbidden (Some [(''capability'', capability_json c)]))
      | Some m \<Rightarrow>
          if m_sharedProfileId m \<noteq> sp \<or> m_userId m \<noteq> userId
          then Err (forbidden (Some [(''capability'', capability_json c)]))
          else if m_status m \<noteq> ACTIVE then Err (forbidden (Some [(''status'', status_json (m_status m))]))
          else if \<not> can (m_role m) c
          then Err (forbidden (Some [(''capability'', capability_json c), (''role'', role_json (m_role m))]))
          else Ok m)"

record set_declared_income_input =
  si_sharedProfileId :: uuid
  si_membershipId :: uuid
  si_amountCents :: cents

definition setIncome :: "uuid \<Rightarrow> cents \<Rightarrow> db \<Rightarrow> db" where
  "setIncome i c g = g\<lparr>memberships :=
     update_where (\<lambda>m. m_id m = i) (\<lambda>m. m\<lparr>m_declaredIncomeCents := c\<rparr>) (memberships g)\<rparr>"

definition setDeclaredIncome_tx :: "tenant_principal \<Rightarrow> set_declared_income_input \<Rightarrow> db
    \<Rightarrow> membership_row result \<times> db" where
  "setDeclaredIncome_tx p i g =
     and_then (selfMember (si_sharedProfileId i) (si_membershipId i) (pr_userId p) SET_OWN_INCOME g) g (\<lambda>m.
     if si_amountCents i < 0 then (Err (validation None), g)
     else
       let g1 = setIncome (si_membershipId i) (si_amountCents i) g;
           g2 = emit (pr_tenantId p) ''DeclaredIncomeSet'' ''Membership'' (si_membershipId i) (Some (si_membershipId i))
                  [(''sharedProfileId'', JStr (si_sharedProfileId i)),
                   (''amountCents'', JStr (show_int (si_amountCents i)))] g1;
           g3 = audit_write (pr_tenantId p)
                  \<lparr>ar_sharedProfileId = Some (si_sharedProfileId i), ar_actorMembershipId = Some (si_membershipId i),
                   ar_action = ''DeclaredIncomeSet'',
                   ar_beforeValue = Some (JObj [(''declaredIncomeCents'', JStr (show_int (m_declaredIncomeCents m)))]),
                   ar_afterValue = Some (JObj [(''declaredIncomeCents'', JStr (show_int (si_amountCents i)))])\<rparr> g2
       in (asserted (findMembershipById (si_membershipId i) g1), g3))"

definition setDeclaredIncome :: "tenant_principal \<Rightarrow> set_declared_income_input \<Rightarrow> db
    \<Rightarrow> membership_row result \<times> db" where
  "setDeclaredIncome p i = withTenant (pr_tenantId p) (setDeclaredIncome_tx p i)"

record set_allocation_input =
  sa_sharedProfileId :: uuid
  sa_membershipId :: uuid
  sa_percentageBp :: js_number

definition planOrFirst :: "string \<Rightarrow> uuid \<Rightarrow> uuid \<Rightarrow> db \<Rightarrow> plan_row result \<times> db" where
  "planOrFirst tenantId sp createdBy g =
     (case currentPlan sp g of
        Some plan \<Rightarrow> (Ok plan, g)
      | None \<Rightarrow> createPlan tenantId sp 1 createdBy None g)"

definition setAllocation_tx :: "tenant_principal \<Rightarrow> set_allocation_input \<Rightarrow> db \<Rightarrow> plan_row result \<times> db" where
  "setAllocation_tx p i g =
     and_then (selfMember (sa_sharedProfileId i) (sa_membershipId i) (pr_userId p) SET_OWN_ALLOCATION g) g (\<lambda>m.
     and_then (checkAllocationWithinCap (committedByUser (pr_userId p) g) (sa_sharedProfileId i) (sa_percentageBp i)) g (\<lambda>_.
     then_do (planOrFirst (pr_tenantId p) (sa_sharedProfileId i) (sa_membershipId i) g) (\<lambda>plan g1.
       let g2 = upsertAllocation (pr_tenantId p) (plan_id plan) (sa_membershipId i) (bp_of (sa_percentageBp i)) g1;
           g3 = emit (pr_tenantId p) ''AllocationSet'' ''ContributionPlan'' (plan_id plan) (Some (sa_membershipId i))
                  [(''sharedProfileId'', JStr (sa_sharedProfileId i)), (''membershipId'', JStr (sa_membershipId i)),
                   (''percentageBp'', json_of_number (sa_percentageBp i))] g2;
           g4 = audit_write (pr_tenantId p)
                  \<lparr>ar_sharedProfileId = Some (sa_sharedProfileId i), ar_actorMembershipId = Some (sa_membershipId i),
                   ar_action = ''AllocationSet'', ar_beforeValue = None,
                   ar_afterValue = Some (JObj [(''membershipId'', JStr (sa_membershipId i)),
                     (''percentageBp'', json_of_number (sa_percentageBp i))])\<rparr> g3
       in (Ok plan, g4))))"

definition setAllocation :: "tenant_principal \<Rightarrow> set_allocation_input \<Rightarrow> db \<Rightarrow> plan_row result \<times> db" where
  "setAllocation p i = withTenant (pr_tenantId p) (setAllocation_tx p i)"

record record_contribution_input =
  rc_sharedProfileId :: uuid
  rc_membershipId :: uuid
  rc_amountCents :: cents
  rc_sourceAccountId :: "uuid option"

definition recordContribution_tx :: "tenant_principal \<Rightarrow> record_contribution_input \<Rightarrow> db
    \<Rightarrow> record_row result \<times> db" where
  "recordContribution_tx p i g =
     and_then (selfMember (rc_sharedProfileId i) (rc_membershipId i) (pr_userId p) RECORD_CONTRIBUTION g) g (\<lambda>m.
     if rc_amountCents i \<le> 0 then (Err (validation None), g)
     else
     and_then (found_or (notFound None) (findSharedProfile (rc_sharedProfileId i) g)) g (\<lambda>profile.
     if sp_status profile \<noteq> PROFILE_ACTIVE then (Err (archived None), g)
     else
       let (period, g1) = ensureOpenPeriod (pr_tenantId p) profile (clock g) g;
           (r, g2) = createRecord (pr_tenantId p)
              \<lparr>cr_sharedProfileId = rc_sharedProfileId i, cr_periodId = per_id period,
               cr_membershipId = rc_membershipId i, cr_amount = rc_amountCents i,
               cr_sourceAccountId = rc_sourceAccountId i\<rparr> g1;
           g3 = emit (pr_tenantId p) ''ContributionRecorded'' ''ContributionRecord'' (rec_id r) (Some (rc_membershipId i))
                  [(''sharedProfileId'', JStr (rc_sharedProfileId i)), (''periodId'', JStr (per_id period)),
                   (''membershipId'', JStr (rc_membershipId i)), (''amountCents'', JStr (show_int (rc_amountCents i)))] g2;
           g4 = audit_write (pr_tenantId p)
                  \<lparr>ar_sharedProfileId = Some (rc_sharedProfileId i), ar_actorMembershipId = Some (rc_membershipId i),
                   ar_action = ''ContributionRecorded'', ar_beforeValue = None,
                   ar_afterValue = Some (JObj [(''periodId'', JStr (per_id period)),
                     (''amountCents'', JStr (show_int (rc_amountCents i)))])\<rparr> g3
       in (Ok r, g4)))"

definition recordContribution :: "tenant_principal \<Rightarrow> record_contribution_input \<Rightarrow> db
    \<Rightarrow> record_row result \<times> db" where
  "recordContribution p i = withTenant (pr_tenantId p) (recordContribution_tx p i)"

text \<open>The loop that checks every allocation of a redistribution, in the caller's order.\<close>

fun check_redistribution :: "uuid \<Rightarrow> redistribution_allocation list \<Rightarrow> db \<Rightarrow> unit result" where
  "check_redistribution sp [] g = Ok ()"
| "check_redistribution sp (a # as) g =
     (case findMembershipById (ra_membershipId a) g of
        None \<Rightarrow> Err (validation (Some [(''membershipId'', JStr (ra_membershipId a))]))
      | Some m \<Rightarrow>
          if m_sharedProfileId m \<noteq> sp \<or> m_status m \<noteq> ACTIVE
          then Err (validation (Some [(''membershipId'', JStr (ra_membershipId a))]))
          else case checkAllocationWithinCap (committedByUser (m_userId m) g) sp (ra_percentageBp a) of
              Ok _ \<Rightarrow> check_redistribution sp as g
            | Err e \<Rightarrow> Err e
            | Thrown x \<Rightarrow> Thrown x)"

fun upsert_all :: "string \<Rightarrow> uuid \<Rightarrow> redistribution_allocation list \<Rightarrow> db \<Rightarrow> db" where
  "upsert_all tenantId planId [] g = g"
| "upsert_all tenantId planId (a # as) g =
     upsert_all tenantId planId as (upsertAllocation tenantId planId (ra_membershipId a) (bp_of (ra_percentageBp a)) g)"

definition redistribute_tx :: "tenant_principal \<Rightarrow> uuid \<Rightarrow> redistribution_allocation list \<Rightarrow> db
    \<Rightarrow> plan_row result \<times> db" where
  "redistribute_tx p sp allocations g =
     and_then (requireCapability sp (pr_userId p) REDISTRIBUTE_PERCENTAGES g) g (\<lambda>actor.
     and_then (found_or (notFound None) (findSharedProfile sp g)) g (\<lambda>profile.
     if sp_status profile \<noteq> PROFILE_ACTIVE then (Err (archived None), g)
     else
     and_then (validateRedistribution allocations) g (\<lambda>_.
     and_then (check_redistribution sp allocations g) g (\<lambda>_.
     let version = nextPlanVersion (map_option plan_version (currentPlan sp g)) in
     then_do (createPlan (pr_tenantId p) sp version (m_id actor) None g) (\<lambda>plan g1.
       let g2 = upsert_all (pr_tenantId p) (plan_id plan) allocations g1;
           g3 = emit (pr_tenantId p) ''PercentageRedistributed'' ''ContributionPlan'' (plan_id plan) (Some (m_id actor))
                  [(''sharedProfileId'', JStr sp), (''newVersion'', JNum version), (''effectiveFromPeriodId'', JNull)] g2;
           g4 = audit_write (pr_tenantId p)
                  \<lparr>ar_sharedProfileId = Some sp, ar_actorMembershipId = Some (m_id actor),
                   ar_action = ''PercentageRedistributed'', ar_beforeValue = None,
                   ar_afterValue = Some (JObj [(''newVersion'', JNum version), (''allocations'',
                     JArr (map (\<lambda>a. JObj [(''membershipId'', JStr (ra_membershipId a)),
                       (''percentageBp'', json_of_number (ra_percentageBp a))]) allocations))])\<rparr> g3
       in (Ok plan, g4))))))"

definition redistribute :: "tenant_principal \<Rightarrow> uuid \<Rightarrow> redistribution_allocation list \<Rightarrow> db
    \<Rightarrow> plan_row result \<times> db" where
  "redistribute p sp allocations = withTenant (pr_tenantId p) (redistribute_tx p sp allocations)"

definition remainingAllocationPercentageBp :: "tenant_principal \<Rightarrow> db \<Rightarrow> int result \<times> db" where
  "remainingAllocationPercentageBp p =
     withTenant (pr_tenantId p) (\<lambda>g. (Ok (remainingBp (committedByUser (pr_userId p) g)), g))"

end
