(* ===== verification/Commitments.thy ===== *)
theory Commitments
  imports Contributions GovernanceRuns
begin

section \<open>Commitments under the allocation use cases\<close>

text \<open>
  What \<open>setAllocation\<close> and \<open>redistribute\<close> do to the plans and to the percentages the
  members have committed: the keys of the plan tables, the cap of 100% per member over all
  profiles, and the allocations of the versions that periods have already snapshotted.
\<close>

subsection \<open>Well-formed plan tables\<close>

definition plans_ok :: "db \<Rightarrow> bool" where
  "plans_ok g \<longleftrightarrow> fresh_ids g
     \<and> distinct (map m_id (memberships g))
     \<and> distinct (map (\<lambda>m. (m_sharedProfileId m, m_userId m)) (memberships g))
     \<and> distinct (map plan_id (contributionPlans g))
     \<and> distinct (map (\<lambda>p. (plan_sharedProfileId p, plan_version p)) (contributionPlans g))
     \<and> distinct (map (\<lambda>a. (alloc_contributionPlanId a, alloc_membershipId a)) (contributionAllocations g))
     \<and> (\<forall>a \<in> set (contributionAllocations g). alloc_contributionPlanId a \<in> plan_id ` set (contributionPlans g))
     \<and> (\<forall>a \<in> set (contributionAllocations g). 0 \<le> alloc_percentageBp a \<and> alloc_percentageBp a \<le> 10000)"

definition commit_bp :: "db \<Rightarrow> membership_row \<Rightarrow> int" where
  "commit_bp g m = sum_list (map pc_percentageBp (commitment_of g m))"

definition active_of :: "uuid \<Rightarrow> db \<Rightarrow> membership_row list" where
  "active_of u g = filter (\<lambda>m. m_userId m = u \<and> m_status m = ACTIVE) (memberships g)"

definition committed :: "uuid \<Rightarrow> db \<Rightarrow> int" where
  "committed u g = committedTotalBp (committedByUser u g)"

lemma committed_sum: "committed u g = sum_list (map (commit_bp g) (active_of u g))"
proof -
  have "sum_list (map pc_percentageBp (concat (map (commitment_of g) ms))) = sum_list (map (commit_bp g) ms)" for ms
    by (induction ms) (simp_all add: commit_bp_def)
  then show ?thesis
    by (simp add: committed_def committedTotalBp_sum committedByUser_def active_of_def)
qed

lemma commitment_profile: "c \<in> set (commitment_of g m) \<Longrightarrow> pc_sharedProfileId c = m_sharedProfileId m"
  by (auto simp: commitment_of_def split: option.splits)

lemma committed_elsewhere:
  "sum_list (map pc_percentageBp (filter (\<lambda>c. pc_sharedProfileId c \<noteq> sp) (committedByUser u g)))
     = sum_list (map (commit_bp g) (filter (\<lambda>m. m_sharedProfileId m \<noteq> sp) (active_of u g)))"
proof -
  have "filter (\<lambda>c. pc_sharedProfileId c \<noteq> sp) (commitment_of g m)
      = (if m_sharedProfileId m \<noteq> sp then commitment_of g m else [])" for m
    using commitment_profile by (auto simp: filter_id_conv filter_empty_conv)
  then have "sum_list (map pc_percentageBp (filter (\<lambda>c. pc_sharedProfileId c \<noteq> sp) (concat (map (commitment_of g) ms))))
      = sum_list (map (commit_bp g) (filter (\<lambda>m. m_sharedProfileId m \<noteq> sp) ms))" for ms
    by (induction ms) (simp_all add: commit_bp_def)
  then show ?thesis by (simp add: committedByUser_def active_of_def)
qed

lemma commit_bp_eq: "commit_bp g m = (case currentPlan (m_sharedProfileId m) g of None \<Rightarrow> 0
    | Some plan \<Rightarrow> (case allocationFor (plan_id plan) (m_id m) g of None \<Rightarrow> 0 | Some a \<Rightarrow> alloc_percentageBp a))"
  by (simp add: commit_bp_def commitment_of_def split: option.splits)

lemma allocationFor_SomeD:
  "allocationFor pl m g = Some a \<Longrightarrow>
     a \<in> set (contributionAllocations g) \<and> alloc_contributionPlanId a = pl \<and> alloc_membershipId a = m"
  unfolding allocationFor_def by (drule find_SomeD) simp

lemma commit_bp_nonneg: "plans_ok g \<Longrightarrow> 0 \<le> commit_bp g m"
  by (auto simp: commit_bp_eq plans_ok_def split: option.splits dest!: allocationFor_SomeD)

lemma currentPlan_SomeD:
  "currentPlan sp g = Some p \<Longrightarrow> p \<in> set (contributionPlans g) \<and> plan_sharedProfileId p = sp
     \<and> (\<forall>q \<in> set (contributionPlans g). plan_sharedProfileId q = sp \<longrightarrow> plan_version q \<le> plan_version p)"
  unfolding currentPlan_def by (drule find_first_desc_Some) auto

lemma currentPlan_None: "currentPlan sp g = None \<longleftrightarrow> (\<forall>q \<in> set (contributionPlans g). plan_sharedProfileId q \<noteq> sp)"
  by (auto simp: currentPlan_def filter_empty_conv)

subsection \<open>A new plan\<close>

definition latest_version :: "uuid \<Rightarrow> db \<Rightarrow> int" where
  "latest_version sp g = (case currentPlan sp g of None \<Rightarrow> 0 | Some p \<Rightarrow> plan_version p)"

lemma nextPlanVersion_latest: "nextPlanVersion (map_option plan_version (currentPlan sp g)) = latest_version sp g + 1"
  by (simp add: nextPlanVersion_def latest_version_def split: option.splits)

lemma version_le_latest:
  "q \<in> set (contributionPlans g) \<Longrightarrow> plan_sharedProfileId q = sp \<Longrightarrow> plan_version q \<le> latest_version sp g"
  using currentPlan_SomeD [of sp g] currentPlan_None [of sp g]
  by (auto simp: latest_version_def split: option.splits)

lemma createPlan_Ok: "createPlan t sp v by_id ef g = (Ok row, h) \<longleftrightarrow>
    \<not> list_ex (\<lambda>p. plan_sharedProfileId p = sp \<and> plan_version p = v) (contributionPlans g)
    \<and> row = \<lparr>plan_id = new_id g, plan_tenantId = t, plan_sharedProfileId = sp, plan_version = v,
          plan_effectiveFromPeriodId = ef, plan_createdBy = by_id\<rparr>
    \<and> h = used_id (g\<lparr>contributionPlans := contributionPlans g @ [row]\<rparr>)"
  by (auto simp: createPlan_def Let_def)

lemma new_plan_id: "fresh_ids g \<Longrightarrow> new_id g \<notin> plan_id ` set (contributionPlans g)"
  using fresh_ids_new [of g] by (simp add: all_ids_def)

lemma createPlan_current:
  assumes "createPlan t sp v by_id ef g = (Ok row, h)" and "latest_version sp g < v"
  shows "currentPlan sp h = Some row" and "sp' \<noteq> sp \<Longrightarrow> currentPlan sp' h = currentPlan sp' g"
    and "plans_ok g \<Longrightarrow> plans_ok h" and "memberships h = memberships g"
    and "contributionAllocations h = contributionAllocations g"
proof -
  have row: "plan_sharedProfileId row = sp" "plan_version row = v" "plan_id row = new_id g"
    and h: "h = used_id (g\<lparr>contributionPlans := contributionPlans g @ [row]\<rparr>)"
    using assms(1) by (simp_all add: createPlan_Ok)
  show "memberships h = memberships g" and "contributionAllocations h = contributionAllocations g"
    by (simp_all add: h)
  show "currentPlan sp h = Some row"
    unfolding currentPlan_def
    by (rule find_first_desc_unique) (use row assms(2) version_le_latest [of _ g sp] in \<open>force simp: h\<close>)+
  show "sp' \<noteq> sp \<Longrightarrow> currentPlan sp' h = currentPlan sp' g" by (simp add: currentPlan_def h row)
  assume ok: "plans_ok g"
  then have "fresh_ids h" unfolding h by (intro fresh_insert [of g]) (simp_all add: plans_ok_def all_ids_add row)
  moreover have "plan_id row \<notin> plan_id ` set (contributionPlans g)"
    using ok new_plan_id by (simp add: plans_ok_def row)
  moreover have "(sp, v) \<notin> (\<lambda>p. (plan_sharedProfileId p, plan_version p)) ` set (contributionPlans g)"
    using version_le_latest [of _ g sp] assms(2) by fastforce
  ultimately show "plans_ok h" using ok row by (auto simp: plans_ok_def h)
qed

subsection \<open>Upserting an allocation\<close>

lemma upsertAllocation_frame [simp]:
  "memberships (upsertAllocation t pl m b g) = memberships g"
  "contributionPlans (upsertAllocation t pl m b g) = contributionPlans g"
  "contributionPeriods (upsertAllocation t pl m b g) = contributionPeriods g"
  "contributionRecords (upsertAllocation t pl m b g) = contributionRecords g"
  "sharedProfiles (upsertAllocation t pl m b g) = sharedProfiles g"
  "outboxEvents (upsertAllocation t pl m b g) = outboxEvents g"
  "auditEntries (upsertAllocation t pl m b g) = auditEntries g"
  "clock (upsertAllocation t pl m b g) = clock g"
  by (simp_all add: upsertAllocation_def split: option.splits)

lemma currentPlan_cong: "contributionPlans h = contributionPlans g \<Longrightarrow> currentPlan sp h = currentPlan sp g"
  by (simp add: currentPlan_def)

lemma upsert_other:
  "(pl', m') \<noteq> (pl, m) \<Longrightarrow> allocationFor pl' m' (upsertAllocation t pl m b g) = allocationFor pl' m' g"
proof (cases "allocationFor pl m g")
  case None
  then show "(pl', m') \<noteq> (pl, m) \<Longrightarrow> ?thesis"
    by (auto simp: upsertAllocation_def allocationFor_def find_append split: option.splits)
next
  case (Some a)
  assume "(pl', m') \<noteq> (pl, m)"
  then have "List.find (\<lambda>a. alloc_contributionPlanId a = pl' \<and> alloc_membershipId a = m')
      (update_where (\<lambda>a. alloc_contributionPlanId a = pl \<and> alloc_membershipId a = m)
        (\<lambda>a. a\<lparr>alloc_percentageBp := b, alloc_version := alloc_version a + 1\<rparr>) (contributionAllocations g))
    = List.find (\<lambda>a. alloc_contributionPlanId a = pl' \<and> alloc_membershipId a = m') (contributionAllocations g)"
    by (intro find_update_where_other) auto
  then show ?thesis using Some by (simp add: upsertAllocation_def) (simp add: allocationFor_def)
qed

lemma upsert_same: "map_option alloc_percentageBp (allocationFor pl m (upsertAllocation t pl m b g)) = Some b"
  unfolding upsertAllocation_def
  by (auto simp: allocationFor_def find_append find_update_where_same split: option.splits)

lemma plans_ok_upsert:
  assumes "plans_ok g" and "pl \<in> plan_id ` set (contributionPlans g)" and "0 \<le> b" and "b \<le> 10000"
  shows "plans_ok (upsertAllocation t pl m b g)"
proof (cases "allocationFor pl m g")
  case None
  then have "(pl, m) \<notin> (\<lambda>a. (alloc_contributionPlanId a, alloc_membershipId a)) ` set (contributionAllocations g)"
    by (auto simp: allocationFor_def dest: find_NoneD)
  moreover have "fresh_ids (upsertAllocation t pl m b g)"
    using assms(1) None unfolding upsertAllocation_def
    by simp (rule fresh_insert [of g], simp_all add: plans_ok_def all_ids_add)
  ultimately show ?thesis
    using assms None by (auto simp: plans_ok_def) (auto simp: upsertAllocation_def)
next
  case (Some a)
  have "fresh_ids (upsertAllocation t pl m b g)"
    using assms(1) Some unfolding upsertAllocation_def
    by simp (rule fresh_same [of g], simp_all add: plans_ok_def all_ids_replace map_update_where)
  then show ?thesis
    using assms Some
    by (simp add: plans_ok_def) (auto simp: upsertAllocation_def map_update_where set_update_where)
qed

subsection \<open>The commitments after an upsert and after a new plan\<close>

lemma allocationFor_cong:
  "contributionAllocations h = contributionAllocations g \<Longrightarrow> allocationFor pl m h = allocationFor pl m g"
  by (simp add: allocationFor_def)

lemma commit_bp_cong:
  "contributionPlans h = contributionPlans g \<Longrightarrow> contributionAllocations h = contributionAllocations g
     \<Longrightarrow> commit_bp h m = commit_bp g m"
  by (simp add: commit_bp_eq currentPlan_cong [of h g] allocationFor_cong [of h g] cong: option.case_cong)

lemma plan_ids_differ:
  "plans_ok g \<Longrightarrow> currentPlan sp g = Some p \<Longrightarrow> currentPlan sp' g = Some p' \<Longrightarrow> sp \<noteq> sp' \<Longrightarrow> plan_id p \<noteq> plan_id p'"
  unfolding plans_ok_def by (auto dest!: currentPlan_SomeD simp: distinct_map inj_on_def)

lemma currentPlan_upsert [simp]: "currentPlan sp (upsertAllocation t pl m b g) = currentPlan sp g"
  by (simp add: currentPlan_def)

lemma commit_upsert:
  assumes "plans_ok g" and "currentPlan sp g = Some plan"
  shows "commit_bp (upsertAllocation t (plan_id plan) i b g) m
     = (if m_sharedProfileId m = sp \<and> m_id m = i then b else commit_bp g m)"
proof (cases "m_sharedProfileId m = sp \<and> m_id m = i")
  case True
  with assms show ?thesis
    using upsert_same [of "plan_id plan" i t b g] by (auto simp: commit_bp_eq split: option.splits)
next
  case False
  show ?thesis
  proof (cases "currentPlan (m_sharedProfileId m) g")
    case None
    with False assms(2) show ?thesis by (auto simp: commit_bp_eq)
  next
    case (Some q)
    then have "(plan_id q, m_id m) \<noteq> (plan_id plan, i)"
      using False assms plan_ids_differ [OF assms Some] by (cases "m_sharedProfileId m = sp") auto
    from upsert_other [OF this] Some False show ?thesis by (auto simp: commit_bp_eq)
  qed
qed

lemma commit_createPlan:
  assumes ok: "plans_ok g" and new: "createPlan t sp v by_id ef g = (Ok row, h)" "latest_version sp g < v"
  shows "commit_bp h m = (if m_sharedProfileId m = sp then 0 else commit_bp g m)"
proof -
  note cur = createPlan_current [OF new]
  have "plan_id row \<notin> plan_id ` set (contributionPlans g)"
    using ok new_plan_id new(1) by (simp add: plans_ok_def createPlan_Ok)
  then have "\<forall>a \<in> set (contributionAllocations g). alloc_contributionPlanId a \<noteq> plan_id row"
    using ok unfolding plans_ok_def by metis
  then have "allocationFor (plan_id row) i h = None" for i
    using cur(5) by (auto simp: allocationFor_def find_None_iff)
  then show ?thesis
    using cur(1,2,5) by (auto simp: commit_bp_eq allocationFor_def split: option.splits)
qed

lemma upsert_all_frame [simp]:
  "memberships (upsert_all t pl as g) = memberships g"
  "contributionPlans (upsert_all t pl as g) = contributionPlans g"
  "contributionPeriods (upsert_all t pl as g) = contributionPeriods g"
  "contributionRecords (upsert_all t pl as g) = contributionRecords g"
  "sharedProfiles (upsert_all t pl as g) = sharedProfiles g"
  "clock (upsert_all t pl as g) = clock g"
  by (induction as arbitrary: g) simp_all

lemma upsert_all_ok:
  assumes "plans_ok g" and "currentPlan sp g = Some plan" and "distinct (map ra_membershipId as)"
    and "list_all (\<lambda>a. in_bp_range (ra_percentageBp a)) as"
  shows "plans_ok (upsert_all t (plan_id plan) as g)
    \<and> (\<forall>m. commit_bp (upsert_all t (plan_id plan) as g) m
        = (if m_sharedProfileId m = sp
           then case List.find (\<lambda>a. ra_membershipId a = m_id m) as of
                  None \<Rightarrow> commit_bp g m | Some a \<Rightarrow> bp_of (ra_percentageBp a)
           else commit_bp g m))"
  using assms
proof (induction as arbitrary: g)
  case Nil
  then show ?case by simp
next
  case (Cons a as)
  let ?h = "upsertAllocation t (plan_id plan) (ra_membershipId a) (bp_of (ra_percentageBp a)) g"
  have "plan_id plan \<in> plan_id ` set (contributionPlans g)"
    using currentPlan_SomeD [OF Cons.prems(2)] by blast
  then have ok: "plans_ok ?h"
    using Cons.prems in_bp_range_bp by (intro plans_ok_upsert) auto
  have "List.find (\<lambda>b. ra_membershipId b = ra_membershipId a) as = None"
    using Cons.prems(3) by (auto simp: find_None_iff) (metis imageI)
  then show ?case
    using Cons.IH [OF ok] Cons.prems
    by (auto simp: commit_upsert [OF Cons.prems(1,2)] split: option.splits)
qed

subsection \<open>The cap\<close>

definition within_cap :: "db \<Rightarrow> bool" where
  "within_cap g \<longleftrightarrow> (\<forall>u. committed u g \<le> 10000)"

definition plans_within_cap :: "db \<Rightarrow> bool" where
  "plans_within_cap g \<longleftrightarrow> plans_ok g \<and> within_cap g"

definition elsewhere :: "uuid \<Rightarrow> uuid \<Rightarrow> db \<Rightarrow> int" where
  "elsewhere u sp g = sum_list (map (commit_bp g) (filter (\<lambda>m. m_sharedProfileId m \<noteq> sp) (active_of u g)))"

lemma elsewhere_cong:
  assumes "memberships h = memberships g" and "\<And>m. m_sharedProfileId m \<noteq> sp \<Longrightarrow> commit_bp h m = commit_bp g m"
  shows "elsewhere u sp h = elsewhere u sp g"
proof -
  have "map (commit_bp h) (filter (\<lambda>m. m_sharedProfileId m \<noteq> sp) ms)
      = map (commit_bp g) (filter (\<lambda>m. m_sharedProfileId m \<noteq> sp) ms)" for ms
    using assms(2) by simp
  moreover have "active_of u h = active_of u g" by (simp add: active_of_def assms(1))
  ultimately show ?thesis unfolding elsewhere_def by metis
qed

lemma committed_split:
  assumes "plans_ok g" and "m \<in> set (active_of u g)" and "m_sharedProfileId m = sp"
  shows "committed u g = elsewhere u sp g + commit_bp g m"
proof -
  have "distinct (map (\<lambda>m. (m_sharedProfileId m, m_userId m)) (active_of u g))"
    using assms(1) by (auto simp: plans_ok_def active_of_def intro: distinct_map_filter)
  moreover have "\<forall>n \<in> set (active_of u g). m_userId n = u" by (simp add: active_of_def)
  moreover have "sum_list (map f ms) = sum_list (map f (filter (\<lambda>m. m_sharedProfileId m \<noteq> sp) ms)) + f m"
    if "distinct (map (\<lambda>m. (m_sharedProfileId m, m_userId m)) ms)" "\<forall>n \<in> set ms. m_userId n = u" "m \<in> set ms"
    for f :: "membership_row \<Rightarrow> int" and ms
    using that
  proof (induction ms)
    case (Cons n ms)
    show ?case
    proof (cases "n = m")
      case True
      then have "(sp, u) \<notin> (\<lambda>m. (m_sharedProfileId m, m_userId m)) ` set ms" using Cons.prems assms(3) by auto
      then have "\<forall>q \<in> set ms. m_sharedProfileId q \<noteq> sp" using Cons.prems(2) by (auto simp: image_iff)
      then have "filter (\<lambda>m. m_sharedProfileId m \<noteq> sp) ms = ms" by (simp add: filter_id_conv)
      with True assms(3) show ?thesis by simp
    next
      case False
      then have "m \<in> set ms" using Cons.prems by simp
      moreover from this have "(sp, u) \<in> (\<lambda>m. (m_sharedProfileId m, m_userId m)) ` set ms"
        using Cons.prems(2) assms(3) by (force simp: image_iff)
      then have "m_sharedProfileId n \<noteq> sp" using Cons.prems by auto
      ultimately show ?thesis using Cons by simp
    qed
  qed simp
  ultimately show ?thesis using assms(2) unfolding committed_sum elsewhere_def by blast
qed

lemma committed_absent:
  "\<forall>m \<in> set (active_of u g). m_sharedProfileId m \<noteq> sp \<Longrightarrow> committed u g = elsewhere u sp g"
  by (simp add: committed_sum elsewhere_def)

lemma sum_list_filter_le: "(\<And>x. 0 \<le> (f x :: int)) \<Longrightarrow> sum_list (map f (filter P xs)) \<le> sum_list (map f xs)"
  by (induction xs) (auto intro: add_mono add_increasing)

lemma elsewhere_le: "plans_ok g \<Longrightarrow> elsewhere u sp g \<le> committed u g"
  unfolding committed_sum elsewhere_def by (intro sum_list_filter_le commit_bp_nonneg)

lemma plans_ok_cong:
  assumes "plans_ok g" and "fresh_ids h" and "memberships h = memberships g"
    and "contributionPlans h = contributionPlans g" and "contributionAllocations h = contributionAllocations g"
  shows "plans_ok h"
  using assms by (simp add: plans_ok_def)

lemma plans_within_cap_cong:
  assumes "plans_within_cap g" and "fresh_ids h" and "memberships h = memberships g"
    and "contributionPlans h = contributionPlans g" and "contributionAllocations h = contributionAllocations g"
  shows "plans_within_cap h"
proof -
  have "commit_bp h m = commit_bp g m" for m by (rule commit_bp_cong [OF assms(4,5)])
  then have "commit_bp h = commit_bp g" by (rule ext)
  moreover have "active_of u h = active_of u g" for u by (simp add: active_of_def assms(3))
  ultimately have "committed u h = committed u g" for u by (simp add: committed_sum)
  then show ?thesis using assms plans_ok_cong [of g h] by (simp add: plans_within_cap_def within_cap_def)
qed

lemma plans_fresh: "plans_ok g \<Longrightarrow> fresh_ids g"
  by (simp add: plans_ok_def)

lemma plans_within_cap_fresh: "plans_within_cap g \<Longrightarrow> fresh_ids g"
  by (simp add: plans_within_cap_def plans_fresh)

lemma plans_within_cap_writers:
  "plans_within_cap g \<Longrightarrow> plans_within_cap (emit t et at ai ac pl g)"
  "plans_within_cap g \<Longrightarrow> plans_within_cap (audit_write t r g)"
  by (rule plans_within_cap_cong [of g]; simp add: fresh_emit fresh_audit plans_within_cap_fresh)+

text \<open>
  The core of both use cases: the commitments of one profile change, each changed one is
  within what its user has left.
\<close>

lemma within_cap_step:
  assumes "within_cap g" and "plans_ok g" and "plans_ok h" and mem: "memberships h = memberships g"
    and other: "\<And>m. m_sharedProfileId m \<noteq> sp \<Longrightarrow> commit_bp h m = commit_bp g m"
    and this_one: "\<And>m. m \<in> set (memberships g) \<Longrightarrow> m_sharedProfileId m = sp \<Longrightarrow> m_status m = ACTIVE \<Longrightarrow>
        commit_bp h m \<le> commit_bp g m \<or> elsewhere (m_userId m) sp g + commit_bp h m \<le> 10000"
  shows "within_cap h"
  unfolding within_cap_def
proof
  fix u
  have act: "active_of u h = active_of u g" by (simp add: active_of_def mem)
  have els: "elsewhere u sp h = elsewhere u sp g" by (rule elsewhere_cong [OF mem other])
  have le: "committed u g \<le> 10000" using assms(1) by (simp add: within_cap_def)
  show "committed u h \<le> 10000"
  proof (cases "\<exists>m \<in> set (active_of u g). m_sharedProfileId m = sp")
    case True
    then obtain m where m: "m \<in> set (active_of u g)" "m_sharedProfileId m = sp" by blast
    then have "committed u h = elsewhere u sp g + commit_bp h m" "committed u g = elsewhere u sp g + commit_bp g m"
      using committed_split [OF assms(3), of m u sp] committed_split [OF assms(2) m] act els by simp_all
    moreover have "m \<in> set (memberships g)" "m_status m = ACTIVE" "m_userId m = u"
      using m by (simp_all add: active_of_def)
    ultimately show ?thesis using this_one [of m] m(2) le by auto
  next
    case False
    then have "committed u h = elsewhere u sp g" using committed_absent [of u h sp] act els by simp
    then show ?thesis using elsewhere_le [OF assms(2), of u sp] le by simp
  qed
qed

lemma check_elsewhere:
  "checkAllocationWithinCap (committedByUser u g) sp b = Ok v \<Longrightarrow>
     in_bp_range b \<and> elsewhere u sp g + bp_of b \<le> 10000"
  by (simp add: checkAllocationWithinCap_Ok committed_elsewhere elsewhere_def)

lemma find_member: "plans_ok g \<Longrightarrow> m \<in> set (memberships g) \<Longrightarrow> findMembershipById i g = Some n \<Longrightarrow> m_id m = i \<Longrightarrow> n = m"
  unfolding plans_ok_def findMembershipById_def by (auto dest!: find_SomeD dest: distinct_key_eq)

lemma selfMember_Ok:
  "selfMember sp i u c g = Ok m \<longleftrightarrow> findMembershipById i g = Some m \<and> m_sharedProfileId m = sp \<and> m_userId m = u
     \<and> m_status m = ACTIVE \<and> can (m_role m) c"
  by (auto simp: selfMember_def split: option.splits)

lemma planOrFirst_facts:
  assumes "planOrFirst t sp i g = (Ok plan, h)" and "plans_ok g"
  shows "plans_ok h" and "currentPlan sp h = Some plan" and "memberships h = memberships g"
    and "commit_bp h = commit_bp g"
proof -
  have "plans_ok h \<and> currentPlan sp h = Some plan \<and> memberships h = memberships g \<and> commit_bp h = commit_bp g"
  proof (cases "currentPlan sp g")
    case None
    then have new: "createPlan t sp 1 i None g = (Ok plan, h)" using assms(1) by (simp add: planOrFirst_def)
    have v: "latest_version sp g < 1" using None by (simp add: latest_version_def)
    have "commit_bp h m = commit_bp g m" for m
      using commit_createPlan [OF assms(2) new v, of m] None by (auto simp: commit_bp_eq)
    then show ?thesis using createPlan_current [OF new v] assms(2) by (simp add: fun_eq_iff)
  next
    case (Some p)
    with assms show ?thesis by (simp add: planOrFirst_def)
  qed
  then show "plans_ok h" and "currentPlan sp h = Some plan" and "memberships h = memberships g"
    and "commit_bp h = commit_bp g" by simp_all
qed

lemma planOrFirst_Err: "planOrFirst t sp i g \<noteq> (Err e, h)"
  by (auto simp: planOrFirst_def createPlan_def Let_def split: option.splits)

lemma setAllocation_commits:
  assumes "plans_within_cap g"
  shows "commits plans_within_cap (setAllocation_tx p i g)"
proof -
  have step: "plans_within_cap (upsertAllocation t (plan_id plan) (sa_membershipId i) (bp_of (sa_percentageBp i)) h)"
    if self: "selfMember (sa_sharedProfileId i) (sa_membershipId i) (pr_userId p) SET_OWN_ALLOCATION g = Ok m"
      and chk: "checkAllocationWithinCap (committedByUser (pr_userId p) g) (sa_sharedProfileId i) (sa_percentageBp i) = Ok v"
      and pl: "planOrFirst t (sa_sharedProfileId i) (sa_membershipId i) g = (Ok plan, h)" for m v t plan h
  proof -
    let ?sp = "sa_sharedProfileId i" and ?b = "bp_of (sa_percentageBp i)"
    let ?k = "upsertAllocation t (plan_id plan) (sa_membershipId i) ?b h"
    have ok: "plans_ok g" "within_cap g" using assms by (simp_all add: plans_within_cap_def)
    note facts = planOrFirst_facts [OF pl ok(1)]
    have rng: "0 \<le> ?b" "?b \<le> 10000" and room: "elsewhere (pr_userId p) ?sp g + ?b \<le> 10000"
      using check_elsewhere [OF chk] in_bp_range_bp by auto
    have k_ok: "plans_ok ?k"
      using currentPlan_SomeD [OF facts(2)] by (intro plans_ok_upsert [OF facts(1)] rng) blast
    have after: "commit_bp ?k n = (if m_sharedProfileId n = ?sp \<and> m_id n = sa_membershipId i then ?b else commit_bp g n)" for n
      by (simp add: commit_upsert [OF facts(1,2)] facts(4))
    have "within_cap ?k"
    proof (rule within_cap_step [OF ok(2,1) k_ok, of ?sp])
      fix n assume n: "n \<in> set (memberships g)" "m_sharedProfileId n = ?sp"
      show "commit_bp ?k n \<le> commit_bp g n \<or> elsewhere (m_userId n) ?sp g + commit_bp ?k n \<le> 10000"
      proof (cases "m_id n = sa_membershipId i")
        case True
        then have "m = n" using find_member [OF ok(1) n(1) _ True] self by (simp add: selfMember_Ok)
        then have "m_userId n = pr_userId p" using self by (simp add: selfMember_Ok)
        with after n True room show ?thesis by simp
      qed (simp add: after)
    qed (simp_all add: after facts(3))
    with k_ok show ?thesis by (simp add: plans_within_cap_def)
  qed
  show ?thesis unfolding setAllocation_tx_def Let_def
    by (intro commits_and_then commits_then_do commits_result)
      (use assms in \<open>auto intro!: plans_within_cap_writers step simp: planOrFirst_Err\<close>)
qed

lemma check_redistribution_Ok:
  "check_redistribution sp as g = Ok u \<Longrightarrow> a \<in> set as \<Longrightarrow>
     \<exists>m v. findMembershipById (ra_membershipId a) g = Some m \<and> m_sharedProfileId m = sp \<and> m_status m = ACTIVE
       \<and> checkAllocationWithinCap (committedByUser (m_userId m) g) sp (ra_percentageBp a) = Ok v"
  by (induction as) (auto split: option.splits if_splits result.splits)

lemma redistribute_step:
  assumes "plans_within_cap g" and val: "validateRedistribution as = Ok v"
    and chk: "check_redistribution sp as g = Ok v'"
    and new: "createPlan t sp (nextPlanVersion (map_option plan_version (currentPlan sp g))) by_id ef g = (Ok plan, h)"
  shows "plans_within_cap (upsert_all t' (plan_id plan) as h)"
proof -
  let ?k = "upsert_all t' (plan_id plan) as h"
  have ok: "plans_ok g" "within_cap g" using assms(1) by (simp_all add: plans_within_cap_def)
  have v: "latest_version sp g < nextPlanVersion (map_option plan_version (currentPlan sp g))"
    by (simp add: nextPlanVersion_latest)
  note cur = createPlan_current [OF new v]
  have as: "distinct (map ra_membershipId as)" "list_all (\<lambda>a. in_bp_range (ra_percentageBp a)) as"
    using val by (simp_all add: validateRedistribution_Ok)
  from upsert_all_ok [OF cur(3) [OF ok(1)] cur(1) as, of t'] have k_ok: "plans_ok ?k"
    and after: "\<And>m. commit_bp ?k m = (if m_sharedProfileId m = sp
        then case List.find (\<lambda>a. ra_membershipId a = m_id m) as of None \<Rightarrow> 0 | Some a \<Rightarrow> bp_of (ra_percentageBp a)
        else commit_bp g m)"
    by (simp_all add: commit_createPlan [OF ok(1) new v] split: option.splits)
  have "within_cap ?k"
  proof (rule within_cap_step [OF ok(2,1) k_ok, of sp])
    fix n assume n: "n \<in> set (memberships g)" "m_sharedProfileId n = sp"
    show "commit_bp ?k n \<le> commit_bp g n \<or> elsewhere (m_userId n) sp g + commit_bp ?k n \<le> 10000"
    proof (cases "List.find (\<lambda>a. ra_membershipId a = m_id n) as")
      case None
      then show ?thesis using commit_bp_nonneg [OF ok(1)] n(2) by (simp add: after)
    next
      case (Some a)
      then have a: "a \<in> set as" "ra_membershipId a = m_id n" by (auto dest: find_SomeD)
      obtain m w where m: "findMembershipById (ra_membershipId a) g = Some m"
        "checkAllocationWithinCap (committedByUser (m_userId m) g) sp (ra_percentageBp a) = Ok w"
        using check_redistribution_Ok [OF chk a(1)] by blast
      have "m = n" by (rule find_member [OF ok(1) n(1) m(1)]) (simp add: a(2))
      then show ?thesis using check_elsewhere [OF m(2)] Some n(2) by (simp add: after)
    qed
  qed (simp_all add: after cur(4))
  with k_ok show ?thesis by (simp add: plans_within_cap_def)
qed

lemma createPlan_Err: "createPlan t sp v i ef g \<noteq> (Err e, h)"
  by (simp add: createPlan_def Let_def)

lemma redistribute_commits:
  assumes "plans_within_cap g"
  shows "commits plans_within_cap (redistribute_tx p sp as g)"
  unfolding redistribute_tx_def Let_def
  by (intro commits_and_then commits_then_do commits_if commits_result)
    (use assms in \<open>auto intro!: plans_within_cap_writers redistribute_step simp: createPlan_Err\<close>)

subsection \<open>What a period has snapshotted\<close>

lemma listAllocations_upsert_other:
  assumes "pl' \<noteq> pl"
  shows "listAllocations pl' (upsertAllocation t pl m b g) = listAllocations pl' g"
proof (cases "allocationFor pl m g")
  case None
  with assms show ?thesis by (simp add: upsertAllocation_def) (simp add: listAllocations_def)
next
  case (Some a)
  then show ?thesis using assms unfolding upsertAllocation_def
    by simp (auto simp: listAllocations_def intro!: filter_update_where_other)
qed

lemma listAllocations_upsert_all_other:
  "pl' \<noteq> pl \<Longrightarrow> listAllocations pl' (upsert_all t pl as g) = listAllocations pl' g"
  by (induction as arbitrary: g) (simp_all add: listAllocations_upsert_other)

lemma listAllocations_upsert_new:
  assumes "allocationFor pl m g = None"
  shows "map (\<lambda>a. (alloc_membershipId a, alloc_percentageBp a)) (listAllocations pl (upsertAllocation t pl m b g))
    = map (\<lambda>a. (alloc_membershipId a, alloc_percentageBp a)) (listAllocations pl g) @ [(m, b)]"
  using assms by (simp add: upsertAllocation_def) (simp add: listAllocations_def)

lemma listAllocations_upsert_all:
  "distinct (map ra_membershipId as) \<Longrightarrow> (\<And>a. a \<in> set as \<Longrightarrow> allocationFor pl (ra_membershipId a) g = None) \<Longrightarrow>
   map (\<lambda>a. (alloc_membershipId a, alloc_percentageBp a)) (listAllocations pl (upsert_all t pl as g))
     = map (\<lambda>a. (alloc_membershipId a, alloc_percentageBp a)) (listAllocations pl g)
       @ map (\<lambda>a. (ra_membershipId a, bp_of (ra_percentageBp a))) as"
proof (induction as arbitrary: g)
  case Nil
  then show ?case by simp
next
  case (Cons a as)
  let ?h = "upsertAllocation t pl (ra_membershipId a) (bp_of (ra_percentageBp a)) g"
  have "allocationFor pl (ra_membershipId b) ?h = None" if "b \<in> set as" for b
  proof -
    have "ra_membershipId b \<noteq> ra_membershipId a" using that Cons.prems(1) by (auto simp: image_iff)
    then show ?thesis using Cons.prems(2) [of b] that by (simp add: upsert_other)
  qed
  with Cons.IH [of ?h] Cons.prems show ?case by (simp add: listAllocations_upsert_new)
qed

lemma planByVersion_SomeD:
  "planByVersion sp v g = Some q \<Longrightarrow> q \<in> set (contributionPlans g) \<and> plan_sharedProfileId q = sp \<and> plan_version q = v"
  unfolding planByVersion_def by (drule find_SomeD) simp

lemma planByVersion_new:
  assumes "createPlan t sp v i ef g = (Ok row, h)" and "sp' = sp \<longrightarrow> v' \<noteq> v"
  shows "planByVersion sp' v' h = planByVersion sp' v' g"
  using assms by (auto simp: createPlan_Ok planByVersion_def find_append split: option.splits)

lemma snapshotMembers_cong:
  "contributionPlans h = contributionPlans g \<Longrightarrow> contributionAllocations h = contributionAllocations g
     \<Longrightarrow> snapshotMembers p h = snapshotMembers p g"
  by (simp add: snapshotMembers_def planByVersion_def listAllocations_def cong: option.case_cong)

lemma redistribute_Ok:
  assumes "redistribute_tx p sp as g = (Ok plan, h)"
  obtains by_id k where "validateRedistribution as = Ok ()" "check_redistribution sp as g = Ok ()"
    "createPlan (pr_tenantId p) sp (latest_version sp g + 1) by_id None g = (Ok plan, k)"
    "contributionPlans h = contributionPlans k"
    "contributionAllocations h = contributionAllocations (upsert_all (pr_tenantId p) (plan_id plan) as k)"
  using assms unfolding redistribute_tx_def Let_def use_case_Ok nextPlanVersion_latest by auto

lemma setAllocation_Ok:
  assumes "setAllocation_tx p i g = (Ok plan, h)"
  obtains m k where
    "selfMember (sa_sharedProfileId i) (sa_membershipId i) (pr_userId p) SET_OWN_ALLOCATION g = Ok m"
    "checkAllocationWithinCap (committedByUser (pr_userId p) g) (sa_sharedProfileId i) (sa_percentageBp i) = Ok ()"
    "planOrFirst (pr_tenantId p) (sa_sharedProfileId i) (sa_membershipId i) g = (Ok plan, k)"
    "contributionPlans h = contributionPlans k"
    "contributionAllocations h = contributionAllocations
       (upsertAllocation (pr_tenantId p) (plan_id plan) (sa_membershipId i) (bp_of (sa_percentageBp i)) k)"
  using assms unfolding setAllocation_tx_def Let_def use_case_Ok by auto

text \<open>Every version up to the latest keeps its allocations when a new version is installed.\<close>

lemma snapshot_kept:
  assumes "plans_ok g" and new: "createPlan t sp (latest_version sp g + 1) i ef g = (Ok plan, k)"
    and old: "per_planVersionSnapshot period \<le> latest_version (per_sharedProfileId period) g"
    and plans: "contributionPlans h = contributionPlans k"
    and allocs: "contributionAllocations h = contributionAllocations (upsert_all t' (plan_id plan) as k)"
  shows "snapshotMembers period h = snapshotMembers period g"
proof -
  have same: "planByVersion (per_sharedProfileId period) (per_planVersionSnapshot period) k
      = planByVersion (per_sharedProfileId period) (per_planVersionSnapshot period) g"
    using old by (intro planByVersion_new [OF new]) auto
  have list: "listAllocations (plan_id q) (upsert_all t' (plan_id plan) as k) = listAllocations (plan_id q) g"
    if "planByVersion (per_sharedProfileId period) (per_planVersionSnapshot period) g = Some q" for q
  proof -
    have "plan_id q \<in> plan_id ` set (contributionPlans g)" using planByVersion_SomeD [OF that] by blast
    moreover have "plan_id plan \<notin> plan_id ` set (contributionPlans g)"
      using new new_plan_id assms(1) by (simp add: plans_ok_def createPlan_Ok)
    ultimately have "plan_id q \<noteq> plan_id plan" by metis
    moreover have "contributionAllocations k = contributionAllocations g"
      by (rule createPlan_current(5) [OF new]) simp
    ultimately show ?thesis by (simp add: listAllocations_upsert_all_other) (simp add: listAllocations_def)
  qed
  have "snapshotMembers period h = snapshotMembers period (upsert_all t' (plan_id plan) as k)"
    by (rule snapshotMembers_cong) (simp_all add: plans allocs)
  also have "\<dots> = snapshotMembers period g"
    using same list by (auto simp: snapshotMembers_def planByVersion_def split: option.splits)
  finally show ?thesis .
qed

lemma dangling_free:
  assumes "plans_ok g" and "createPlan t sp v i ef g = (Ok plan, k)" and "latest_version sp g < v"
  shows "allocationFor (plan_id plan) m k = None" and "listAllocations (plan_id plan) k = []"
proof -
  have "plan_id plan \<notin> plan_id ` set (contributionPlans g)"
    using assms(1,2) new_plan_id by (simp add: plans_ok_def createPlan_Ok)
  then have "\<forall>a \<in> set (contributionAllocations k). alloc_contributionPlanId a \<noteq> plan_id plan"
    using assms(1) createPlan_current(5) [OF assms(2,3)] unfolding plans_ok_def by metis
  then show "allocationFor (plan_id plan) m k = None" and "listAllocations (plan_id plan) k = []"
    by (auto simp: allocationFor_def listAllocations_def find_None_iff filter_empty_conv)
qed

text \<open>An allocation row of the plan a period snapshotted is what the period's members are read from.\<close>

lemma snapshot_entries_ids:
  "list_all (\<lambda>(i, c). parse_int c \<noteq> None) es \<Longrightarrow> \<exists>ms. snapshot_entries bps es = Ok ms \<and> map snap_id ms = map fst es"
  by (induction es) auto

lemma snapshotMembers_ids:
  "list_all (\<lambda>(i, c). parse_int c \<noteq> None) (per_incomeSnapshot period) \<Longrightarrow>
     \<exists>ms. snapshotMembers period g = Ok ms \<and> map snap_id ms = map fst (per_incomeSnapshot period)"
  unfolding snapshotMembers_def Let_def by (rule snapshot_entries_ids)

lemma snapshot_entries_bp:
  "snapshot_entries bps es = Ok ms \<Longrightarrow> s \<in> set ms \<Longrightarrow>
     percentageBp s = (case map_of bps (snap_id s) of None \<Rightarrow> 0 | Some b \<Rightarrow> b)"
  by (induction es arbitrary: ms) (auto split: option.splits result.splits)

lemma snapshot_bp:
  assumes "snapshotMembers period g = Ok ms" and "s \<in> set ms"
    and "planByVersion (per_sharedProfileId period) (per_planVersionSnapshot period) g = Some plan"
    and a: "allocationFor (plan_id plan) (snap_id s) g = Some a" and "plans_ok g"
  shows "percentageBp s = alloc_percentageBp a"
proof -
  let ?rows = "listAllocations (plan_id plan) g"
  let ?kv = "map (\<lambda>a. (alloc_membershipId a, alloc_percentageBp a)) ?rows"
  have "distinct (map (\<lambda>a. (alloc_contributionPlanId a, alloc_membershipId a)) ?rows)"
    unfolding listAllocations_def using assms(5) by (auto simp: plans_ok_def intro: distinct_map_filter)
  moreover have "\<forall>a \<in> set ?rows. alloc_contributionPlanId a = plan_id plan" by (simp add: listAllocations_def)
  ultimately have "distinct (map alloc_membershipId ?rows)" by (simp add: distinct_map inj_on_def)
  then have d: "distinct (map fst ?kv)" by (simp add: comp_def)
  have "(snap_id s, alloc_percentageBp a) \<in> set ?kv"
    using allocationFor_SomeD [OF a] by (force simp: listAllocations_def image_iff)
  with d have "map_of (rev ?kv) (snap_id s) = Some (alloc_percentageBp a)"
    by (intro map_of_is_SomeI) (simp_all add: rev_map [symmetric])
  moreover have "snapshot_entries (rev ?kv) (per_incomeSnapshot period) = Ok ms"
    using assms(1,3) by (simp add: snapshotMembers_def)
  ultimately show ?thesis using snapshot_entries_bp [of "rev ?kv" _ ms s] assms(2) by simp
qed

subsection \<open>A concrete household with a plan\<close>

definition demo_period :: period_row where
  "demo_period = \<lparr>per_id = ''x'', per_tenantId = ''t'', per_sharedProfileId = ''p'', per_startDate = 0,
     per_endDate = 2678400000, per_status = OPEN, per_planVersionSnapshot = 1,
     per_incomeSnapshot = [(''a'', show_int 100000), (''b'', show_int 40000)]\<rparr>"

definition demo_plan :: plan_row where
  "demo_plan = \<lparr>plan_id = ''l'', plan_tenantId = ''t'', plan_sharedProfileId = ''p'', plan_version = 1,
     plan_effectiveFromPeriodId = None, plan_createdBy = ''a''\<rparr>"

definition demo_planned :: db where
  "demo_planned = (demo_household demo_pair)\<lparr>contributionPlans := [demo_plan],
     contributionAllocations := [\<lparr>alloc_id = ''y'', alloc_tenantId = ''t'', alloc_contributionPlanId = ''l'',
        alloc_membershipId = ''a'', alloc_percentageBp = 5000, alloc_version = 0\<rparr>],
     contributionPeriods := [demo_period]\<rparr>"

lemma demo_planned_ok: "plans_ok demo_planned"
proof -
  have ids: "all_ids demo_planned = [''p'', ''a'', ''b'', ''l'', ''y'', ''x'']"
    by (simp add: all_ids_def demo_planned_def demo_plan_def demo_period_def demo_household_simps)
  have "show_nat n \<notin> set [''p'', ''a'', ''b'', ''l'', ''y'', ''x'']" for n
  proof -
    have "list_all (\<lambda>s. parse_digits 0 s = None) [''p'', ''a'', ''b'', ''l'', ''y'', ''x'']" by code_simp
    then show ?thesis using show_nat_not by (auto simp: list_all_iff)
  qed
  then have "fresh_ids demo_planned"
    using no_rows_fresh by (simp only: fresh_ids_def ids) (simp add: demo_planned_def demo_household_def no_rows_def)
  then show ?thesis
    by (simp add: plans_ok_def) (simp add: demo_planned_def demo_plan_def demo_household_simps)
qed

lemmas demo_planned_simps = demo_planned_def demo_plan_def demo_period_def demo_household_simps

lemma demo_redistribute: "\<exists>plan h. redistribute_tx demo_owner ''p''
    [\<lparr>ra_membershipId = ''b'', ra_percentageBp = IntegerNum 2500\<rparr>] demo_planned = (Ok plan, h)"
  by (simp add: redistribute_tx_def demo_planned_simps requireCapability_def findByProfileAndUser_def can_def
      found_or_def findSharedProfile_def validateRedistribution_def in_bp_range_def FULL_ALLOCATION_BP_def
      findMembershipById_def checkAllocationWithinCap_def committedByUser_def commitment_of_def currentPlan_def
      allocationFor_def committedTotalBp_def createPlan_def nextPlanVersion_def Let_def)

subsection \<open>Properties\<close>

text \<open>
  C27: redistribution is forward only. A redistribution that succeeds installs the next plan version,
  with exactly the percentages it was given (everyone else falls to 0), as the current plan, and no
  period that snapshotted an earlier version sees a member's percentage move.
\<close>

theorem redistribution_forward_only:
  assumes "plans_ok g" and "redistribute_tx p sp as g = (Ok plan, h)"
  shows "currentPlan sp h = Some plan \<and> plan_version plan = latest_version sp g + 1
    \<and> map (\<lambda>a. (alloc_membershipId a, alloc_percentageBp a)) (listAllocations (plan_id plan) h)
        = map (\<lambda>a. (ra_membershipId a, bp_of (ra_percentageBp a))) as
    \<and> (per_planVersionSnapshot period \<le> latest_version (per_sharedProfileId period) g \<longrightarrow>
        snapshotMembers period h = snapshotMembers period g)"
proof -
  obtain i k where val: "validateRedistribution as = Ok ()"
    and new: "createPlan (pr_tenantId p) sp (latest_version sp g + 1) i None g = (Ok plan, k)"
    and h: "contributionPlans h = contributionPlans k"
      "contributionAllocations h = contributionAllocations (upsert_all (pr_tenantId p) (plan_id plan) as k)"
    using assms(2) by (rule redistribute_Ok)
  note cur = createPlan_current [OF new]
  have "currentPlan sp h = Some plan" using cur(1) currentPlan_cong [OF h(1)] by simp
  moreover have "plan_version plan = latest_version sp g + 1" using new by (simp add: createPlan_Ok)
  moreover have "map (\<lambda>a. (alloc_membershipId a, alloc_percentageBp a)) (listAllocations (plan_id plan) h)
      = map (\<lambda>a. (ra_membershipId a, bp_of (ra_percentageBp a))) as"
    using listAllocations_upsert_all [of as "plan_id plan" k] dangling_free [OF assms(1) new] val h(2)
    by (simp add: validateRedistribution_Ok listAllocations_def)
  ultimately show ?thesis using snapshot_kept [OF assms(1) new _ h] by blast
qed

text \<open>
  Setting one's own percentage acts on the plan in force. It writes the percentage into the
  current plan version, so every period that snapshotted that version, the open one included,
  computes the member's expected contribution from the new percentage. The specification asks for
  edits that take effect from the next period on (FR-016a), which only a redistribution does.
\<close>

lemma setAllocation_in_place:
  assumes "plans_ok g" and "setAllocation_tx p i g = (Ok plan, h)"
    and "planByVersion (per_sharedProfileId period) (per_planVersionSnapshot period) h = Some plan"
    and "snapshotMembers period h = Ok ms" and "s \<in> set ms" and "snap_id s = sa_membershipId i"
  shows "percentageBp s = bp_of (sa_percentageBp i) \<and> (\<forall>q. currentPlan (sa_sharedProfileId i) g = Some q \<longrightarrow> q = plan)"
proof -
  obtain m k where chk: "checkAllocationWithinCap (committedByUser (pr_userId p) g) (sa_sharedProfileId i) (sa_percentageBp i) = Ok ()"
    and pl: "planOrFirst (pr_tenantId p) (sa_sharedProfileId i) (sa_membershipId i) g = (Ok plan, k)"
    and h: "contributionPlans h = contributionPlans k" "contributionAllocations h = contributionAllocations
       (upsertAllocation (pr_tenantId p) (plan_id plan) (sa_membershipId i) (bp_of (sa_percentageBp i)) k)"
    using assms(2) by (rule setAllocation_Ok)
  let ?k = "upsertAllocation (pr_tenantId p) (plan_id plan) (sa_membershipId i) (bp_of (sa_percentageBp i)) k"
  note facts = planOrFirst_facts [OF pl assms(1)]
  have "plans_ok ?k"
    using currentPlan_SomeD [OF facts(2)] check_elsewhere [OF chk] in_bp_range_bp
    by (intro plans_ok_upsert [OF facts(1)]) auto
  moreover obtain a where "allocationFor (plan_id plan) (sa_membershipId i) ?k = Some a" "alloc_percentageBp a = bp_of (sa_percentageBp i)"
    using upsert_same [of "plan_id plan" "sa_membershipId i" "pr_tenantId p" "bp_of (sa_percentageBp i)" k] by blast
  moreover have "planByVersion (per_sharedProfileId period) (per_planVersionSnapshot period) ?k = Some plan"
    using assms(3) h(1) by (simp add: planByVersion_def)
  moreover have "snapshotMembers period ?k = Ok ms"
    using assms(4) snapshotMembers_cong [of ?k h period] h by simp
  ultimately have "percentageBp s = bp_of (sa_percentageBp i)"
    using snapshot_bp [of period ?k ms s plan a] assms(5,6) by simp
  moreover have "\<forall>q. currentPlan (sa_sharedProfileId i) g = Some q \<longrightarrow> q = plan"
    using pl by (auto simp: planOrFirst_def)
  ultimately show ?thesis by blast
qed

theorem redistribution_forward_only_witness:
  "\<exists>plan h. redistribute_tx demo_owner ''p'' [\<lparr>ra_membershipId = ''b'', ra_percentageBp = IntegerNum 2500\<rparr>] demo_planned = (Ok plan, h)
     \<and> map (\<lambda>a. (alloc_membershipId a, alloc_percentageBp a)) (listAllocations (plan_id plan) h) = [(''b'', 2500)]
     \<and> snapshotMembers demo_period h = snapshotMembers demo_period demo_planned"
proof -
  have old: "per_planVersionSnapshot demo_period \<le> latest_version (per_sharedProfileId demo_period) demo_planned"
    by (simp add: latest_version_def currentPlan_def demo_planned_simps)
  obtain plan h where r: "redistribute_tx demo_owner ''p''
      [\<lparr>ra_membershipId = ''b'', ra_percentageBp = IntegerNum 2500\<rparr>] demo_planned = (Ok plan, h)"
    using demo_redistribute by blast
  from redistribution_forward_only [OF demo_planned_ok r, of demo_period] old r show ?thesis
    by (auto simp: bp_of_def)
qed

end
