(* ===== verification/Ledger.thy ===== *)
theory Ledger
  imports Commitments
begin

section \<open>The ledger of periods and records\<close>

text \<open>
  The contribution periods of a profile, in the order they were opened, form a chain: each starts
  where its predecessor ends, only the last can be open. This theory states the chain and shows
  that opening, closing, recording and the rollover sweep keep it, and what each of them does.
\<close>

subsection \<open>Chains of periods\<close>

definition follows :: "period_row \<Rightarrow> period_row \<Rightarrow> bool" where
  "follows a b \<longleftrightarrow> per_endDate a = per_startDate b \<and> per_status a = CLOSED"

definition period_chain :: "period_row list \<Rightarrow> bool" where
  "period_chain ps \<longleftrightarrow> successively follows ps \<and> (\<forall>p \<in> set ps. per_startDate p < per_endDate p)"

lemma chain_Nil [simp]: "period_chain []"
  by (simp add: period_chain_def)

lemma chain_snoc: "period_chain (ps @ [p]) \<longleftrightarrow>
    period_chain ps \<and> per_startDate p < per_endDate p \<and> (ps \<noteq> [] \<longrightarrow> follows (last ps) p)"
  by (auto simp: period_chain_def successively_append_iff)

lemma chain_before:
  "period_chain (ps @ [p]) \<Longrightarrow> q \<in> set ps \<Longrightarrow> per_status q = CLOSED \<and> per_endDate q \<le> per_startDate p"
proof (induction ps arbitrary: p q rule: rev_induct)
  case Nil
  then show ?case by simp
next
  case (snoc r ps)
  from snoc.prems(1) have r: "period_chain (ps @ [r])" "follows r p" "per_startDate r < per_endDate r"
    using chain_snoc [of "ps @ [r]" p] by (simp_all add: chain_snoc)
  show ?case
  proof (cases "q \<in> set ps")
    case True
    from snoc.IH [OF r(1) this] r(2,3) show ?thesis by (simp add: follows_def)
  next
    case False
    then show ?thesis using snoc.prems(2) r(2) by (simp add: follows_def)
  qed
qed

text \<open>Two different periods of a chain do not overlap.\<close>

lemma chain_disjoint:
  assumes "period_chain ps" and "i < j" and "j < length ps"
  shows "per_endDate (ps ! i) \<le> per_startDate (ps ! j)"
proof -
  have t: "take (Suc j) ps = take j ps @ [ps ! j]" using assms(3) by (rule take_Suc_conv_app_nth)
  have "period_chain (take (Suc j) ps)"
    using assms(1) by (metis append_take_drop_id in_set_takeD period_chain_def successively_append_iff)
  moreover have "ps ! i \<in> set (take j ps)" using assms by (auto simp: in_set_conv_nth)
  ultimately show ?thesis unfolding t by (blast dest: chain_before)
qed

lemma chain_open:
  assumes "period_chain ps"
  shows "filter (\<lambda>p. per_status p = OPEN) ps = (if ps \<noteq> [] \<and> per_status (last ps) = OPEN then [last ps] else [])"
proof (cases ps rule: rev_cases)
  case Nil
  then show ?thesis by simp
next
  case (snoc qs q)
  then have "filter (\<lambda>p. per_status p = OPEN) qs = []"
    using assms chain_before [of qs q] by (auto simp: filter_empty_conv)
  with snoc show ?thesis by simp
qed

definition close_row :: "uuid \<Rightarrow> period_row \<Rightarrow> period_row" where
  "close_row i p = (if per_id p = i then p\<lparr>per_status := CLOSED\<rparr> else p)"

lemma close_row_simps [simp]:
  "per_id (close_row i p) = per_id p" "per_startDate (close_row i p) = per_startDate p"
  "per_endDate (close_row i p) = per_endDate p" "per_sharedProfileId (close_row i p) = per_sharedProfileId p"
  "per_planVersionSnapshot (close_row i p) = per_planVersionSnapshot p"
  "per_incomeSnapshot (close_row i p) = per_incomeSnapshot p"
  by (simp_all add: close_row_def)

lemma close_row_status: "per_status (close_row i p) = (if per_id p = i then CLOSED else per_status p)"
  by (simp add: close_row_def)

lemma closePeriod_rows: "contributionPeriods (closePeriod i g) = map (close_row i) (contributionPeriods g)"
  by (simp add: closePeriod_def update_where_def close_row_def cong: if_cong)

lemma chain_close: "period_chain ps \<Longrightarrow> period_chain (map (close_row i) ps)"
  unfolding period_chain_def
  by (auto simp: successively_map follows_def close_row_status elim!: successively_mono)

subsection \<open>Well-formed periods\<close>

definition periods_of :: "uuid \<Rightarrow> db \<Rightarrow> period_row list" where
  "periods_of sp g = filter (\<lambda>p. per_sharedProfileId p = sp) (contributionPeriods g)"

definition profile_active :: "uuid \<Rightarrow> db \<Rightarrow> bool" where
  "profile_active sp g \<longleftrightarrow> (\<exists>p. findSharedProfile sp g = Some p \<and> sp_status p = PROFILE_ACTIVE)"

text \<open>The snapshots of a period: decimal incomes of distinct members, a version that exists or 0.\<close>

definition snapshots_ok :: "db \<Rightarrow> period_row \<Rightarrow> bool" where
  "snapshots_ok g p \<longleftrightarrow> list_all (\<lambda>(i, c). parse_int c \<noteq> None) (per_incomeSnapshot p)
     \<and> distinct (map fst (per_incomeSnapshot p))
     \<and> per_planVersionSnapshot p \<le> latest_version (per_sharedProfileId p) g"

definition records_ok :: "db \<Rightarrow> bool" where
  "records_ok g \<longleftrightarrow> (\<forall>r \<in> set (contributionRecords g). 0 < rec_amount r
     \<and> (\<exists>p \<in> set (contributionPeriods g). per_id p = rec_periodId r \<and> per_sharedProfileId p = rec_sharedProfileId r))"

definition periods_wf :: "db \<Rightarrow> bool" where
  "periods_wf g \<longleftrightarrow> distinct (map per_id (contributionPeriods g))
     \<and> (\<forall>sp. period_chain (periods_of sp g))
     \<and> list_all (snapshots_ok g) (contributionPeriods g)
     \<and> records_ok g"

text \<open>A profile in use has an open period from its first contribution on.\<close>

definition live :: "db \<Rightarrow> uuid \<Rightarrow> bool" where
  "live g sp \<longleftrightarrow> (profile_active sp g \<longrightarrow> periods_of sp g = [] \<or> per_status (last (periods_of sp g)) = OPEN)"

definition ledger_ok :: "db \<Rightarrow> bool" where
  "ledger_ok g \<longleftrightarrow> plans_ok g \<and> periods_wf g \<and> (\<forall>sp. live g sp)"

lemma openPeriodOf_last:
  assumes "periods_wf g"
  shows "openPeriodOf sp g = (if periods_of sp g \<noteq> [] \<and> per_status (last (periods_of sp g)) = OPEN
      then Some (last (periods_of sp g)) else None)"
proof -
  have "filter (\<lambda>p. per_sharedProfileId p = sp \<and> per_status p = OPEN) (contributionPeriods g)
      = filter (\<lambda>p. per_status p = OPEN) (periods_of sp g)"
    by (simp add: periods_of_def conj_commute)
  moreover have "period_chain (periods_of sp g)" using assms by (simp add: periods_wf_def)
  ultimately show ?thesis by (simp add: openPeriodOf_def chain_open)
qed

lemma closePeriod_frame [simp]:
  "memberships (closePeriod i g) = memberships g"
  "contributionPlans (closePeriod i g) = contributionPlans g"
  "contributionAllocations (closePeriod i g) = contributionAllocations g"
  "contributionRecords (closePeriod i g) = contributionRecords g"
  "sharedProfiles (closePeriod i g) = sharedProfiles g"
  "clock (closePeriod i g) = clock g"
  by (simp_all add: closePeriod_def)

lemma latest_version_cong: "contributionPlans h = contributionPlans g \<Longrightarrow> latest_version sp h = latest_version sp g"
  by (simp add: latest_version_def currentPlan_def)

lemma profile_active_cong: "sharedProfiles h = sharedProfiles g \<Longrightarrow> profile_active sp h = profile_active sp g"
  by (simp add: profile_active_def findSharedProfile_def)

lemma periods_of_close: "periods_of sp (closePeriod i g) = map (close_row i) (periods_of sp g)"
  by (simp add: periods_of_def closePeriod_rows filter_map comp_def)

lemma snapshots_ok_cong:
  "contributionPlans h = contributionPlans g \<Longrightarrow> snapshots_ok h p = snapshots_ok g p"
  by (simp add: snapshots_ok_def latest_version_cong [of h g])

lemma snapshots_ok_close: "snapshots_ok g (close_row i p) = snapshots_ok g p"
  by (simp add: snapshots_ok_def)

lemma records_ok_cong:
  assumes "records_ok g" and "contributionRecords h = contributionRecords g"
    and "set (map (\<lambda>p. (per_id p, per_sharedProfileId p)) (contributionPeriods g))
      \<subseteq> set (map (\<lambda>p. (per_id p, per_sharedProfileId p)) (contributionPeriods h))"
  shows "records_ok h"
  unfolding records_ok_def
proof (intro ballI conjI)
  fix r assume r: "r \<in> set (contributionRecords h)"
  then show "0 < rec_amount r" using assms(1,2) by (simp add: records_ok_def)
  have "(rec_periodId r, rec_sharedProfileId r) \<in> set (map (\<lambda>p. (per_id p, per_sharedProfileId p)) (contributionPeriods g))"
    using r assms(1,2) by (force simp: records_ok_def)
  then have "(rec_periodId r, rec_sharedProfileId r) \<in> set (map (\<lambda>p. (per_id p, per_sharedProfileId p)) (contributionPeriods h))"
    using assms(3) by blast
  then show "\<exists>p\<in>set (contributionPeriods h). per_id p = rec_periodId r \<and> per_sharedProfileId p = rec_sharedProfileId r"
    by auto
qed

lemma wf_records: "periods_wf g \<Longrightarrow> records_ok g"
  by (simp add: periods_wf_def)

lemma close_wf:
  assumes "periods_wf g"
  shows "periods_wf (closePeriod i g)"
proof -
  have "records_ok (closePeriod i g)"
    by (rule records_ok_cong [OF wf_records [OF assms]]) (simp_all add: closePeriod_rows image_image)
  then show ?thesis
    using assms snapshots_ok_cong [of "closePeriod i g" g]
    by (simp add: periods_wf_def periods_of_close chain_close closePeriod_rows list_all_iff snapshots_ok_close comp_def)
qed

lemma close_fresh: "fresh_ids g \<Longrightarrow> fresh_ids (closePeriod i g)"
  unfolding closePeriod_def by (rule fresh_same [of g]) (simp_all add: all_ids_replace map_update_where)

lemma plans_ok_close: "plans_ok g \<Longrightarrow> plans_ok (closePeriod i g)"
  by (rule plans_ok_cong [of g]) (simp_all add: close_fresh plans_fresh)

lemma live_close_other: "sp \<noteq> sp' \<Longrightarrow> p \<in> set (contributionPeriods g) \<Longrightarrow> per_sharedProfileId p = sp
    \<Longrightarrow> distinct (map per_id (contributionPeriods g)) \<Longrightarrow> live (closePeriod (per_id p) g) sp' = live g sp'"
proof -
  assume a: "sp \<noteq> sp'" "p \<in> set (contributionPeriods g)" "per_sharedProfileId p = sp"
    "distinct (map per_id (contributionPeriods g))"
  have "close_row (per_id p) q = q" if "q \<in> set (periods_of sp' g)" for q
  proof -
    have q: "q \<in> set (contributionPeriods g)" "per_sharedProfileId q = sp'" using that by (simp_all add: periods_of_def)
    then have "per_id q \<noteq> per_id p" using a distinct_key_eq [OF a(4) q(1) a(2)] by auto
    then show ?thesis by (simp add: close_row_def)
  qed
  then have "map (close_row (per_id p)) (periods_of sp' g) = periods_of sp' g" by (simp add: map_idI)
  then show ?thesis by (simp add: live_def periods_of_close profile_active_cong [of "closePeriod (per_id p) g" g])
qed

text \<open>The row that \<open>openPeriod\<close> appends.\<close>

definition opened_row :: "string \<Rightarrow> uuid \<Rightarrow> instant \<Rightarrow> instant \<Rightarrow> db \<Rightarrow> period_row" where
  "opened_row t sp s e g = \<lparr>per_id = new_id g, per_tenantId = t, per_sharedProfileId = sp, per_startDate = s,
     per_endDate = e, per_status = OPEN, per_planVersionSnapshot = latest_version sp g,
     per_incomeSnapshot = map (\<lambda>m. (m_id m, show_int (m_declaredIncomeCents m))) (activeMemberships sp g)\<rparr>"

lemma openPeriod_row: "fst (openPeriod t sp s e g) = opened_row t sp s e g"
  by (simp add: openPeriod_def createPeriod_def opened_row_def latest_version_def Let_def)

lemma openPeriod_frame [simp]:
  "memberships (snd (openPeriod t sp s e g)) = memberships g"
  "contributionPlans (snd (openPeriod t sp s e g)) = contributionPlans g"
  "contributionAllocations (snd (openPeriod t sp s e g)) = contributionAllocations g"
  "contributionRecords (snd (openPeriod t sp s e g)) = contributionRecords g"
  "sharedProfiles (snd (openPeriod t sp s e g)) = sharedProfiles g"
  "clock (snd (openPeriod t sp s e g)) = clock g"
  "contributionPeriods (snd (openPeriod t sp s e g)) = contributionPeriods g @ [opened_row t sp s e g]"
  by (simp_all add: openPeriod_def createPeriod_def opened_row_def latest_version_def Let_def)

lemma openPeriod_fresh: "fresh_ids g \<Longrightarrow> fresh_ids (snd (openPeriod t sp s e g))"
  unfolding openPeriod_def createPeriod_def
  by (simp add: Let_def) (intro fresh_emit, erule fresh_insert, simp_all add: all_ids_add)

lemma opened_snapshots_ok:
  assumes "plans_ok g" and "contributionPlans h = contributionPlans g"
  shows "snapshots_ok h (opened_row t sp s e g)"
proof -
  have "distinct (map m_id (activeMemberships sp g))"
    using assms(1) by (auto simp: plans_ok_def activeMemberships_def intro: distinct_map_filter)
  then show ?thesis
    by (simp add: snapshots_ok_def opened_row_def latest_version_cong [OF assms(2)] list_all_iff comp_def)
qed

lemma periods_of_open:
  "periods_of sp' (snd (openPeriod t sp s e g)) = periods_of sp' g @ (if sp' = sp then [opened_row t sp s e g] else [])"
  by (simp add: periods_of_def opened_row_def)

lemma open_wf:
  assumes "periods_wf g" and "plans_ok g" and "s < e"
    and at_end: "periods_of sp g \<noteq> [] \<Longrightarrow> per_status (last (periods_of sp g)) = CLOSED \<and> per_endDate (last (periods_of sp g)) = s"
  shows "periods_wf (snd (openPeriod t sp s e g))"
proof -
  let ?h = "snd (openPeriod t sp s e g)"
  have "new_id g \<notin> per_id ` set (contributionPeriods g)"
    using fresh_ids_new [OF plans_fresh [OF assms(2)]] by (simp add: all_ids_def)
  then have d: "distinct (map per_id (contributionPeriods ?h))"
    using assms(1) by (simp add: periods_wf_def opened_row_def)
  have "period_chain (periods_of sp' ?h)" for sp'
    using assms by (auto simp: periods_of_open periods_wf_def chain_snoc follows_def opened_row_def)
  moreover have "records_ok ?h"
    by (rule records_ok_cong [OF wf_records [OF assms(1)]]) auto
  moreover have "snapshots_ok ?h = snapshots_ok g" by (rule ext) (rule snapshots_ok_cong, simp)
  then have "list_all (snapshots_ok ?h) (contributionPeriods ?h)"
    using assms(1) opened_snapshots_ok [OF assms(2) refl] by (simp add: periods_wf_def)
  ultimately show ?thesis using d by (simp add: periods_wf_def)
qed

lemma period_end_later: "s < periodEndDate s len"
  using period_progress [of s len] by (simp add: msPerDay_def)

lemma live_open: "live (snd (openPeriod t sp s e g)) sp"
  by (simp add: live_def periods_of_open) (simp add: opened_row_def)

lemma live_open_other: "sp' \<noteq> sp \<Longrightarrow> live (snd (openPeriod t sp s e g)) sp' = live g sp'"
  by (simp add: live_def periods_of_open profile_active_cong [of "snd (openPeriod t sp s e g)" g])

subsection \<open>Reconciling a period\<close>

lemma sum_list_if_eq: "distinct ids \<Longrightarrow> sum_list (map (\<lambda>i. if x = i then c else (0::int)) ids) = (if x \<in> set ids then c else 0)"
  by (induction ids) auto

lemma sum_list_groups:
  assumes "distinct ids" and "set (map k rows) \<subseteq> set ids"
  shows "sum_list (map (\<lambda>i. sum_list (map f (filter (\<lambda>r. k r = i) rows))) ids) = (sum_list (map f rows) :: int)"
  using assms(2)
proof (induction rows)
  case Nil
  then show ?case by simp
next
  case (Cons r rows)
  have "sum_list (map (\<lambda>i. sum_list (map f (filter (\<lambda>q. k q = i) (r # rows)))) ids)
      = sum_list (map (\<lambda>i. (if k r = i then f r else 0) + sum_list (map f (filter (\<lambda>q. k q = i) rows))) ids)"
    by (intro arg_cong [where f = sum_list] map_cong) auto
  also have "\<dots> = f r + sum_list (map f rows)"
    using Cons sum_list_if_eq [OF assms(1), of "k r" "f r"] by (simp add: sum_list_addf)
  finally show ?case by simp
qed

lemma actualByMember_keys: "distinct (map fst (actualByMember i g))"
  by (simp add: actualByMember_def Let_def comp_def)

definition recorded_total :: "uuid \<Rightarrow> db \<Rightarrow> cents" where
  "recorded_total i g = sum_list (map rec_amount (filter (\<lambda>r. rec_periodId r = i) (contributionRecords g)))"

lemma actualByMember_total: "sum_list (map snd (actualByMember i g)) = recorded_total i g"
proof -
  let ?rows = "filter (\<lambda>r. rec_periodId r = i) (contributionRecords g)"
  have "sum_list (map (\<lambda>m. sum_list (map rec_amount (filter (\<lambda>r. rec_membershipId r = m) ?rows)))
      (remdups (map rec_membershipId ?rows))) = sum_list (map rec_amount ?rows)"
    by (rule sum_list_groups) auto
  then show ?thesis by (simp only: actualByMember_def Let_def recorded_total_def map_map comp_def snd_conv)
qed

lemma snapshot_valid:
  assumes "plans_ok g" and "snapshots_ok g p"
  shows "\<exists>ms. snapshotMembers p g = Ok ms \<and> valid_bps ms \<and> distinct (map snap_id ms)
    \<and> map snap_id ms = map fst (per_incomeSnapshot p)"
proof -
  obtain ms where ms: "snapshotMembers p g = Ok ms" "map snap_id ms = map fst (per_incomeSnapshot p)"
    using assms(2) snapshotMembers_ids [of p g] by (auto simp: snapshots_ok_def)
  have "0 \<le> percentageBp s \<and> percentageBp s \<le> 10000" if s: "s \<in> set ms" for s
  proof -
    define as where "as = (case planByVersion (per_sharedProfileId p) (per_planVersionSnapshot p) g of
        None \<Rightarrow> [] | Some plan \<Rightarrow> listAllocations (plan_id plan) g)"
    have sub: "set as \<subseteq> set (contributionAllocations g)"
      by (auto simp: as_def listAllocations_def split: option.splits)
    have ent: "snapshot_entries (rev (map (\<lambda>a. (alloc_membershipId a, alloc_percentageBp a)) as)) (per_incomeSnapshot p) = Ok ms"
      using ms(1) by (simp add: snapshotMembers_def as_def)
    have bp: "percentageBp s = (case map_of (rev (map (\<lambda>a. (alloc_membershipId a, alloc_percentageBp a)) as)) (snap_id s) of
        None \<Rightarrow> 0 | Some b \<Rightarrow> b)"
      by (rule snapshot_entries_bp [OF ent s])
    show ?thesis
    proof (cases "map_of (rev (map (\<lambda>a. (alloc_membershipId a, alloc_percentageBp a)) as)) (snap_id s)")
      case None
      with bp show ?thesis by simp
    next
      case (Some b)
      from map_of_SomeD [OF this] sub assms(1) have "0 \<le> b \<and> b \<le> 10000"
        unfolding plans_ok_def by auto
      with bp Some show ?thesis by simp
    qed
  qed
  then show ?thesis using ms assms(2) by (auto simp: valid_bps_def list_all_iff snapshots_ok_def)
qed

lemma period_total:
  assumes "plans_ok g" and "snapshots_ok g p"
  shows "\<exists>ms rc. snapshotMembers p g = Ok ms \<and> reconcile ms (actualByMember (per_id p) g) = Ok rc
    \<and> poolActualCents rc = recorded_total (per_id p) g \<and> poolExpectedTotalCents ms = Ok (poolExpectedCents rc)
    \<and> shortfallCents rc = max 0 (poolExpectedCents rc - recorded_total (per_id p) g)"
proof -
  obtain ms where ms: "snapshotMembers p g = Ok ms" "valid_bps ms" "distinct (map snap_id ms)"
    using snapshot_valid [OF assms] by blast
  then show ?thesis
    using reconcile_eq [OF ms(2,3) actualByMember_keys, of "per_id p" g]
    by (simp add: actualByMember_total poolExpectedTotalCents_def add_expected_valid Let_def)
qed

subsection \<open>The rollover sweep\<close>

lemma periods_wf_cong:
  assumes "periods_wf g" and "contributionPlans h = contributionPlans g"
    and "contributionPeriods h = contributionPeriods g" and "contributionRecords h = contributionRecords g"
  shows "periods_wf h"
proof -
  have "snapshots_ok h = snapshots_ok g" by (rule ext) (rule snapshots_ok_cong [OF assms(2)])
  then show ?thesis using assms by (simp add: periods_wf_def periods_of_def records_ok_def)
qed

lemma live_cong:
  "contributionPeriods h = contributionPeriods g \<Longrightarrow> sharedProfiles h = sharedProfiles g \<Longrightarrow> live h sp = live g sp"
  by (simp add: live_def periods_of_def profile_active_cong [of h g])

lemma ledger_ok_cong:
  assumes "ledger_ok g" and "fresh_ids h" and "memberships h = memberships g"
    and "contributionPlans h = contributionPlans g" and "contributionAllocations h = contributionAllocations g"
    and "contributionPeriods h = contributionPeriods g" and "contributionRecords h = contributionRecords g"
    and "sharedProfiles h = sharedProfiles g"
  shows "ledger_ok h"
  using assms plans_ok_cong [of g h] periods_wf_cong [of g h] live_cong [of h g] by (simp add: ledger_ok_def)

lemma ledger_fresh: "ledger_ok g \<Longrightarrow> fresh_ids g"
  by (simp add: ledger_ok_def plans_fresh)

lemma ledger_ok_writers:
  "ledger_ok g \<Longrightarrow> ledger_ok (emit t et at ai ac pl g)"
  "ledger_ok g \<Longrightarrow> ledger_ok (audit_write t r g)"
  by (rule ledger_ok_cong [of g]; simp add: fresh_emit fresh_audit ledger_fresh)+

lemma open_is_last:
  assumes "periods_wf g" and "p \<in> set (contributionPeriods g)" and "per_status p = OPEN"
  shows "periods_of (per_sharedProfileId p) g \<noteq> []" and "last (periods_of (per_sharedProfileId p) g) = p"
proof -
  have "period_chain (periods_of (per_sharedProfileId p) g)" using assms(1) by (simp add: periods_wf_def)
  note chain_open [OF this]
  moreover have "p \<in> set (filter (\<lambda>p. per_status p = OPEN) (periods_of (per_sharedProfileId p) g))"
    using assms(2,3) by (simp add: periods_of_def)
  ultimately show "periods_of (per_sharedProfileId p) g \<noteq> []" and "last (periods_of (per_sharedProfileId p) g) = p"
    by (auto split: if_splits)
qed

text \<open>One iteration of the loop: the state it goes on with.\<close>

definition roll_period :: "string \<Rightarrow> period_row \<Rightarrow> db \<Rightarrow> db" where
  "roll_period t p g =
     (let h = emit t ''ContributionPeriodClosed'' ''ContributionPeriod'' (per_id p) None
            [(''sharedProfileId'', JStr (per_sharedProfileId p)),
             (''reconciledTotalCents'', JStr (show_int (recorded_total (per_id p) g)))] (closePeriod (per_id p) g)
      in if profile_active (per_sharedProfileId p) g
         then snd (openPeriod t (per_sharedProfileId p) (per_endDate p)
                (periodEndDate (per_endDate p) (sp_periodLength (the (findSharedProfile (per_sharedProfileId p) g)))) h)
         else h)"

lemma rollover_step:
  assumes "ledger_ok g" and "p \<in> set (contributionPeriods g)" and "per_endDate p \<le> now"
  shows "rollover_loop t now (p # ps) k g
    = rollover_loop t now ps (if profile_active (per_sharedProfileId p) g then k + 1 else k) (roll_period t p g)"
proof -
  have "snapshots_ok g p" using assms(1,2) by (simp add: ledger_ok_def periods_wf_def list_all_iff)
  then obtain ms rc where "snapshotMembers p g = Ok ms" "reconcile ms (actualByMember (per_id p) g) = Ok rc"
      "poolActualCents rc = recorded_total (per_id p) g"
    using period_total [of g p] assms(1) by (auto simp: ledger_ok_def)
  moreover have "findSharedProfile sp (closePeriod i g) = findSharedProfile sp g" for sp i
    by (simp add: findSharedProfile_def)
  moreover have "findSharedProfile sp (emit t' et at ai ac pl h) = findSharedProfile sp h" for sp t' et at ai ac pl h
    by (simp add: findSharedProfile_def)
  ultimately show ?thesis using assms(3)
    by (auto simp: roll_period_def profile_active_def isPeriodDue_def Let_def nextPeriodWindow_def split: option.splits prod.splits)
qed

lemma roll_period_facts:
  assumes "ledger_ok g" and p: "p \<in> set (contributionPeriods g)" "per_status p = OPEN"
  shows "ledger_ok (roll_period t p g)" and "sharedProfiles (roll_period t p g) = sharedProfiles g"
    and "contributionPeriods (roll_period t p g) = map (close_row (per_id p)) (contributionPeriods g) @
      (if profile_active (per_sharedProfileId p) g
       then [opened_row t (per_sharedProfileId p) (per_endDate p)
          (periodEndDate (per_endDate p) (sp_periodLength (the (findSharedProfile (per_sharedProfileId p) g))))
          (emit t ''ContributionPeriodClosed'' ''ContributionPeriod'' (per_id p) None
            [(''sharedProfileId'', JStr (per_sharedProfileId p)),
             (''reconciledTotalCents'', JStr (show_int (recorded_total (per_id p) g)))] (closePeriod (per_id p) g))]
       else [])"
proof -
  let ?sp = "per_sharedProfileId p"
  let ?h = "emit t ''ContributionPeriodClosed'' ''ContributionPeriod'' (per_id p) None
            [(''sharedProfileId'', JStr ?sp),
             (''reconciledTotalCents'', JStr (show_int (recorded_total (per_id p) g)))] (closePeriod (per_id p) g)"
  have ok: "plans_ok g" "periods_wf g" "\<And>sp. live g sp" using assms(1) by (simp_all add: ledger_ok_def)
  have "plans_ok ?h"
    by (rule plans_ok_cong [OF plans_ok_close [OF ok(1), of "per_id p"]])
      (simp_all add: fresh_emit close_fresh plans_fresh ok(1))
  moreover have wf: "periods_wf ?h" by (rule periods_wf_cong [OF close_wf [OF ok(2), of "per_id p"]]) simp_all
  moreover have others: "live ?h sp" if "sp \<noteq> ?sp" for sp
    using live_close_other [OF that [symmetric] p(1) refl] ok(2,3) live_cong [of ?h "closePeriod (per_id p) g" sp]
    by (simp add: periods_wf_def)
  have hp: "periods_of ?sp ?h = map (close_row (per_id p)) (periods_of ?sp g)"
    by (simp add: periods_of_def closePeriod_rows filter_map comp_def)
  have last: "periods_of ?sp ?h \<noteq> []" "last (periods_of ?sp ?h) = close_row (per_id p) p"
    using open_is_last [OF ok(2) p] by (simp_all add: hp last_map)
  let ?e = "periodEndDate (per_endDate p) (sp_periodLength (the (findSharedProfile ?sp g)))"
  have e: "per_endDate p < ?e" by (rule period_end_later)
  show "sharedProfiles (roll_period t p g) = sharedProfiles g" by (simp add: roll_period_def Let_def)
  show "contributionPeriods (roll_period t p g) = map (close_row (per_id p)) (contributionPeriods g) @
      (if profile_active ?sp g then [opened_row t ?sp (per_endDate p) ?e ?h] else [])"
    by (simp add: roll_period_def Let_def closePeriod_rows)
  show "ledger_ok (roll_period t p g)"
  proof (cases "profile_active ?sp g")
    case True
    have "periods_wf (snd (openPeriod t ?sp (per_endDate p) ?e ?h))"
      by (rule open_wf [OF wf \<open>plans_ok ?h\<close> e]) (simp add: last close_row_def)
    moreover have "plans_ok (snd (openPeriod t ?sp (per_endDate p) ?e ?h))"
      by (rule plans_ok_cong [OF \<open>plans_ok ?h\<close>]) (simp_all add: openPeriod_fresh plans_fresh \<open>plans_ok ?h\<close>)
    moreover have "live (snd (openPeriod t ?sp (per_endDate p) ?e ?h)) sp" for sp
      using live_open live_open_other others by (cases "sp = ?sp") blast+
    ultimately show ?thesis using True by (simp add: roll_period_def ledger_ok_def)
  next
    case False
    then have "\<not> profile_active ?sp ?h" using profile_active_cong [of ?h g ?sp] by simp
    then have "live ?h ?sp" by (simp add: live_def)
    then have "live ?h sp" for sp using others by (cases "sp = ?sp") simp_all
    with False \<open>plans_ok ?h\<close> wf show ?thesis by (simp add: roll_period_def ledger_ok_def)
  qed
qed

text \<open>Who gets a successor period, and which one: its profile, its window, its status.\<close>

definition successor_of :: "db \<Rightarrow> period_row \<Rightarrow> uuid \<times> instant \<times> instant \<times> period_status" where
  "successor_of g p = (let w = nextPeriodWindow (per_endDate p)
       (sp_periodLength (the (findSharedProfile (per_sharedProfileId p) g)))
     in (per_sharedProfileId p, win_start w, win_end w, OPEN))"

definition period_key :: "period_row \<Rightarrow> uuid \<times> instant \<times> instant \<times> period_status" where
  "period_key p = (per_sharedProfileId p, per_startDate p, per_endDate p, per_status p)"

definition close_all :: "uuid set \<Rightarrow> period_row \<Rightarrow> period_row" where
  "close_all is p = (if per_id p \<in> is then p\<lparr>per_status := CLOSED\<rparr> else p)"

lemma rollover_loop_exact:
  assumes "ledger_ok g" and "distinct (map per_id ps)"
    and "\<And>p. p \<in> set ps \<Longrightarrow> p \<in> set (contributionPeriods g) \<and> per_status p = OPEN \<and> per_endDate p \<le> now"
  shows "\<exists>h new. rollover_loop t now ps k g
        = (Ok (k + length (filter (\<lambda>p. profile_active (per_sharedProfileId p) g) ps)), h)
      \<and> ledger_ok h \<and> sharedProfiles h = sharedProfiles g
      \<and> contributionPeriods h = map (close_all (per_id ` set ps)) (contributionPeriods g) @ new
      \<and> map period_key new = map (successor_of g) (filter (\<lambda>p. profile_active (per_sharedProfileId p) g) ps)"
  using assms
proof (induction ps arbitrary: g k)
  case Nil
  have "close_all {} = id" by (rule ext) (simp add: close_all_def)
  with Nil show ?case by simp
next
  case (Cons p ps)
  let ?g1 = "roll_period t p g" and ?act = "profile_active (per_sharedProfileId p) g"
  have p: "p \<in> set (contributionPeriods g)" "per_status p = OPEN" "per_endDate p \<le> now" using Cons.prems(3) by simp_all
  note f = roll_period_facts [OF Cons.prems(1) p(1,2), of t]
  define h0 where "h0 = emit t ''ContributionPeriodClosed'' ''ContributionPeriod'' (per_id p) None
      [(''sharedProfileId'', JStr (per_sharedProfileId p)),
       (''reconciledTotalCents'', JStr (show_int (recorded_total (per_id p) g)))] (closePeriod (per_id p) g)"
  define opened where "opened = (if ?act
      then [opened_row t (per_sharedProfileId p) (per_endDate p)
         (periodEndDate (per_endDate p) (sp_periodLength (the (findSharedProfile (per_sharedProfileId p) g)))) h0] else [])"
  have rows: "contributionPeriods ?g1 = map (close_row (per_id p)) (contributionPeriods g) @ opened"
    unfolding opened_def h0_def by (rule f(3))
  have key: "map period_key opened = (if ?act then [successor_of g p] else [])"
    by (simp add: opened_def period_key_def opened_row_def successor_of_def nextPeriodWindow_def)
  have "fresh_ids h0" unfolding h0_def by (intro fresh_emit close_fresh ledger_fresh Cons.prems(1))
  from fresh_ids_new [OF this] have "new_id h0 \<notin> per_id ` set (contributionPeriods h0)" by (simp add: all_ids_def)
  then have ids: "per_id q \<notin> per_id ` set (contributionPeriods g)" if "q \<in> set opened" for q
    using that by (auto simp: opened_def opened_row_def h0_def closePeriod_rows image_image split: if_splits)
  have in1: "q \<in> set (contributionPeriods ?g1) \<and> per_status q = OPEN \<and> per_endDate q \<le> now" if "q \<in> set ps" for q
  proof -
    have "per_id q \<noteq> per_id p" using that Cons.prems(2) by (auto simp: image_iff)
    then have "close_row (per_id p) q = q" by (simp add: close_row_def)
    moreover have "q \<in> set (contributionPeriods g)" using that Cons.prems(3) by simp
    ultimately have "q \<in> set (map (close_row (per_id p)) (contributionPeriods g))" by (metis imageI set_map)
    then show ?thesis using that Cons.prems(3) by (simp add: rows)
  qed
  have same: "profile_active sp ?g1 = profile_active sp g" "findSharedProfile sp ?g1 = findSharedProfile sp g" for sp
    by (simp_all add: profile_active_def findSharedProfile_def f(2))
  then have succ: "successor_of ?g1 = successor_of g" by (intro ext) (simp add: successor_of_def)
  have "distinct (map per_id ps)" using Cons.prems(2) by simp
  note ih = Cons.IH [OF f(1) this in1, unfolded same succ f(2)]
  obtain h new where IH: "rollover_loop t now ps (if ?act then k + 1 else k) ?g1
        = (Ok ((if ?act then k + 1 else k) + length (filter (\<lambda>p. profile_active (per_sharedProfileId p) g) ps)), h)"
      "ledger_ok h" "sharedProfiles h = sharedProfiles g"
      "contributionPeriods h = map (close_all (per_id ` set ps)) (contributionPeriods ?g1) @ new"
      "map period_key new = map (successor_of g) (filter (\<lambda>p. profile_active (per_sharedProfileId p) g) ps)"
    using ih [of "if ?act then k + 1 else k"] by blast
  have "close_all (per_id ` set ps) q = q" if "q \<in> set opened" for q
    using ids [OF that] Cons.prems(3) by (force simp: close_all_def)
  then have keep: "map (close_all (per_id ` set ps)) opened = opened" by (simp add: map_idI)
  have "close_all (per_id ` set ps) (close_row (per_id p) q) = close_all (per_id ` set (p # ps)) q" for q
    by (simp add: close_all_def close_row_def)
  then have "contributionPeriods h = map (close_all (per_id ` set (p # ps))) (contributionPeriods g) @ (opened @ new)"
    using IH(4) keep by (simp add: rows comp_def)
  moreover have "map period_key (opened @ new)
      = map (successor_of g) (filter (\<lambda>p. profile_active (per_sharedProfileId p) g) (p # ps))"
    using IH(5) key by simp
  moreover have "rollover_loop t now (p # ps) k g
      = (Ok (k + length (filter (\<lambda>p. profile_active (per_sharedProfileId p) g) (p # ps))), h)"
    using IH(1) rollover_step [OF Cons.prems(1) p(1,3)] by simp
  ultimately show ?case using IH(2,3) by blast
qed

lemma duePeriods_set: "p \<in> set (duePeriods now g) \<Longrightarrow>
    p \<in> set (contributionPeriods g) \<and> per_status p = OPEN \<and> per_endDate p \<le> now"
  unfolding duePeriods_def by (auto dest: in_set_takeD)

lemma duePeriods_ids: "periods_wf g \<Longrightarrow> distinct (map per_id (duePeriods now g))"
  unfolding duePeriods_def by (simp add: periods_wf_def take_map [symmetric] distinct_map_filter)

lemma rollover_commits: "ledger_ok g \<Longrightarrow> commits ledger_ok (rolloverForTenant_tx t g)"
  using rollover_loop_exact [of g "duePeriods (clock g) g" "clock g" t 0] duePeriods_set duePeriods_ids
  by (auto simp: commits_def rolloverForTenant_tx_def ledger_ok_def)

subsection \<open>Recording a contribution\<close>

lemma ensureOpenPeriod_facts:
  assumes "ledger_ok g" and f: "findSharedProfile sp g = Some f" "sp_status f = PROFILE_ACTIVE"
    and e: "ensureOpenPeriod t f now g = (p, h)"
  shows "ledger_ok h" and "p \<in> set (contributionPeriods h)" and "per_status p = OPEN" and "per_sharedProfileId p = sp"
    and "contributionRecords h = contributionRecords g" and "memberships h = memberships g"
    and "contributionPlans h = contributionPlans g" and "contributionAllocations h = contributionAllocations g"
    and "clock h = clock g" and "sharedProfiles h = sharedProfiles g"
proof -
  have ok: "plans_ok g" "periods_wf g" "\<And>sp. live g sp" using assms(1) by (simp_all add: ledger_ok_def)
  have sp: "sp_id f = sp" using found_profile [OF f(1)] by simp
  have "ledger_ok h \<and> p \<in> set (contributionPeriods h) \<and> per_status p = OPEN \<and> per_sharedProfileId p = sp
    \<and> contributionRecords h = contributionRecords g \<and> memberships h = memberships g
    \<and> contributionPlans h = contributionPlans g \<and> contributionAllocations h = contributionAllocations g
    \<and> clock h = clock g \<and> sharedProfiles h = sharedProfiles g"
  proof (cases "openPeriodOf sp g")
    case (Some q)
    then have q: "periods_of sp g \<noteq> []" "per_status q = OPEN" "q = last (periods_of sp g)"
      using openPeriodOf_last [OF ok(2), of sp] by (auto split: if_splits)
    then have "q \<in> set (periods_of sp g)" by simp
    then have "q \<in> set (contributionPeriods g)" "per_sharedProfileId q = sp" by (simp_all add: periods_of_def)
    moreover have "p = q" "h = g" using e Some sp by (simp_all add: ensureOpenPeriod_def)
    ultimately show ?thesis using q(2) assms(1) by simp
  next
    case None
    have "profile_active sp g" using f by (simp add: profile_active_def)
    with ok(3) [of sp] None have empty: "periods_of sp g = []"
      using openPeriodOf_last [OF ok(2), of sp] by (auto simp: live_def split: if_splits)
    let ?e = "periodEndDate now (sp_periodLength f)" and ?h = "snd (openPeriod t sp now (periodEndDate now (sp_periodLength f)) g)"
    have eq: "openPeriod t sp now ?e g = (p, h)"
      using e None sp by (simp add: ensureOpenPeriod_def firstPeriodWindow_def Let_def)
    then have ph: "p = opened_row t sp now ?e g" "h = ?h" using openPeriod_row [of t sp now ?e g] by simp_all
    have "periods_wf ?h" by (rule open_wf [OF ok(2,1) period_end_later]) (simp add: empty)
    moreover have "plans_ok ?h"
      by (rule plans_ok_cong [OF ok(1)]) (simp_all add: openPeriod_fresh plans_fresh ok(1))
    moreover have "live ?h sp'" for sp' using live_open live_open_other ok(3) by (cases "sp' = sp") blast+
    ultimately have "ledger_ok ?h" by (simp add: ledger_ok_def)
    then show ?thesis unfolding ph by (simp add: opened_row_def)
  qed
  then show "ledger_ok h" and "p \<in> set (contributionPeriods h)" and "per_status p = OPEN" and "per_sharedProfileId p = sp"
    and "contributionRecords h = contributionRecords g" and "memberships h = memberships g"
    and "contributionPlans h = contributionPlans g" and "contributionAllocations h = contributionAllocations g"
    and "clock h = clock g" and "sharedProfiles h = sharedProfiles g"
    by simp_all
qed

lemma createRecord_frame [simp]:
  "memberships (snd (createRecord t d g)) = memberships g"
  "contributionPlans (snd (createRecord t d g)) = contributionPlans g"
  "contributionAllocations (snd (createRecord t d g)) = contributionAllocations g"
  "contributionPeriods (snd (createRecord t d g)) = contributionPeriods g"
  "sharedProfiles (snd (createRecord t d g)) = sharedProfiles g"
  "contributionRecords (snd (createRecord t d g)) = contributionRecords g @ [fst (createRecord t d g)]"
  by (simp_all add: createRecord_def Let_def)

lemma createRecord_ledger:
  assumes "ledger_ok g" and "0 < cr_amount d" and "p \<in> set (contributionPeriods g)"
    and "per_id p = cr_periodId d" and "per_sharedProfileId p = cr_sharedProfileId d"
  shows "ledger_ok (snd (createRecord t d g))"
proof -
  let ?h = "snd (createRecord t d g)"
  have ok: "plans_ok g" "periods_wf g" "\<And>sp. live g sp" using assms(1) by (simp_all add: ledger_ok_def)
  have fresh: "fresh_ids ?h" unfolding createRecord_def Let_def snd_conv
    by (rule fresh_insert [OF ledger_fresh [OF assms(1)]]) (simp_all add: all_ids_add)
  have "plans_ok ?h" by (rule plans_ok_cong [OF ok(1) fresh]) simp_all
  moreover have "records_ok ?h"
    using wf_records [OF ok(2)] assms(2-5) by (auto simp: records_ok_def) (auto simp: createRecord_def Let_def)
  moreover have "snapshots_ok ?h = snapshots_ok g" by (rule ext) (rule snapshots_ok_cong, simp)
  ultimately show ?thesis
    using ok live_cong [of ?h g] by (simp add: ledger_ok_def periods_wf_def periods_of_def)
qed

subsection \<open>What the use cases commit\<close>

definition books_ok :: "db \<Rightarrow> bool" where
  "books_ok g \<longleftrightarrow> ledger_ok g \<and> within_cap g"

lemma books_within_cap: "books_ok g \<Longrightarrow> plans_within_cap g"
  by (simp add: books_ok_def ledger_ok_def plans_within_cap_def)

text \<open>The plan use cases leave periods, records and profiles alone; versions only grow.\<close>

definition ledger_kept :: "db \<Rightarrow> db \<Rightarrow> bool" where
  "ledger_kept g h \<longleftrightarrow> contributionPeriods h = contributionPeriods g \<and> contributionRecords h = contributionRecords g
     \<and> sharedProfiles h = sharedProfiles g \<and> (\<forall>sp. latest_version sp g \<le> latest_version sp h)"

lemma ledger_kept_refl [simp]: "ledger_kept g g"
  by (simp add: ledger_kept_def)

lemma books_kept:
  assumes "books_ok g" and "plans_within_cap h" and k: "ledger_kept g h"
  shows "books_ok h"
proof -
  have g: "periods_wf g" "\<And>sp. live g sp" using assms(1) by (simp_all add: books_ok_def ledger_ok_def)
  have "snapshots_ok g p \<Longrightarrow> snapshots_ok h p" for p
    using k by (auto simp: snapshots_ok_def ledger_kept_def intro: order_trans)
  then have "list_all (snapshots_ok h) (contributionPeriods h)"
    using g(1) k by (auto simp: periods_wf_def ledger_kept_def list_all_iff)
  then have "periods_wf h"
    using g(1) k by (simp add: periods_wf_def ledger_kept_def periods_of_def records_ok_def)
  then show ?thesis using g(2) assms(2) k live_cong [of h g]
    by (simp add: books_ok_def ledger_ok_def plans_within_cap_def ledger_kept_def)
qed

lemma createPlan_kept:
  assumes "createPlan t sp v i ef g = (Ok row, h)" and "latest_version sp g < v"
  shows "ledger_kept g h"
proof -
  note cur = createPlan_current [OF assms]
  have "plan_version row = v" using assms(1) by (simp add: createPlan_Ok)
  then have "latest_version sp' g \<le> latest_version sp' h" for sp'
    using cur(1,2) assms(2) by (cases "sp' = sp") (simp_all add: latest_version_def)
  moreover have "contributionPeriods h = contributionPeriods g" "contributionRecords h = contributionRecords g"
      "sharedProfiles h = sharedProfiles g" using assms(1) by (simp_all add: createPlan_Ok)
  ultimately show ?thesis by (simp add: ledger_kept_def)
qed

lemma ledger_kept_writers:
  "ledger_kept g h \<Longrightarrow> ledger_kept g (emit t et at ai ac pl h)"
  "ledger_kept g h \<Longrightarrow> ledger_kept g (audit_write t r h)"
  "ledger_kept g h \<Longrightarrow> ledger_kept g (upsertAllocation t pl' m b h)"
  "ledger_kept g h \<Longrightarrow> ledger_kept g (upsert_all t pl' as h)"
  by (simp_all add: ledger_kept_def latest_version_def currentPlan_def)

lemma planOrFirst_kept: "planOrFirst t sp i g = (Ok plan, h) \<Longrightarrow> ledger_kept g h"
  using createPlan_kept [of t sp 1 i None g plan h]
  by (auto simp: planOrFirst_def latest_version_def split: option.splits)

lemma commits_conj: "commits P c \<Longrightarrow> commits Q c \<Longrightarrow> commits (\<lambda>h. P h \<and> Q h) c"
  by (auto simp: commits_def)

lemma setAllocation_kept: "commits (ledger_kept g) (setAllocation_tx p i g)"
  unfolding setAllocation_tx_def Let_def
  by (intro commits_and_then commits_then_do commits_result)
    (auto intro!: ledger_kept_writers dest: planOrFirst_kept simp: planOrFirst_Err)

lemma redistribute_kept: "commits (ledger_kept g) (redistribute_tx p sp as g)"
  unfolding redistribute_tx_def Let_def
  by (intro commits_and_then commits_then_do commits_if commits_result)
    (auto intro!: ledger_kept_writers createPlan_kept simp: createPlan_Err nextPlanVersion_latest)

lemma setAllocation_books: "books_ok g \<Longrightarrow> commits books_ok (setAllocation_tx p i g)"
  by (rule commits_mono [OF commits_conj [OF setAllocation_commits setAllocation_kept]])
    (auto intro: books_kept books_within_cap)

lemma redistribute_books: "books_ok g \<Longrightarrow> commits books_ok (redistribute_tx p sp as g)"
  by (rule commits_mono [OF commits_conj [OF redistribute_commits redistribute_kept]])
    (auto intro: books_kept books_within_cap)

lemma books_cong:
  assumes "books_ok g" and "ledger_ok h" and "memberships h = memberships g"
    and "contributionPlans h = contributionPlans g" and "contributionAllocations h = contributionAllocations g"
  shows "books_ok h"
  using assms plans_within_cap_cong [OF books_within_cap [OF assms(1)] ledger_fresh [OF assms(2)]]
  by (simp add: books_ok_def plans_within_cap_def)

lemma books_writers:
  "books_ok g \<Longrightarrow> books_ok (emit t et at ai ac pl g)"
  "books_ok g \<Longrightarrow> books_ok (audit_write t r g)"
  by (rule books_cong [of g]; simp add: books_ok_def ledger_ok_writers)+

lemma recordContribution_books:
  assumes "books_ok g"
  shows "commits books_ok (recordContribution_tx p i g)"
proof -
  have step: "books_ok (snd (createRecord (pr_tenantId p)
        \<lparr>cr_sharedProfileId = rc_sharedProfileId i, cr_periodId = per_id (fst e), cr_membershipId = rc_membershipId i,
         cr_amount = rc_amountCents i, cr_sourceAccountId = rc_sourceAccountId i\<rparr> (snd e)))"
    if f: "findSharedProfile (rc_sharedProfileId i) g = Some f" "sp_status f = PROFILE_ACTIVE" and a: "\<not> rc_amountCents i \<le> 0"
      and e: "e = ensureOpenPeriod (pr_tenantId p) f (clock g) g" for f e
  proof -
    have l: "ledger_ok g" using assms by (simp add: books_ok_def)
    have "ensureOpenPeriod (pr_tenantId p) f (clock g) g = (fst e, snd e)" by (simp add: e)
    note e = ensureOpenPeriod_facts [OF l f this]
    show ?thesis
      by (rule books_cong [OF assms createRecord_ledger [OF e(1) _ e(2)]]) (use a e in simp_all)
  qed
  show ?thesis
    unfolding recordContribution_tx_def Let_def case_prod_unfold
    by (intro commits_and_then commits_if commits_result)
      (auto simp: found_or_Ok assms intro!: books_writers step)
qed

lemma rollover_loop_frame:
  "rollover_loop t now ps k g = (r, h) \<Longrightarrow> memberships h = memberships g \<and> contributionPlans h = contributionPlans g
     \<and> contributionAllocations h = contributionAllocations g \<and> contributionRecords h = contributionRecords g"
proof (induction ps arbitrary: k g)
  case Nil
  then show ?case by simp
next
  case (Cons p ps)
  show ?case
  proof (cases "isPeriodDue (per_endDate p) now")
    case False
    with Cons show ?thesis by simp
  next
    case True
    then show ?thesis using Cons.prems
      by (cases "snapshotMembers p g"; cases "reconcile (case snapshotMembers p g of Ok ms \<Rightarrow> ms) (actualByMember (per_id p) g)")
        (auto simp: Let_def case_prod_unfold split: option.splits if_splits dest!: Cons.IH)
  qed
qed

lemma rollover_books: "books_ok g \<Longrightarrow> commits books_ok (rolloverForTenant_tx t g)"
  using rollover_commits [of g t] rollover_loop_frame [of t "clock g" "duePeriods (clock g) g" 0 g]
  by (cases "rolloverForTenant_tx t g")
    (auto simp: commits_def rolloverForTenant_tx_def books_ok_def intro: books_cong [unfolded books_ok_def, THEN conjunct2])

subsection \<open>Declared incomes\<close>

lemma setIncome_frame [simp]:
  "contributionPlans (setIncome i c g) = contributionPlans g"
  "contributionAllocations (setIncome i c g) = contributionAllocations g"
  "contributionPeriods (setIncome i c g) = contributionPeriods g"
  "contributionRecords (setIncome i c g) = contributionRecords g"
  "sharedProfiles (setIncome i c g) = sharedProfiles g"
  "clock (setIncome i c g) = clock g"
  by (simp_all add: setIncome_def)

lemma setIncome_books:
  assumes "books_ok g"
  shows "books_ok (setIncome i c g)"
proof -
  let ?h = "setIncome i c g" and ?f = "\<lambda>m. m\<lparr>m_declaredIncomeCents := c\<rparr>"
  have ok: "plans_ok g" "within_cap g" using assms by (simp_all add: books_ok_def ledger_ok_def)
  have "fresh_ids ?h" unfolding setIncome_def
    by (rule fresh_same [OF plans_fresh [OF ok(1)]]) (simp_all add: all_ids_replace map_update_where)
  then have p: "plans_ok ?h"
    using ok(1) by (simp add: plans_ok_def) (simp add: setIncome_def map_update_where)
  have "committed u ?h = committed u g" for u
  proof -
    have "commit_bp ?h = commit_bp g" by (rule ext) (rule commit_bp_cong, simp_all)
    moreover have "active_of u ?h = update_where (\<lambda>m. m_id m = i) ?f (active_of u g)"
      by (simp add: active_of_def setIncome_def filter_update_where)
    moreover have "map (commit_bp g) (update_where (\<lambda>m. m_id m = i) ?f ms) = map (commit_bp g) ms" for ms
      by (rule map_update_where) (simp add: commit_bp_eq cong: option.case_cong)
    ultimately show ?thesis by (simp add: committed_sum)
  qed
  then have "plans_within_cap ?h" using ok p by (simp add: plans_within_cap_def within_cap_def)
  then show ?thesis
    by (rule books_kept [OF assms]) (simp add: ledger_kept_def latest_version_def currentPlan_def)
qed

lemma setDeclaredIncome_books: "books_ok g \<Longrightarrow> commits books_ok (setDeclaredIncome_tx p i g)"
  unfolding setDeclaredIncome_tx_def Let_def
  by (intro commits_and_then commits_if commits_result) (auto intro!: books_writers setIncome_books)

end
