(* ===== verification/LedgerRuns.thy ===== *)
theory LedgerRuns
  imports Ledger
begin

section \<open>Runs of the contribution use cases\<close>

text \<open>
  The contribution use cases and the rollover sweep as commands, what they leave of the identifier
  supply, and what single steps do: a recorded contribution, a sweep, a reconciliation.
\<close>

datatype contribution_command =
    SetDeclaredIncome set_declared_income_input
  | SetAllocation set_allocation_input
  | RecordContribution record_contribution_input
  | Redistribute uuid "redistribution_allocation list"
  | RolloverSweep

fun run_contribution :: "tenant_principal \<Rightarrow> contribution_command \<Rightarrow> db \<Rightarrow> unit result \<times> db" where
  "run_contribution p (SetDeclaredIncome i) g = discard (setDeclaredIncome p i g)"
| "run_contribution p (SetAllocation i) g = discard (setAllocation p i g)"
| "run_contribution p (RecordContribution i) g = discard (recordContribution p i g)"
| "run_contribution p (Redistribute sp as) g = discard (redistribute p sp as g)"
| "run_contribution p RolloverSweep g = discard (rolloverForTenant (pr_tenantId p) g)"

lemma books_same_tables:
  assumes "books_ok a" and "same_tables a b" and "uid b = uid a" and "uid_next a \<le> uid_next b"
  shows "books_ok b"
proof -
  have b: "b = a\<lparr>uid := uid b, uid_next := uid_next b, clock := clock b\<rparr>"
    using assms(2) by (simp add: same_tables_def)
  have f: "fresh_ids b"
    using assms by (intro fresh_same_tables [of a b] ledger_fresh) (simp_all add: books_ok_def)
  have t: "memberships b = memberships a" "contributionPlans b = contributionPlans a"
      "contributionAllocations b = contributionAllocations a" "contributionPeriods b = contributionPeriods a"
      "contributionRecords b = contributionRecords a" "sharedProfiles b = sharedProfiles a"
    by (subst b, simp)+
  have l: "ledger_ok a" using assms(1) by (simp add: books_ok_def)
  have "ledger_ok b" by (rule ledger_ok_cong [OF l f t])
  then show ?thesis by (rule books_cong [OF assms(1)]) (simp_all add: t)
qed

subsection \<open>The identifier supply only advances\<close>

named_theorems advance_intros "operations that advance the identifier supply"

lemma advance_writers [advance_intros]:
  "ids_advance g h \<Longrightarrow> ids_advance g (used_id h)"
  "ids_advance g h \<Longrightarrow> ids_advance g (emit t et at ai ac pl h)"
  "ids_advance g h \<Longrightarrow> ids_advance g (audit_write t r h)"
  by (simp_all add: ids_advance_def)

lemma advance_upsert [advance_intros]: "ids_advance g h \<Longrightarrow> ids_advance g (upsertAllocation t pl m b h)"
  by (auto simp: upsertAllocation_def ids_advance_def split: option.splits)

lemma advance_upsert_all [advance_intros]: "ids_advance g h \<Longrightarrow> ids_advance g (upsert_all t pl as h)"
  by (induction as arbitrary: h) (simp_all add: advance_upsert)

lemma advance_createPlan: "createPlan t sp v i ef g = (r, h) \<Longrightarrow> ids_advance g h"
  by (auto simp: createPlan_def Let_def ids_advance_def split: if_splits)

lemma advance_planOrFirst: "planOrFirst t sp i g = (r, h) \<Longrightarrow> ids_advance g h"
  by (auto simp: planOrFirst_def advance_createPlan split: option.splits)

lemma advance_openPeriod [advance_intros]: "ids_advance g h \<Longrightarrow> ids_advance g (snd (openPeriod t sp s e h))"
  by (simp add: openPeriod_def createPeriod_def ids_advance_def Let_def)

lemma advance_ensure [advance_intros]: "ids_advance g h \<Longrightarrow> ids_advance g (snd (ensureOpenPeriod t f now h))"
  by (auto simp: ensureOpenPeriod_def Let_def advance_openPeriod split: option.splits)

lemma advance_record [advance_intros]: "ids_advance g h \<Longrightarrow> ids_advance g (snd (createRecord t d h))"
  by (simp add: createRecord_def ids_advance_def Let_def)

lemma advance_close [advance_intros]: "ids_advance g h \<Longrightarrow> ids_advance g (closePeriod i h)"
  by (simp add: closePeriod_def ids_advance_def)

lemma advance_income [advance_intros]: "ids_advance g h \<Longrightarrow> ids_advance g (setIncome i c h)"
  by (simp add: setIncome_def ids_advance_def)

lemma advance_use_cases:
  "commits (ids_advance g) (setDeclaredIncome_tx p si g)"
  "commits (ids_advance g) (setAllocation_tx p sa g)"
  "commits (ids_advance g) (recordContribution_tx p rc g)"
  "commits (ids_advance g) (redistribute_tx p sp as g)"
  unfolding setDeclaredIncome_tx_def setAllocation_tx_def recordContribution_tx_def redistribute_tx_def Let_def case_prod_unfold
  by (intro commits_and_then commits_then_do commits_if commits_result;
      (auto intro!: advance_intros dest: advance_createPlan advance_planOrFirst)?)+

lemma advance_rollover_loop: "rollover_loop t now ps k g = (r, h) \<Longrightarrow> ids_advance g h"
proof (induction ps arbitrary: k g)
  case Nil
  then show ?case by simp
next
  case (Cons p ps)
  show ?case
  proof (cases "isPeriodDue (per_endDate p) now")
    case False
    with Cons show ?thesis by simp
  next
    case True
    then show ?thesis using Cons.prems
      by (cases "snapshotMembers p g"; cases "reconcile (case snapshotMembers p g of Ok ms \<Rightarrow> ms) (actualByMember (per_id p) g)")
        (auto simp: Let_def case_prod_unfold split: option.splits if_splits dest!: Cons.IH
          elim!: ids_advance_trans [rotated] intro!: advance_intros)
  qed
qed

lemma advance_rollover: "commits (ids_advance g) (rolloverForTenant_tx t g)"
  using advance_rollover_loop [of t "clock g" "duePeriods (clock g) g" 0 g]
  by (cases "rolloverForTenant_tx t g") (auto simp: commits_def rolloverForTenant_tx_def)

subsection \<open>The invariant of every run\<close>

lemma start_books:
  assumes "fresh_ids g" and "distinct (map m_id (memberships g))"
    and "distinct (map (\<lambda>m. (m_sharedProfileId m, m_userId m)) (memberships g))"
    and "contributionPlans g = []" "contributionAllocations g = []" "contributionPeriods g = []" "contributionRecords g = []"
  shows "books_ok g"
proof -
  have "commit_bp g m = 0" for m using assms(4) by (simp add: commit_bp_eq currentPlan_def)
  then have "commit_bp g = (\<lambda>m. 0)" by (rule ext)
  then have "committed u g = 0" for u by (simp add: committed_sum sum_list_triv)
  with assms show ?thesis
    by (simp add: books_ok_def ledger_ok_def plans_ok_def periods_wf_def within_cap_def live_def periods_of_def records_ok_def)
qed

text \<open>
  What well-kept books promise: nobody has committed more than 100%, the periods of a profile
  follow one another, an active profile that has periods has exactly one open, and recorded amounts are
  positive.
\<close>

lemma books_facts:
  assumes "books_ok g"
  shows "committedTotalBp (committedByUser u g) \<le> 10000"
    and "sorted_wrt (\<lambda>p q. per_endDate p \<le> per_startDate q) (periods_of sp g)"
    and "length (filter (\<lambda>p. per_status p = OPEN) (periods_of sp g)) \<le> 1"
    and "profile_active sp g \<Longrightarrow> periods_of sp g \<noteq> [] \<Longrightarrow> length (filter (\<lambda>p. per_status p = OPEN) (periods_of sp g)) = 1"
    and "list_all (\<lambda>r. 0 < rec_amount r) (contributionRecords g)"
proof -
  have c: "period_chain (periods_of sp g)" and l: "live g sp"
    using assms by (simp_all add: books_ok_def ledger_ok_def periods_wf_def)
  show "committedTotalBp (committedByUser u g) \<le> 10000"
    using assms by (simp add: books_ok_def within_cap_def committed_def)
  show "sorted_wrt (\<lambda>p q. per_endDate p \<le> per_startDate q) (periods_of sp g)"
    using chain_disjoint [OF c] by (auto simp: sorted_wrt_iff_nth_less)
  show "length (filter (\<lambda>p. per_status p = OPEN) (periods_of sp g)) \<le> 1"
    using chain_open [OF c] by simp
  show "profile_active sp g \<Longrightarrow> periods_of sp g \<noteq> [] \<Longrightarrow> length (filter (\<lambda>p. per_status p = OPEN) (periods_of sp g)) = 1"
    using l by (simp add: chain_open [OF c] live_def)
  show "list_all (\<lambda>r. 0 < rec_amount r) (contributionRecords g)"
    using assms by (simp add: books_ok_def ledger_ok_def periods_wf_def records_ok_def list_all_iff)
qed

subsection \<open>Concrete ledgers\<close>

lemma demo_household_start:
  "fresh_ids (demo_household demo_pair)" "distinct (map m_id (memberships (demo_household demo_pair)))"
  "distinct (map (\<lambda>m. (m_sharedProfileId m, m_userId m)) (memberships (demo_household demo_pair)))"
  "contributionPlans (demo_household demo_pair) = []" "contributionAllocations (demo_household demo_pair) = []"
  "contributionPeriods (demo_household demo_pair) = []" "contributionRecords (demo_household demo_pair) = []"
proof -
  show "fresh_ids (demo_household demo_pair)" by (rule demo_household_fresh) code_simp
qed (simp_all add: demo_household_simps)

text \<open>Reconciliation never fails and is exact.\<close>

lemma reconciled_period:
  assumes "ledger_ok g" and "p \<in> set (contributionPeriods g)"
  shows "\<exists>ms rc. snapshotMembers p g = Ok ms
    \<and> reconcile ms (actualByMember (per_id p) g) = Ok rc
    \<and> poolActualCents rc = sum_list (map rec_amount (filter (\<lambda>r. rec_periodId r = per_id p) (contributionRecords g)))
    \<and> poolExpectedTotalCents ms = Ok (poolExpectedCents rc)
    \<and> shortfallCents rc = max 0 (poolExpectedCents rc - poolActualCents rc)"
proof -
  have "plans_ok g" "snapshots_ok g p"
    using assms by (simp_all add: ledger_ok_def periods_wf_def list_all_iff)
  from period_total [OF this] show ?thesis by (auto simp: recorded_total_def)
qed

definition demo_record :: record_contribution_input where
  "demo_record = \<lparr>rc_sharedProfileId = ''p'', rc_membershipId = ''a'', rc_amountCents = 2500, rc_sourceAccountId = None\<rparr>"

lemma demo_household_ledger: "ledger_ok (demo_household demo_pair)"
  using start_books [OF demo_household_start] by (simp add: books_ok_def)

lemma demo_recordContribution: "\<exists>r h. recordContribution_tx demo_owner demo_record (demo_household demo_pair) = (Ok r, h)"
  by (simp add: recordContribution_tx_def demo_record_def demo_household_simps selfMember_def can_def
      findMembershipById_def found_or_def findSharedProfile_def case_prod_unfold Let_def)

text \<open>The household with a plan, at the end of its first period.\<close>

definition demo_due_period :: db where
  "demo_due_period = demo_planned\<lparr>clock := 2678400000\<rparr>"

lemma demo_due_period_ledger: "ledger_ok demo_due_period"
proof -
  have "fresh_ids demo_due_period"
    unfolding demo_due_period_def
    by (rule fresh_same [OF plans_fresh [OF demo_planned_ok]]) (simp_all add: all_ids_def)
  then have "plans_ok demo_due_period"
    by (rule plans_ok_cong [OF demo_planned_ok]) (simp_all add: demo_due_period_def)
  moreover have "periods_of sp demo_due_period = (if sp = ''p'' then [demo_period] else [])" for sp
    by (simp add: periods_of_def demo_due_period_def demo_planned_def) (simp add: demo_period_def)
  moreover have "snapshots_ok demo_due_period demo_period"
    by (simp add: snapshots_ok_def latest_version_def currentPlan_def demo_due_period_def demo_planned_simps)
  moreover have "contributionPeriods demo_due_period = [demo_period]" "contributionRecords demo_due_period = []"
    by (simp_all add: demo_due_period_def demo_planned_def demo_household_def no_rows_def)
  moreover have "period_chain [demo_period]" by (simp add: period_chain_def) (simp add: demo_period_def)
  moreover have "per_status demo_period = OPEN" by (simp add: demo_period_def)
  ultimately show ?thesis
    by (simp add: ledger_ok_def periods_wf_def live_def records_ok_def)
qed

subsection \<open>Properties\<close>

text \<open>
  C29: what recording a contribution does. It appends exactly one record with the given amount, which
  is positive, to the open period of the profile; the member's total for that period grows by the
  amount and nobody else's changes.
\<close>

theorem recordContribution_effect:
  assumes "ledger_ok g" and "recordContribution_tx p i g = (Ok r, h)"
  shows "contributionRecords h = contributionRecords g @ [r] \<and> 0 < rec_amount r \<and> rec_amount r = rc_amountCents i
    \<and> (\<exists>q. openPeriodOf (rc_sharedProfileId i) h = Some q \<and> rec_periodId r = per_id q)
    \<and> actualForMember (rec_periodId r) m h
        = actualForMember (rec_periodId r) m g + (if m = rc_membershipId i then rc_amountCents i else 0)"
proof -
  obtain f where f: "findSharedProfile (rc_sharedProfileId i) g = Some f" "sp_status f = PROFILE_ACTIVE"
    and a: "0 < rc_amountCents i"
    and rec: "let e = ensureOpenPeriod (pr_tenantId p) f (clock g) g
      in r = \<lparr>rec_id = new_id (snd e), rec_tenantId = pr_tenantId p, rec_sharedProfileId = rc_sharedProfileId i,
          rec_periodId = per_id (fst e), rec_membershipId = rc_membershipId i, rec_amount = rc_amountCents i,
          rec_recordedAt = clock (snd e), rec_sourceAccountId = rc_sourceAccountId i\<rparr>
        \<and> contributionRecords h = contributionRecords (snd e) @ [r] \<and> contributionPeriods h = contributionPeriods (snd e)"
    using assms(2) by (auto simp: recordContribution_tx_def use_case_Ok Let_def case_prod_unfold createRecord_def not_le)
  obtain q k where e: "ensureOpenPeriod (pr_tenantId p) f (clock g) g = (q, k)" by fastforce
  then have r: "r = \<lparr>rec_id = new_id k, rec_tenantId = pr_tenantId p, rec_sharedProfileId = rc_sharedProfileId i,
        rec_periodId = per_id q, rec_membershipId = rc_membershipId i, rec_amount = rc_amountCents i,
        rec_recordedAt = clock k, rec_sourceAccountId = rc_sourceAccountId i\<rparr>"
    and h: "contributionRecords h = contributionRecords k @ [r]" "contributionPeriods h = contributionPeriods k"
    using rec by (simp_all add: Let_def)
  note facts = ensureOpenPeriod_facts [OF assms(1) f e]
  have wf: "periods_wf k" using facts(1) by (simp add: ledger_ok_def)
  from open_is_last [OF wf facts(2,3)] have "openPeriodOf (rc_sharedProfileId i) k = Some q"
    using openPeriodOf_last [OF wf, of "rc_sharedProfileId i"] facts(3,4) by simp
  then have "openPeriodOf (rc_sharedProfileId i) h = Some q" by (simp add: openPeriodOf_def h(2))
  then show ?thesis using h(1) facts(5) a r by (simp add: actualForMember_def)
qed

theorem recordContribution_effect_witness:
  "\<exists>r h. recordContribution_tx demo_owner demo_record (demo_household demo_pair) = (Ok r, h)
     \<and> contributionRecords h = contributionRecords (demo_household demo_pair) @ [r] \<and> rec_amount r = 2500"
proof -
  obtain r h where r: "recordContribution_tx demo_owner demo_record (demo_household demo_pair) = (Ok r, h)"
    using demo_recordContribution by blast
  from recordContribution_effect [OF demo_household_ledger r] r show ?thesis by (auto simp: demo_record_def)
qed

text \<open>
  C4: the rollover sweep. It never fails: it closes every due period (the first 500 of the
  tenant) and only those, opens for each of them whose profile is active the successor that starts
  where it ended, and reports how many it opened.
\<close>

theorem rollover_sweep:
  assumes "ledger_ok g"
  shows "\<exists>h new. rolloverForTenant_tx t g
        = (Ok (length (filter (\<lambda>p. profile_active (per_sharedProfileId p) g) (duePeriods (clock g) g))), h)
      \<and> contributionPeriods h
          = map (close_all (per_id ` set (duePeriods (clock g) g))) (contributionPeriods g) @ new
      \<and> map period_key new
          = map (successor_of g) (filter (\<lambda>p. profile_active (per_sharedProfileId p) g) (duePeriods (clock g) g))"
proof -
  have "periods_wf g" using assms by (simp add: ledger_ok_def)
  from rollover_loop_exact [where ps = "duePeriods (clock g) g" and now = "clock g" and t = t and k = 0, OF assms duePeriods_ids [OF this] duePeriods_set]
  show ?thesis
    by (auto simp: rolloverForTenant_tx_def)
qed

theorem rollover_sweep_witness:
  "\<exists>h new. rolloverForTenant_tx ''t'' demo_due_period = (Ok 1, h)
      \<and> contributionPeriods h = demo_period\<lparr>per_status := CLOSED\<rparr> # new
      \<and> map period_key new = [successor_of demo_due_period demo_period]"
proof -
  have due: "duePeriods (clock demo_due_period) demo_due_period = [demo_period]"
    "contributionPeriods demo_due_period = [demo_period]" "profile_active (per_sharedProfileId demo_period) demo_due_period"
    by (simp_all add: duePeriods_def profile_active_def findSharedProfile_def demo_due_period_def demo_planned_simps)
  from rollover_sweep [OF demo_due_period_ledger, of "''t''"] show ?thesis
    by (simp add: due close_all_def)
qed

end
