(* ===== verification/ElementsDomain.thy ===== *)
theory ElementsDomain
  imports Store Allocation Money
begin

section \<open>Goals, debts, budgets and responsibility shares\<close>

text \<open>
  \<open>src/apps/api/src/modules/shared-elements/domain\<close>: the pure decisions on exact cents for
  goals, debts, budgets and investments, the currency guard, and the shares of a debt, which are
  whole basis points that sum to exactly 100%.
\<close>

subsection \<open>Goals, debts, budgets, investments\<close>

record fund_goal_result =
  newFundedCents :: cents
  fund_status :: "Store.goal_status"

definition fundGoal :: "cents \<Rightarrow> cents \<Rightarrow> cents \<Rightarrow> fund_goal_result result" where
  "fundGoal fundedCents targetCents amount =
     (if amount \<le> 0 then Err (validation (Some [(''amountCents'', JStr (show_int amount))]))
      else let n = fundedCents + amount
           in Ok \<lparr>newFundedCents = n, fund_status = (if n \<ge> targetCents then GOAL_ACHIEVED else GOAL_ACTIVE)\<rparr>)"

record pay_debt_result =
  newOutstandingCents :: cents
  paidCents :: cents

definition payDebt :: "cents \<Rightarrow> cents \<Rightarrow> pay_debt_result result" where
  "payDebt outstandingCents amount =
     (if amount \<le> 0 then Err (validation (Some [(''amountCents'', JStr (show_int amount))]))
      else if amount > outstandingCents
      then Err (overpayment (Some [(''amountCents'', JStr (show_int amount)),
             (''outstandingCents'', JStr (show_int outstandingCents))]))
      else Ok \<lparr>newOutstandingCents = outstandingCents - amount, paidCents = amount\<rparr>)"

record record_spend_result =
  newSpentCents :: cents
  spend_remainingCents :: cents

definition remainingCents :: "cents \<Rightarrow> cents \<Rightarrow> cents" where
  "remainingCents limitCents spentCents = limitCents - spentCents"

definition recordSpend :: "cents \<Rightarrow> cents \<Rightarrow> cents \<Rightarrow> record_spend_result result" where
  "recordSpend limitCents spentCents amount =
     (if amount \<le> 0 then Err (validation (Some [(''amountCents'', JStr (show_int amount))]))
      else let n = spentCents + amount
           in Ok \<lparr>newSpentCents = n, spend_remainingCents = limitCents - n\<rparr>)"

definition updateInvestmentValue :: "cents \<Rightarrow> cents \<Rightarrow> cents result" where
  "updateInvestmentValue currentValueCents newValueCents =
     (if newValueCents < 0 then Err (validation (Some [(''newValueCents'', JStr (show_int newValueCents))]))
      else Ok newValueCents)"

lemma fundGoal_Ok: "fundGoal f t a = Ok r \<longleftrightarrow> 0 < a \<and> newFundedCents r = f + a
    \<and> fund_status r = (if f + a \<ge> t then GOAL_ACHIEVED else GOAL_ACTIVE)"
  by (cases r) (auto simp: fundGoal_def Let_def)

lemma payDebt_Ok: "payDebt b a = Ok r \<longleftrightarrow> 0 < a \<and> a \<le> b \<and> newOutstandingCents r = b - a \<and> paidCents r = a"
  by (cases r) (auto simp: payDebt_def)

lemma recordSpend_Ok: "recordSpend l s a = Ok r \<longleftrightarrow> 0 < a \<and> newSpentCents r = s + a \<and> spend_remainingCents r = l - (s + a)"
  by (cases r) (auto simp: recordSpend_def Let_def)

lemma updateInvestmentValue_Ok: "updateInvestmentValue c n = Ok r \<longleftrightarrow> 0 \<le> n \<and> r = n"
  by (auto simp: updateInvestmentValue_def)

subsection \<open>The currency guard\<close>

definition ensureProfileCurrency :: "string \<Rightarrow> string \<Rightarrow> (string \<times> json) list \<Rightarrow> unit result" where
  "ensureProfileCurrency profileBaseCurrency candidateCurrency context =
     (if toUpperCase profileBaseCurrency = toUpperCase candidateCurrency then Ok ()
      else Err (domain_error CURRENCY_MISMATCH (Some (foldl (\<lambda>acc (k, v). with_field acc k v)
             [(''profileBaseCurrency'', JStr profileBaseCurrency), (''candidateCurrency'', JStr candidateCurrency)] context))))"

subsection \<open>Responsibility shares\<close>

definition FULL_BP :: int where
  "FULL_BP = 10000"

record responsibility_share =
  rs_membershipId :: uuid
  rs_percentageBp :: int

definition weight_of :: "responsibility_share \<Rightarrow> allocation_weight" where
  "weight_of s = \<lparr>weight_id = rs_membershipId s, weightBp = IntegerNum (rs_percentageBp s)\<rparr>"

definition share_of :: "allocation_result \<Rightarrow> responsibility_share" where
  "share_of r = \<lparr>rs_membershipId = share_id r, rs_percentageBp = share_cents r\<rparr>"

text \<open>Equal weights when every weight is zero.\<close>

definition normalized :: "responsibility_share list \<Rightarrow> responsibility_share list" where
  "normalized weights =
     (if list_all (\<lambda>w. rs_percentageBp w = 0) weights then map (\<lambda>w. w\<lparr>rs_percentageBp := 1\<rparr>) weights else weights)"

definition allocateBp :: "responsibility_share list \<Rightarrow> responsibility_share list result" where
  "allocateBp weights =
     result_map (map share_of) (allocateByLargestRemainder FULL_BP (map weight_of (normalized weights)))"

definition defaultResponsibilities :: "responsibility_share list \<Rightarrow> responsibility_share list result" where
  "defaultResponsibilities contributions = (if contributions = [] then Ok [] else allocateBp contributions)"

definition validateSumTo100 :: "responsibility_share list \<Rightarrow> unit result" where
  "validateSumTo100 shares =
     (let total = foldl (\<lambda>s r. s + rs_percentageBp r) 0 shares
      in if total \<noteq> FULL_BP then Err (invariant_error (Some [(''sumBp'', JNum total)])) else Ok ())"

definition reassignOnLeave :: "responsibility_share list \<Rightarrow> uuid \<Rightarrow> responsibility_share list result" where
  "reassignOnLeave shares leavingMembershipId =
     (let remaining = filter (\<lambda>s. rs_membershipId s \<noteq> leavingMembershipId) shares
      in if remaining = [] then Ok [] else allocateBp remaining)"

text \<open>Shares as a set of rows: distinct members, no negative share.\<close>

definition shares_wf :: "responsibility_share list \<Rightarrow> bool" where
  "shares_wf ss \<longleftrightarrow> distinct (map rs_membershipId ss) \<and> list_all (\<lambda>s. 0 \<le> rs_percentageBp s) ss"

definition share_sum :: "responsibility_share list \<Rightarrow> int" where
  "share_sum ss = sum_list (map rs_percentageBp ss)"

lemma share_sum_simps [simp]: "share_sum [] = 0" "share_sum (s # ss) = rs_percentageBp s + share_sum ss"
  by (simp_all add: share_sum_def)

lemma foldl_share_sum: "foldl (\<lambda>s r. s + rs_percentageBp r) a ss = a + share_sum ss"
  by (induction ss arbitrary: a) auto

lemma validateSumTo100_Ok: "validateSumTo100 ss = Ok u \<longleftrightarrow> share_sum ss = 10000"
  by (simp add: validateSumTo100_def foldl_share_sum Let_def FULL_BP_def)

lemma shares_allocatable:
  assumes "shares_wf ss" and "0 < share_sum ss" and "0 \<le> tot"
  shows "allocatable tot (map weight_of ss)"
proof -
  have "weight_sum (map weight_of ss) = share_sum ss"
    by (simp add: weight_sum_def share_sum_def comp_def weight_of_def)
  moreover have "valid_weights (map weight_of ss)"
    using assms(1) by (auto simp: valid_weights_def shares_wf_def list_all_iff weight_of_def)
  moreover have "distinct (map weight_id (map weight_of ss))"
    using assms(1) by (simp add: shares_wf_def weight_of_def comp_def)
  ultimately show ?thesis using assms(2,3) by (simp only: allocatable_def)
qed

lemma allocate_nonneg:
  assumes "allocatable tot ws" and "allocateByLargestRemainder tot ws = Ok rs" and "r \<in> set rs"
  shows "0 \<le> share_cents r"
proof -
  have ok: "0 \<le> tot" "valid_weights ws" "0 < weight_sum ws" using assms(1) by (simp_all add: allocatable_def)
  have "0 \<le> share_floor tot ws s" if "s \<in> set ws" for s
    using ok that by (simp add: share_floor_def valid_weights_def list_all_iff pos_imp_zdiv_nonneg_iff)
  then show ?thesis using assms(2,3) allocate_eq [OF ok] by (auto split: if_splits)
qed

lemma share_sum_nonneg: "shares_wf ss \<Longrightarrow> 0 \<le> share_sum ss"
  unfolding shares_wf_def by (induction ss) auto

lemma share_sum_zero: "shares_wf ss \<Longrightarrow> share_sum ss = 0 \<longleftrightarrow> list_all (\<lambda>s. rs_percentageBp s = 0) ss"
proof -
  have "list_all (\<lambda>s. 0 \<le> rs_percentageBp s) ss \<Longrightarrow> share_sum ss = 0 \<longleftrightarrow> list_all (\<lambda>s. rs_percentageBp s = 0) ss"
  proof (induction ss)
    case (Cons s ss)
    have "0 \<le> share_sum ss" using Cons.prems by (induction ss) auto
    with Cons show ?case by auto
  qed simp
  then show "shares_wf ss \<Longrightarrow> ?thesis" by (simp add: shares_wf_def)
qed

lemma normalized_facts:
  assumes "shares_wf ss" and "ss \<noteq> []"
  shows "shares_wf (normalized ss)" and "0 < share_sum (normalized ss)"
    and "map rs_membershipId (normalized ss) = map rs_membershipId ss"
proof -
  have one: "share_sum (map (\<lambda>w. w\<lparr>rs_percentageBp := 1\<rparr>) ss) = int (length ss)" by (induction ss) auto
  show "shares_wf (normalized ss)" using assms(1) by (auto simp: normalized_def shares_wf_def list_all_iff comp_def)
  show "map rs_membershipId (normalized ss) = map rs_membershipId ss" by (simp add: normalized_def)
  show "0 < share_sum (normalized ss)"
    using assms share_sum_nonneg [of ss] share_sum_zero [of ss] one by (auto simp: normalized_def)
qed

text \<open>A split of a total over shares: same members, same order, exact sum, nothing negative.\<close>

lemma split_shares:
  assumes "shares_wf ss" and "0 < share_sum ss" and "0 \<le> tot"
  obtains rs where "allocateByLargestRemainder tot (map weight_of ss) = Ok rs"
    "map rs_membershipId (map share_of rs) = map rs_membershipId ss" "share_sum (map share_of rs) = tot"
    "shares_wf (map share_of rs)"
proof -
  have al: "allocatable tot (map weight_of ss)" by (rule shares_allocatable [OF assms])
  then obtain rs where rs: "allocateByLargestRemainder tot (map weight_of ss) = Ok rs"
    "sum_list (map share_cents rs) = tot" "map share_id rs = map weight_id (map weight_of ss)"
    by (rule allocate_exact)
  have ids: "map rs_membershipId (map share_of rs) = map rs_membershipId ss"
    using rs(3) by (simp add: share_of_def weight_of_def comp_def)
  have "share_sum (map share_of rs) = tot" using rs(2) by (simp add: share_sum_def share_of_def comp_def)
  moreover have "0 \<le> share_cents r" if "r \<in> set rs" for r
    using allocate_nonneg [OF al rs(1) that] .
  ultimately show thesis using rs(1) ids assms(1)
    by (intro that) (auto simp: shares_wf_def list_all_iff share_of_def)
qed

lemma allocateBp_ok:
  assumes "shares_wf ss" and "ss \<noteq> []"
  obtains rs where "allocateBp ss = Ok rs" "map rs_membershipId rs = map rs_membershipId ss"
    "share_sum rs = 10000" "shares_wf rs"
proof -
  note n = normalized_facts [OF assms]
  obtain rs where "allocateByLargestRemainder FULL_BP (map weight_of (normalized ss)) = Ok rs"
    "map rs_membershipId (map share_of rs) = map rs_membershipId (normalized ss)" "share_sum (map share_of rs) = FULL_BP"
    "shares_wf (map share_of rs)"
    by (rule split_shares [OF n(1,2), of FULL_BP]) (simp_all add: FULL_BP_def)
  then show thesis by (intro that [of "map share_of rs"]) (simp_all add: allocateBp_def n(3) FULL_BP_def)
qed

end
