(* ===== verification/SharedElements.thy ===== *)
theory SharedElements
  imports ElementsDomain Contributions
begin

section \<open>Shared elements\<close>

text \<open>
  \<open>src/apps/api/src/modules/shared-elements\<close>: the repository of goals, debts, responsibility
  shares, investments and budgets, the use cases of \<open>shared-elements.service.ts\<close> and the
  reassignment of a leaver's shares. As before, \<open>_tx\<close> is the body of a transaction.
\<close>

subsection \<open>Repository\<close>

definition createGoal :: "string \<Rightarrow> uuid \<Rightarrow> string \<Rightarrow> cents \<Rightarrow> db \<Rightarrow> goal_row \<times> db" where
  "createGoal tenantId sp name targetAmount g =
     (let row = \<lparr>goal_id = new_id g, goal_tenantId = tenantId, goal_sharedProfileId = sp, goal_name = name,
                 goal_targetAmount = targetAmount, goal_fundedAmount = 0, goal_status = GOAL_ACTIVE, goal_version = 0\<rparr>
      in (row, used_id (g\<lparr>sharedGoals := sharedGoals g @ [row]\<rparr>)))"

definition findGoal :: "uuid \<Rightarrow> db \<Rightarrow> goal_row option" where
  "findGoal i g = List.find (\<lambda>r. goal_id r = i) (sharedGoals g)"

definition fundGoalVersioned :: "uuid \<Rightarrow> cents \<Rightarrow> goal_status \<Rightarrow> int \<Rightarrow> db \<Rightarrow> nat \<times> db" where
  "fundGoalVersioned i fundedAmount status expectedVersion g =
     (case prismaVersionedUpdate goal_version (\<lambda>n r. r\<lparr>goal_version := n\<rparr>) (\<lambda>r. goal_id r = i)
             (\<lambda>r. r\<lparr>goal_fundedAmount := fundedAmount, goal_status := status\<rparr>) expectedVersion (sharedGoals g) of
        (n, rows) \<Rightarrow> (n, g\<lparr>sharedGoals := rows\<rparr>))"

definition createDebt :: "string \<Rightarrow> uuid \<Rightarrow> shared_debt_kind \<Rightarrow> string \<Rightarrow> cents \<Rightarrow> db \<Rightarrow> debt_row \<times> db" where
  "createDebt tenantId sp kind name outstandingBalance g =
     (let row = \<lparr>debt_id = new_id g, debt_tenantId = tenantId, debt_sharedProfileId = sp, debt_kind = kind,
                 debt_name = name, debt_outstandingBalance = outstandingBalance, debt_version = 0\<rparr>
      in (row, used_id (g\<lparr>sharedDebts := sharedDebts g @ [row]\<rparr>)))"

definition findDebt :: "uuid \<Rightarrow> db \<Rightarrow> debt_row option" where
  "findDebt i g = List.find (\<lambda>r. debt_id r = i) (sharedDebts g)"

definition debtsForProfile :: "uuid \<Rightarrow> db \<Rightarrow> debt_row list" where
  "debtsForProfile sp g = filter (\<lambda>r. debt_sharedProfileId r = sp) (sharedDebts g)"

definition payDebtVersioned :: "uuid \<Rightarrow> cents \<Rightarrow> int \<Rightarrow> db \<Rightarrow> nat \<times> db" where
  "payDebtVersioned i outstandingBalance expectedVersion g =
     (case prismaVersionedUpdate debt_version (\<lambda>n r. r\<lparr>debt_version := n\<rparr>) (\<lambda>r. debt_id r = i)
             (\<lambda>r. r\<lparr>debt_outstandingBalance := outstandingBalance\<rparr>) expectedVersion (sharedDebts g) of
        (n, rows) \<Rightarrow> (n, g\<lparr>sharedDebts := rows\<rparr>))"

definition touchDebtVersioned :: "uuid \<Rightarrow> int \<Rightarrow> db \<Rightarrow> nat \<times> db" where
  "touchDebtVersioned i expectedVersion g =
     (case prismaVersionedUpdate debt_version (\<lambda>n r. r\<lparr>debt_version := n\<rparr>) (\<lambda>r. debt_id r = i)
             (\<lambda>r. r) expectedVersion (sharedDebts g) of
        (n, rows) \<Rightarrow> (n, g\<lparr>sharedDebts := rows\<rparr>))"

definition listResponsibilities :: "uuid \<Rightarrow> db \<Rightarrow> responsibility_row list" where
  "listResponsibilities debtId g = filter (\<lambda>r. resp_sharedDebtId r = debtId) (debtResponsibilities g)"

definition shares_of_rows :: "responsibility_row list \<Rightarrow> responsibility_share list" where
  "shares_of_rows rows = map (\<lambda>r. \<lparr>rs_membershipId = resp_membershipId r, rs_percentageBp = resp_percentageBp r\<rparr>) rows"

text \<open>The insert loop of a replacement; a member twice violates the unique key and throws.\<close>

fun createResponsibilities :: "string \<Rightarrow> uuid \<Rightarrow> responsibility_share list \<Rightarrow> db \<Rightarrow> unit result \<times> db" where
  "createResponsibilities tenantId debtId [] g = (Ok (), g)"
| "createResponsibilities tenantId debtId (s # ss) g =
     (if list_ex (\<lambda>r. resp_sharedDebtId r = debtId \<and> resp_membershipId r = rs_membershipId s) (debtResponsibilities g)
      then (Thrown (UniqueConstraintError ''DebtResponsibility''), g)
      else createResponsibilities tenantId debtId ss
        (used_id (g\<lparr>debtResponsibilities := debtResponsibilities g @
           [\<lparr>resp_id = new_id g, resp_tenantId = tenantId, resp_sharedDebtId = debtId,
             resp_membershipId = rs_membershipId s, resp_percentageBp = rs_percentageBp s, resp_version = 0\<rparr>]\<rparr>)))"

definition replaceResponsibilities :: "string \<Rightarrow> uuid \<Rightarrow> responsibility_share list \<Rightarrow> db \<Rightarrow> unit result \<times> db" where
  "replaceResponsibilities tenantId debtId shares g =
     createResponsibilities tenantId debtId shares
       (g\<lparr>debtResponsibilities := filter (\<lambda>r. resp_sharedDebtId r \<noteq> debtId) (debtResponsibilities g)\<rparr>)"

definition createInvestmentRow :: "string \<Rightarrow> uuid \<Rightarrow> string \<Rightarrow> cents \<Rightarrow> db \<Rightarrow> investment_row \<times> db" where
  "createInvestmentRow tenantId sp name currentValue g =
     (let row = \<lparr>inv_id = new_id g, inv_tenantId = tenantId, inv_sharedProfileId = sp, inv_name = name,
                 inv_currentValue = currentValue, inv_valueAsOf = clock g, inv_version = 0\<rparr>
      in (row, used_id (g\<lparr>sharedInvestments := sharedInvestments g @ [row]\<rparr>)))"

definition findInvestment :: "uuid \<Rightarrow> db \<Rightarrow> investment_row option" where
  "findInvestment i g = List.find (\<lambda>r. inv_id r = i) (sharedInvestments g)"

definition updateInvestmentVersioned :: "uuid \<Rightarrow> cents \<Rightarrow> instant \<Rightarrow> int \<Rightarrow> db \<Rightarrow> nat \<times> db" where
  "updateInvestmentVersioned i currentValue valueAsOf expectedVersion g =
     (case prismaVersionedUpdate inv_version (\<lambda>n r. r\<lparr>inv_version := n\<rparr>) (\<lambda>r. inv_id r = i)
             (\<lambda>r. r\<lparr>inv_currentValue := currentValue, inv_valueAsOf := valueAsOf\<rparr>) expectedVersion (sharedInvestments g) of
        (n, rows) \<Rightarrow> (n, g\<lparr>sharedInvestments := rows\<rparr>))"

definition createBudgetRow :: "string \<Rightarrow> uuid \<Rightarrow> uuid \<Rightarrow> string \<Rightarrow> cents \<Rightarrow> db \<Rightarrow> budget_row result \<times> db" where
  "createBudgetRow tenantId sp periodId category limit g =
     (if list_ex (\<lambda>b. bud_sharedProfileId b = sp \<and> bud_periodId b = periodId \<and> bud_category b = category) (sharedBudgets g)
      then (Thrown (UniqueConstraintError ''SharedBudget''), g)
      else let row = \<lparr>bud_id = new_id g, bud_tenantId = tenantId, bud_sharedProfileId = sp, bud_category = category,
                      bud_limit = limit, bud_spent = 0, bud_periodId = periodId, bud_version = 0\<rparr>
           in (Ok row, used_id (g\<lparr>sharedBudgets := sharedBudgets g @ [row]\<rparr>)))"

definition findBudget :: "uuid \<Rightarrow> db \<Rightarrow> budget_row option" where
  "findBudget i g = List.find (\<lambda>r. bud_id r = i) (sharedBudgets g)"

definition recordSpendVersioned :: "uuid \<Rightarrow> cents \<Rightarrow> int \<Rightarrow> db \<Rightarrow> nat \<times> db" where
  "recordSpendVersioned i spent expectedVersion g =
     (case prismaVersionedUpdate bud_version (\<lambda>n r. r\<lparr>bud_version := n\<rparr>) (\<lambda>r. bud_id r = i)
             (\<lambda>r. r\<lparr>bud_spent := spent\<rparr>) expectedVersion (sharedBudgets g) of
        (n, rows) \<Rightarrow> (n, g\<lparr>sharedBudgets := rows\<rparr>))"

subsection \<open>Helpers of the use cases\<close>

definition elements_guard :: "uuid \<Rightarrow> uuid \<Rightarrow> capability \<Rightarrow> db \<Rightarrow> uuid result" where
  "elements_guard sp userId c g =
     (case findSharedProfile sp g of
        None \<Rightarrow> Err (notFound None)
      | Some profile \<Rightarrow>
          if sp_status profile \<noteq> PROFILE_ACTIVE then Err (archived None)
          else case findByProfileAndUser sp userId g of
              None \<Rightarrow> Err (forbidden (Some [(''capability'', capability_json c)]))
            | Some m \<Rightarrow>
                if m_status m \<noteq> ACTIVE then Err (forbidden (Some [(''capability'', capability_json c)]))
                else if \<not> can (m_role m) c
                then Err (forbidden (Some [(''capability'', capability_json c), (''role'', role_json (m_role m))]))
                else Ok (m_id m))"

definition defaultResponsibilitiesFor :: "uuid \<Rightarrow> db \<Rightarrow> responsibility_share list result" where
  "defaultResponsibilitiesFor sp g =
     (let members = activeMemberships sp g in
      if members = [] then Ok []
      else
        let allocations = (case currentPlan sp g of None \<Rightarrow> [] | Some plan \<Rightarrow> listAllocations (plan_id plan) g);
            bpByMember = rev (map (\<lambda>a. (alloc_membershipId a, alloc_percentageBp a)) allocations);
            weights = map (\<lambda>m. \<lparr>rs_membershipId = m_id m,
                rs_percentageBp = (case map_of bpByMember (m_id m) of None \<Rightarrow> 0 | Some b \<Rightarrow> b)\<rparr>) members
        in allocateBp weights)"

definition audit_of :: "uuid \<Rightarrow> uuid \<Rightarrow> string \<Rightarrow> (string \<times> json) list option \<Rightarrow> (string \<times> json) list \<Rightarrow> audit_record" where
  "audit_of sp actor action before after =
     \<lparr>ar_sharedProfileId = Some sp, ar_actorMembershipId = Some actor, ar_action = action,
      ar_beforeValue = map_option JObj before, ar_afterValue = Some (JObj after)\<rparr>"

fun kind_json :: "shared_debt_kind \<Rightarrow> json" where
  "kind_json DEBT = JStr ''DEBT''"
| "kind_json CREDIT_CARD = JStr ''CREDIT_CARD''"

definition share_json :: "responsibility_share \<Rightarrow> json" where
  "share_json s = JObj [(''membershipId'', JStr (rs_membershipId s)), (''percentageBp'', JNum (rs_percentageBp s))]"

subsection \<open>Goals\<close>

definition createSharedGoal_tx :: "tenant_principal \<Rightarrow> uuid \<Rightarrow> string \<Rightarrow> cents \<Rightarrow> db \<Rightarrow> goal_row result \<times> db" where
  "createSharedGoal_tx p sp name targetAmountCents g =
     and_then (elements_guard sp (pr_userId p) MANAGE_SHARED_ELEMENTS g) g (\<lambda>actor.
     if targetAmountCents \<le> 0 then (Err (validation None), g)
     else
       let (goal, g1) = createGoal (pr_tenantId p) sp name targetAmountCents g
       in (Ok goal, audit_write (pr_tenantId p) (audit_of sp actor ''SharedGoalCreated'' None
             [(''goalId'', JStr (goal_id goal)), (''name'', JStr name)]) g1))"

definition fundGoal_tx :: "tenant_principal \<Rightarrow> uuid \<Rightarrow> cents \<Rightarrow> int \<Rightarrow> db \<Rightarrow> goal_row result \<times> db" where
  "fundGoal_tx p goalId amount expectedVersion g =
     and_then (found_or (notFound None) (findGoal goalId g)) g (\<lambda>goal.
     and_then (elements_guard (goal_sharedProfileId goal) (pr_userId p) MANAGE_SHARED_ELEMENTS g) g (\<lambda>actor.
     and_then (fundGoal (goal_fundedAmount goal) (goal_targetAmount goal) amount) g (\<lambda>decision.
     then_do (updateWithOptimisticLock expectedVersion
                (fundGoalVersioned goalId (newFundedCents decision) (fund_status decision)) (findGoal goalId) None g) (\<lambda>locked g1.
     and_then (asserted locked) g1 (\<lambda>updated.
       let g2 = emit (pr_tenantId p) ''GoalFunded'' ''SharedGoal'' goalId (Some actor)
                  [(''amountCents'', JStr (show_int amount)),
                   (''fundedAmount'', JStr (show_int (newFundedCents decision)))] g1;
           g3 = audit_write (pr_tenantId p) (audit_of (goal_sharedProfileId goal) actor ''GoalFunded''
                  (Some [(''fundedAmount'', JStr (show_int (goal_fundedAmount goal)))])
                  [(''fundedAmount'', JStr (show_int (newFundedCents decision)))]) g2
       in (Ok updated, g3))))))"

subsection \<open>Debts\<close>

definition createSharedDebt_tx :: "tenant_principal \<Rightarrow> uuid \<Rightarrow> shared_debt_kind \<Rightarrow> string \<Rightarrow> cents \<Rightarrow> db
    \<Rightarrow> debt_row result \<times> db" where
  "createSharedDebt_tx p sp kind name outstandingBalanceCents g =
     and_then (elements_guard sp (pr_userId p) MANAGE_SHARED_ELEMENTS g) g (\<lambda>actor.
     if outstandingBalanceCents < 0 then (Err (validation None), g)
     else
       let (debt, g1) = createDebt (pr_tenantId p) sp kind name outstandingBalanceCents g
       in and_then (defaultResponsibilitiesFor sp g1) g1 (\<lambda>shares.
          then_do (if shares \<noteq> [] then replaceResponsibilities (pr_tenantId p) (debt_id debt) shares g1 else (Ok (), g1)) (\<lambda>_ g2.
            (Ok debt, audit_write (pr_tenantId p) (audit_of sp actor ''SharedDebtCreated'' None
               [(''debtId'', JStr (debt_id debt)), (''name'', JStr name), (''kind'', kind_json kind)]) g2))))"

definition paySharedDebt_tx :: "tenant_principal \<Rightarrow> uuid \<Rightarrow> cents \<Rightarrow> int \<Rightarrow> db \<Rightarrow> debt_row result \<times> db" where
  "paySharedDebt_tx p debtId amount expectedVersion g =
     and_then (found_or (notFound None) (findDebt debtId g)) g (\<lambda>debt.
     and_then (elements_guard (debt_sharedProfileId debt) (pr_userId p) MANAGE_SHARED_ELEMENTS g) g (\<lambda>actor.
     and_then (payDebt (debt_outstandingBalance debt) amount) g (\<lambda>decision.
     then_do (updateWithOptimisticLock expectedVersion
                (payDebtVersioned debtId (newOutstandingCents decision)) (findDebt debtId) None g) (\<lambda>locked g1.
     and_then (asserted locked) g1 (\<lambda>updated.
       let g2 = emit (pr_tenantId p) ''SharedDebtPaid'' ''SharedDebt'' debtId (Some actor)
                  [(''amountCents'', JStr (show_int amount)),
                   (''outstandingBalance'', JStr (show_int (newOutstandingCents decision)))] g1;
           g3 = audit_write (pr_tenantId p) (audit_of (debt_sharedProfileId debt) actor ''SharedDebtPaid''
                  (Some [(''outstandingBalance'', JStr (show_int (debt_outstandingBalance debt)))])
                  [(''outstandingBalance'', JStr (show_int (newOutstandingCents decision)))]) g2
       in (Ok updated, g3))))))"

definition rescale_others :: "int \<Rightarrow> responsibility_share list \<Rightarrow> responsibility_share list result" where
  "rescale_others remaining others =
     result_map (map share_of) (allocateByLargestRemainder remaining (map weight_of others))"

definition setDebtResponsibility_tx :: "tenant_principal \<Rightarrow> uuid \<Rightarrow> uuid \<Rightarrow> js_number \<Rightarrow> int \<Rightarrow> db
    \<Rightarrow> debt_row result \<times> db" where
  "setDebtResponsibility_tx p debtId membershipId bp expectedVersion g =
     and_then (found_or (notFound None) (findDebt debtId g)) g (\<lambda>debt.
     and_then (elements_guard (debt_sharedProfileId debt) (pr_userId p) SET_DEBT_RESPONSIBILITY g) g (\<lambda>actor.
     if \<not> in_bp_range bp then (Err (validation (Some [(''percentageBp'', json_of_number bp)])), g)
     else
       let others = filter (\<lambda>s. rs_membershipId s \<noteq> membershipId) (shares_of_rows (listResponsibilities debtId g));
           remaining = FULL_BP - bp_of bp
       in
       if others = [] \<and> remaining \<noteq> 0
       then (Err (invariant_error (Some [(''percentageBp'', json_of_number bp)])), g)
       else
       and_then (rescale_others remaining others) g (\<lambda>rescaled.
       let newShares = \<lparr>rs_membershipId = membershipId, rs_percentageBp = bp_of bp\<rparr> # rescaled in
       and_then (validateSumTo100 newShares) g (\<lambda>_.
       then_do (updateWithOptimisticLock expectedVersion (touchDebtVersioned debtId) (findDebt debtId) None g) (\<lambda>locked g1.
       then_do (replaceResponsibilities (pr_tenantId p) debtId newShares g1) (\<lambda>_ g2.
       and_then (asserted locked) g2 (\<lambda>updated.
         let g3 = emit (pr_tenantId p) ''DebtResponsibilitySet'' ''SharedDebt'' debtId (Some actor)
                    [(''membershipId'', JStr membershipId), (''percentageBp'', json_of_number bp)] g2;
             g4 = audit_write (pr_tenantId p) (audit_of (debt_sharedProfileId debt) actor ''DebtResponsibilitySet'' None
                    [(''shares'', JArr (map share_json newShares))]) g3
         in (Ok updated, g4))))))))"

subsection \<open>Investments and budgets\<close>

definition createInvestment_tx :: "tenant_principal \<Rightarrow> uuid \<Rightarrow> string \<Rightarrow> cents \<Rightarrow> db \<Rightarrow> investment_row result \<times> db" where
  "createInvestment_tx p sp name currentValueCents g =
     and_then (elements_guard sp (pr_userId p) MANAGE_SHARED_ELEMENTS g) g (\<lambda>actor.
     if currentValueCents < 0 then (Err (validation None), g)
     else
       let (inv, g1) = createInvestmentRow (pr_tenantId p) sp name currentValueCents g
       in (Ok inv, audit_write (pr_tenantId p) (audit_of sp actor ''SharedInvestmentCreated'' None
             [(''investmentId'', JStr (inv_id inv)), (''name'', JStr name)]) g1))"

definition updateInvestmentValue_tx :: "tenant_principal \<Rightarrow> uuid \<Rightarrow> cents \<Rightarrow> int \<Rightarrow> db \<Rightarrow> investment_row result \<times> db" where
  "updateInvestmentValue_tx p investmentId newValueCents expectedVersion g =
     and_then (found_or (notFound None) (findInvestment investmentId g)) g (\<lambda>inv.
     and_then (elements_guard (inv_sharedProfileId inv) (pr_userId p) MANAGE_SHARED_ELEMENTS g) g (\<lambda>actor.
     and_then (updateInvestmentValue (inv_currentValue inv) newValueCents) g (\<lambda>decision.
     then_do (updateWithOptimisticLock expectedVersion
                (updateInvestmentVersioned investmentId decision (clock g)) (findInvestment investmentId) None g) (\<lambda>locked g1.
     and_then (asserted locked) g1 (\<lambda>updated.
       (Ok updated, audit_write (pr_tenantId p) (audit_of (inv_sharedProfileId inv) actor ''SharedInvestmentValueUpdated'' None
          [(''currentValue'', JStr (show_int decision))]) g1))))))"

definition createBudget_tx :: "tenant_principal \<Rightarrow> uuid \<Rightarrow> string \<Rightarrow> cents \<Rightarrow> db \<Rightarrow> budget_row result \<times> db" where
  "createBudget_tx p sp category limitCents g =
     and_then (elements_guard sp (pr_userId p) MANAGE_SHARED_ELEMENTS g) g (\<lambda>actor.
     if limitCents < 0 then (Err (validation None), g)
     else
     and_then (found_or (validation None) (openPeriodOf sp g)) g (\<lambda>period.
     then_do (createBudgetRow (pr_tenantId p) sp (per_id period) category limitCents g) (\<lambda>budget g1.
       (Ok budget, audit_write (pr_tenantId p) (audit_of sp actor ''SharedBudgetCreated'' None
          [(''budgetId'', JStr (bud_id budget)), (''category'', JStr category), (''periodId'', JStr (per_id period))]) g1))))"

definition recordBudgetSpend_tx :: "tenant_principal \<Rightarrow> uuid \<Rightarrow> cents \<Rightarrow> int \<Rightarrow> db \<Rightarrow> budget_row result \<times> db" where
  "recordBudgetSpend_tx p budgetId amount expectedVersion g =
     and_then (found_or (notFound None) (findBudget budgetId g)) g (\<lambda>budget.
     and_then (elements_guard (bud_sharedProfileId budget) (pr_userId p) MANAGE_SHARED_ELEMENTS g) g (\<lambda>actor.
     and_then (recordSpend (bud_limit budget) (bud_spent budget) amount) g (\<lambda>decision.
     then_do (updateWithOptimisticLock expectedVersion
                (recordSpendVersioned budgetId (newSpentCents decision)) (findBudget budgetId) None g) (\<lambda>locked g1.
     and_then (asserted locked) g1 (\<lambda>updated.
       (Ok updated, audit_write (pr_tenantId p) (audit_of (bud_sharedProfileId budget) actor ''SharedBudgetSpendRecorded'' None
          [(''spent'', JStr (show_int (newSpentCents decision)))]) g1))))))"

subsection \<open>The use cases as scoped transactions\<close>

definition createSharedGoal :: "tenant_principal \<Rightarrow> uuid \<Rightarrow> string \<Rightarrow> cents \<Rightarrow> db \<Rightarrow> goal_row result \<times> db" where
  "createSharedGoal p sp name target = withTenant (pr_tenantId p) (createSharedGoal_tx p sp name target)"

definition fundGoal_uc :: "tenant_principal \<Rightarrow> uuid \<Rightarrow> cents \<Rightarrow> int \<Rightarrow> db \<Rightarrow> goal_row result \<times> db" where
  "fundGoal_uc p i amount e = withTenant (pr_tenantId p) (fundGoal_tx p i amount e)"

definition createSharedDebt :: "tenant_principal \<Rightarrow> uuid \<Rightarrow> shared_debt_kind \<Rightarrow> string \<Rightarrow> cents \<Rightarrow> db
    \<Rightarrow> debt_row result \<times> db" where
  "createSharedDebt p sp kind name balance = withTenant (pr_tenantId p) (createSharedDebt_tx p sp kind name balance)"

definition paySharedDebt :: "tenant_principal \<Rightarrow> uuid \<Rightarrow> cents \<Rightarrow> int \<Rightarrow> db \<Rightarrow> debt_row result \<times> db" where
  "paySharedDebt p i amount e = withTenant (pr_tenantId p) (paySharedDebt_tx p i amount e)"

definition setDebtResponsibility :: "tenant_principal \<Rightarrow> uuid \<Rightarrow> uuid \<Rightarrow> js_number \<Rightarrow> int \<Rightarrow> db
    \<Rightarrow> debt_row result \<times> db" where
  "setDebtResponsibility p i m bp e = withTenant (pr_tenantId p) (setDebtResponsibility_tx p i m bp e)"

definition createInvestment :: "tenant_principal \<Rightarrow> uuid \<Rightarrow> string \<Rightarrow> cents \<Rightarrow> db \<Rightarrow> investment_row result \<times> db" where
  "createInvestment p sp name v = withTenant (pr_tenantId p) (createInvestment_tx p sp name v)"

definition updateInvestmentValue_uc :: "tenant_principal \<Rightarrow> uuid \<Rightarrow> cents \<Rightarrow> int \<Rightarrow> db \<Rightarrow> investment_row result \<times> db" where
  "updateInvestmentValue_uc p i v e = withTenant (pr_tenantId p) (updateInvestmentValue_tx p i v e)"

definition createBudget :: "tenant_principal \<Rightarrow> uuid \<Rightarrow> string \<Rightarrow> cents \<Rightarrow> db \<Rightarrow> budget_row result \<times> db" where
  "createBudget p sp category limit = withTenant (pr_tenantId p) (createBudget_tx p sp category limit)"

definition recordBudgetSpend :: "tenant_principal \<Rightarrow> uuid \<Rightarrow> cents \<Rightarrow> int \<Rightarrow> db \<Rightarrow> budget_row result \<times> db" where
  "recordBudgetSpend p i amount e = withTenant (pr_tenantId p) (recordBudgetSpend_tx p i amount e)"

subsection \<open>Reassignment when a member leaves\<close>

text \<open>The loop over the debts of the profile, with the count of debts changed.\<close>

fun reassign_loop :: "string \<Rightarrow> uuid \<Rightarrow> debt_row list \<Rightarrow> nat \<Rightarrow> db \<Rightarrow> nat result \<times> db" where
  "reassign_loop tenantId leaving [] changed g = (Ok changed, g)"
| "reassign_loop tenantId leaving (debt # ds) changed g =
     (let shares = shares_of_rows (listResponsibilities (debt_id debt) g) in
      if \<not> list_ex (\<lambda>s. rs_membershipId s = leaving) shares then reassign_loop tenantId leaving ds changed g
      else
        and_then (reassignOnLeave shares leaving) g (\<lambda>reassigned.
        then_do (replaceResponsibilities tenantId (debt_id debt) reassigned g) (\<lambda>_ g1.
          reassign_loop tenantId leaving ds (changed + 1) g1)))"

definition reassignForLeftMember_tx :: "string \<Rightarrow> uuid \<Rightarrow> uuid \<Rightarrow> db \<Rightarrow> nat result \<times> db" where
  "reassignForLeftMember_tx tenantId sp leaving g = reassign_loop tenantId leaving (debtsForProfile sp g) 0 g"

definition reassignForLeftMember :: "string \<Rightarrow> uuid \<Rightarrow> uuid \<Rightarrow> db \<Rightarrow> nat result \<times> db" where
  "reassignForLeftMember tenantId sp leaving = withTenant tenantId (reassignForLeftMember_tx tenantId sp leaving)"

end
