(* ===== verification/Elements.thy ===== *)
theory Elements
  imports SharedElements LedgerRuns
begin

section \<open>What the shared-element use cases keep\<close>

text \<open>
  The well-formedness of goals, debts, shares, investments and budgets, and that every use case of
  the shared elements keeps it; the versioned updates are instances of the locale
  \<open>versioned_rows\<close>.
\<close>

subsection \<open>Well-formed elements\<close>

definition goal_wf :: "goal_row \<Rightarrow> bool" where
  "goal_wf r \<longleftrightarrow> 0 < goal_targetAmount r \<and> 0 \<le> goal_fundedAmount r
     \<and> Store.goal_status r = (if goal_targetAmount r \<le> goal_fundedAmount r then GOAL_ACHIEVED else GOAL_ACTIVE)"

definition debt_shares :: "uuid \<Rightarrow> db \<Rightarrow> responsibility_share list" where
  "debt_shares i g = shares_of_rows (listResponsibilities i g)"

definition shares_ok :: "db \<Rightarrow> bool" where
  "shares_ok g \<longleftrightarrow> distinct (map (\<lambda>r. (resp_sharedDebtId r, resp_membershipId r)) (debtResponsibilities g))
     \<and> (\<forall>r \<in> set (debtResponsibilities g). 0 \<le> resp_percentageBp r \<and> resp_sharedDebtId r \<in> debt_id ` set (sharedDebts g))
     \<and> (\<forall>i. debt_shares i g = [] \<or> share_sum (debt_shares i g) = 10000)"

definition elements_wf :: "db \<Rightarrow> bool" where
  "elements_wf g \<longleftrightarrow> distinct (map goal_id (sharedGoals g)) \<and> list_all goal_wf (sharedGoals g)
     \<and> distinct (map debt_id (sharedDebts g)) \<and> list_all (\<lambda>r. 0 \<le> debt_outstandingBalance r) (sharedDebts g)
     \<and> distinct (map inv_id (sharedInvestments g)) \<and> list_all (\<lambda>r. 0 \<le> inv_currentValue r) (sharedInvestments g)
     \<and> distinct (map bud_id (sharedBudgets g)) \<and> list_all (\<lambda>r. 0 \<le> bud_limit r \<and> 0 \<le> bud_spent r) (sharedBudgets g)
     \<and> shares_ok g"

definition elements_ok :: "db \<Rightarrow> bool" where
  "elements_ok g \<longleftrightarrow> books_ok g \<and> elements_wf g"

text \<open>What both halves of the invariant need of a step that leaves the books alone.\<close>

definition books_kept_by :: "db \<Rightarrow> db \<Rightarrow> bool" where
  "books_kept_by g h \<longleftrightarrow> fresh_ids h \<and> memberships h = memberships g \<and> contributionPlans h = contributionPlans g
     \<and> contributionAllocations h = contributionAllocations g \<and> contributionPeriods h = contributionPeriods g
     \<and> contributionRecords h = contributionRecords g \<and> sharedProfiles h = sharedProfiles g"

lemma books_kept_by_ok: "books_ok g \<Longrightarrow> books_kept_by g h \<Longrightarrow> books_ok h"
  by (rule books_cong [OF _ ledger_ok_cong [of g]]) (simp_all add: books_kept_by_def books_ok_def)

lemma books_fresh: "books_ok g \<Longrightarrow> fresh_ids g"
  by (simp add: books_ok_def ledger_fresh)

lemma debt_shares_cong: "debtResponsibilities h = debtResponsibilities g \<Longrightarrow> debt_shares i h = debt_shares i g"
  by (simp add: debt_shares_def listResponsibilities_def)

lemma shares_ok_cong:
  assumes "shares_ok g" and "debtResponsibilities h = debtResponsibilities g"
    and "debt_id ` set (sharedDebts g) \<subseteq> debt_id ` set (sharedDebts h)"
  shows "shares_ok h"
proof -
  have "debt_shares i h = debt_shares i g" for i by (rule debt_shares_cong [OF assms(2)])
  with assms show ?thesis unfolding shares_ok_def by (simp add: assms(2)) blast
qed

lemma elements_wf_cong:
  assumes "elements_wf g" and "sharedGoals h = sharedGoals g" and "sharedDebts h = sharedDebts g"
    and "sharedInvestments h = sharedInvestments g" and "sharedBudgets h = sharedBudgets g"
    and "debtResponsibilities h = debtResponsibilities g"
  shows "elements_wf h"
  using assms shares_ok_cong [of g h] by (simp add: elements_wf_def)

lemma elements_writers:
  "elements_ok g \<Longrightarrow> elements_ok (emit t et at ai ac pl g)"
  "elements_ok g \<Longrightarrow> elements_ok (audit_write t r g)"
  unfolding elements_ok_def by (auto intro: books_writers elements_wf_cong)

subsection \<open>Versioned updates\<close>

text \<open>
  An update through the lock either finds the row with the expected version, and replaces that row
  alone, or changes nothing and is refused.
\<close>

lemma fundGoalVersioned_eq:
  "fundGoalVersioned i f s e g = (let u = goal_lock.lock_update i (\<lambda>r. r\<lparr>goal_fundedAmount := f, goal_status := s\<rparr>) e (sharedGoals g)
     in (fst u, g\<lparr>sharedGoals := snd u\<rparr>))"
  by (simp add: fundGoalVersioned_def goal_lock.lock_update_def Let_def case_prod_unfold)

lemma payDebtVersioned_eq:
  "payDebtVersioned i b e g = (let u = debt_lock.lock_update i (\<lambda>r. r\<lparr>debt_outstandingBalance := b\<rparr>) e (sharedDebts g)
     in (fst u, g\<lparr>sharedDebts := snd u\<rparr>))"
  by (simp add: payDebtVersioned_def debt_lock.lock_update_def Let_def case_prod_unfold)

lemma touchDebtVersioned_eq:
  "touchDebtVersioned i e g = (let u = debt_lock.lock_update i (\<lambda>r. r) e (sharedDebts g)
     in (fst u, g\<lparr>sharedDebts := snd u\<rparr>))"
  by (simp add: touchDebtVersioned_def debt_lock.lock_update_def Let_def case_prod_unfold)

lemma updateInvestmentVersioned_eq:
  "updateInvestmentVersioned i v at e g =
     (let u = investment_lock.lock_update i (\<lambda>r. r\<lparr>inv_currentValue := v, inv_valueAsOf := at\<rparr>) e (sharedInvestments g)
      in (fst u, g\<lparr>sharedInvestments := snd u\<rparr>))"
  by (simp add: updateInvestmentVersioned_def investment_lock.lock_update_def Let_def case_prod_unfold)

lemma recordSpendVersioned_eq:
  "recordSpendVersioned i s e g = (let u = budget_lock.lock_update i (\<lambda>r. r\<lparr>bud_spent := s\<rparr>) e (sharedBudgets g)
     in (fst u, g\<lparr>sharedBudgets := snd u\<rparr>))"
  by (simp add: recordSpendVersioned_def budget_lock.lock_update_def Let_def case_prod_unfold)

lemmas versioned_eqs = fundGoalVersioned_eq payDebtVersioned_eq touchDebtVersioned_eq
  updateInvestmentVersioned_eq recordSpendVersioned_eq

subsection \<open>Replacing the shares of a debt\<close>

lemma createResponsibilities_eq:
  assumes "distinct (map rs_membershipId ss)"
    and "\<And>r. r \<in> set (debtResponsibilities g) \<Longrightarrow> resp_sharedDebtId r = d \<Longrightarrow> resp_membershipId r \<notin> rs_membershipId ` set ss"
  shows "\<exists>rows. createResponsibilities t d ss g
      = (Ok (), g\<lparr>debtResponsibilities := debtResponsibilities g @ rows, uid_next := uid_next g + length ss\<rparr>)
    \<and> shares_of_rows rows = ss \<and> (\<forall>r \<in> set rows. resp_sharedDebtId r = d)
    \<and> (fresh_ids g \<longrightarrow> fresh_ids (g\<lparr>debtResponsibilities := debtResponsibilities g @ rows, uid_next := uid_next g + length ss\<rparr>))"
  using assms
proof (induction ss arbitrary: g)
  case Nil
  then show ?case by (intro exI [of _ "[]"]) (simp add: shares_of_rows_def)
next
  case (Cons s ss)
  let ?row = "\<lparr>resp_id = new_id g, resp_tenantId = t, resp_sharedDebtId = d, resp_membershipId = rs_membershipId s,
      resp_percentageBp = rs_percentageBp s, resp_version = 0\<rparr>"
  let ?g = "used_id (g\<lparr>debtResponsibilities := debtResponsibilities g @ [?row]\<rparr>)"
  have free: "\<not> list_ex (\<lambda>r. resp_sharedDebtId r = d \<and> resp_membershipId r = rs_membershipId s) (debtResponsibilities g)"
    using Cons.prems(2) by (auto simp: list_ex_iff)
  have "resp_membershipId r \<notin> rs_membershipId ` set ss"
    if "r \<in> set (debtResponsibilities ?g)" "resp_sharedDebtId r = d" for r
  proof -
    from that(1) consider "r \<in> set (debtResponsibilities g)" | "r = ?row" by auto
    then show ?thesis
    proof cases
      case 1
      with that(2) Cons.prems(2) show ?thesis by simp
    next
      case 2
      then have "resp_membershipId r = rs_membershipId s" by simp
      with Cons.prems(1) show ?thesis by simp
    qed
  qed
  then obtain rows where rows: "createResponsibilities t d ss ?g
      = (Ok (), ?g\<lparr>debtResponsibilities := debtResponsibilities ?g @ rows, uid_next := uid_next ?g + length ss\<rparr>)"
    "shares_of_rows rows = ss" "\<forall>r \<in> set rows. resp_sharedDebtId r = d"
    "fresh_ids ?g \<longrightarrow> fresh_ids (?g\<lparr>debtResponsibilities := debtResponsibilities ?g @ rows, uid_next := uid_next ?g + length ss\<rparr>)"
    using Cons.IH [of ?g] Cons.prems(1) by (auto simp del: used_id_frame)
  have eq: "?g\<lparr>debtResponsibilities := debtResponsibilities ?g @ rows, uid_next := uid_next ?g + length ss\<rparr>
      = g\<lparr>debtResponsibilities := debtResponsibilities g @ (?row # rows), uid_next := uid_next g + length (s # ss)\<rparr>"
    by (simp add: used_id_def)
  have "fresh_ids g \<Longrightarrow> fresh_ids ?g" by (erule fresh_insert) (simp_all add: all_ids_add)
  moreover have "shares_of_rows (?row # rows) = s # ss" using rows(2) by (simp add: shares_of_rows_def)
  moreover have "createResponsibilities t d (s # ss) g
      = (Ok (), g\<lparr>debtResponsibilities := debtResponsibilities g @ (?row # rows), uid_next := uid_next g + length (s # ss)\<rparr>)"
    using rows(1) free by (simp add: eq)
  ultimately show ?case using rows(3,4) unfolding eq by (intro exI [of _ "?row # rows"]) simp
qed

lemma replace_facts:
  assumes "shares_wf ss"
  obtains h where "replaceResponsibilities t d ss g = (Ok (), h)" "debt_shares d h = ss"
    "\<And>i. i \<noteq> d \<Longrightarrow> debt_shares i h = debt_shares i g"
    "fresh_ids g \<Longrightarrow> fresh_ids h"
    "shares_ok g \<Longrightarrow> d \<in> debt_id ` set (sharedDebts g) \<Longrightarrow> ss = [] \<or> share_sum ss = 10000 \<Longrightarrow> shares_ok h"
    "\<exists>rs n. h = g\<lparr>debtResponsibilities := rs, uid_next := uid_next g + n\<rparr>"
proof -
  let ?g = "g\<lparr>debtResponsibilities := filter (\<lambda>r. resp_sharedDebtId r \<noteq> d) (debtResponsibilities g)\<rparr>"
  have wf: "distinct (map rs_membershipId ss)" "\<forall>s \<in> set ss. 0 \<le> rs_percentageBp s"
    using assms by (simp_all add: shares_wf_def list_all_iff)
  obtain rows where rows: "createResponsibilities t d ss ?g
      = (Ok (), ?g\<lparr>debtResponsibilities := debtResponsibilities ?g @ rows, uid_next := uid_next ?g + length ss\<rparr>)"
    "shares_of_rows rows = ss" "\<forall>r \<in> set rows. resp_sharedDebtId r = d"
    "fresh_ids ?g \<longrightarrow> fresh_ids (?g\<lparr>debtResponsibilities := debtResponsibilities ?g @ rows, uid_next := uid_next ?g + length ss\<rparr>)"
    using createResponsibilities_eq [OF wf(1), of ?g d t] by auto
  let ?rs = "filter (\<lambda>r. resp_sharedDebtId r \<noteq> d) (debtResponsibilities g) @ rows"
  let ?h = "g\<lparr>debtResponsibilities := ?rs, uid_next := uid_next g + length ss\<rparr>"
  have run: "replaceResponsibilities t d ss g = (Ok (), ?h)" using rows(1) by (simp add: replaceResponsibilities_def)
  have own: "debt_shares d ?h = ss"
    using rows(2,3) by (simp add: debt_shares_def listResponsibilities_def filter_empty_conv)
  have other: "debt_shares i ?h = debt_shares i g" if "i \<noteq> d" for i
  proof -
    have "filter (\<lambda>r. resp_sharedDebtId r = i) rows = []" using rows(3) that by (auto simp: filter_empty_conv)
    moreover have "filter (\<lambda>r. resp_sharedDebtId r \<noteq> d \<and> resp_sharedDebtId r = i) (debtResponsibilities g)
        = filter (\<lambda>r. resp_sharedDebtId r = i) (debtResponsibilities g)"
      using that by (intro filter_cong) auto
    ultimately show ?thesis by (simp add: debt_shares_def listResponsibilities_def)
  qed
  have "set (all_ids ?g) \<subseteq> set (all_ids g)" by (auto simp: all_ids_def)
  then have fresh: "fresh_ids g \<Longrightarrow> fresh_ids ?h"
    using rows(4) fresh_keep [of g ?g] by simp
  have ok: "shares_ok ?h" if g: "shares_ok g" "d \<in> debt_id ` set (sharedDebts g)" "ss = [] \<or> share_sum ss = 10000"
  proof -
    have members: "map (\<lambda>r. (resp_membershipId r, resp_percentageBp r)) rows = map (\<lambda>s. (rs_membershipId s, rs_percentageBp s)) ss"
      using rows(2) by (auto simp: shares_of_rows_def comp_def)
    have "map resp_membershipId rows = map rs_membershipId ss"
      using arg_cong [OF members, of "map fst"] by (simp add: comp_def)
    then have "distinct (map resp_membershipId rows)" using wf(1) by simp
    then have "distinct (map (\<lambda>r. (resp_sharedDebtId r, resp_membershipId r)) rows)" by (simp add: distinct_map inj_on_def)
    moreover have "distinct (map (\<lambda>r. (resp_sharedDebtId r, resp_membershipId r))
        (filter (\<lambda>r. resp_sharedDebtId r \<noteq> d) (debtResponsibilities g)))"
      using g(1) by (auto simp: shares_ok_def intro: distinct_map_filter)
    ultimately have "distinct (map (\<lambda>r. (resp_sharedDebtId r, resp_membershipId r)) ?rs)" using rows(3) by auto
    moreover have "0 \<le> resp_percentageBp r" if "r \<in> set rows" for r
    proof -
      have "resp_percentageBp r \<in> set (map snd (map (\<lambda>s. (rs_membershipId s, rs_percentageBp s)) ss))"
        unfolding members [symmetric] using that by force
      then show ?thesis using wf(2) by auto
    qed
    moreover have "debt_shares i ?h = [] \<or> share_sum (debt_shares i ?h) = 10000" for i
      using own other g(1,3) by (cases "i = d") (simp_all add: shares_ok_def)
    ultimately show ?thesis using g(1,2) rows(3) unfolding shares_ok_def by auto
  qed
  show thesis by (rule that [OF run own other fresh ok]) auto
qed

subsection \<open>The use cases\<close>

text \<open>The tables of the elements after an update of one of them.\<close>

lemma found_row:
  "findGoal i g = Some goal \<Longrightarrow> goal \<in> set (sharedGoals g) \<and> goal_id goal = i"
  "findDebt i g = Some debt \<Longrightarrow> debt \<in> set (sharedDebts g) \<and> debt_id debt = i"
  "findInvestment i g = Some vest \<Longrightarrow> vest \<in> set (sharedInvestments g) \<and> inv_id vest = i"
  "findBudget i g = Some budget \<Longrightarrow> budget \<in> set (sharedBudgets g) \<and> bud_id budget = i"
  unfolding findGoal_def findDebt_def findInvestment_def findBudget_def by (auto dest: find_SomeD)

context versioned_rows begin

lemma lock_keeps_all:
  assumes d: "distinct (map key rows)" and P: "list_all P rows" and r: "r \<in> set rows" "key r = i" "P (bumped_row data r)"
  shows "list_all P (snd (lock_update i data e rows))"
proof -
  have "q = r" if "q \<in> set rows" "key q = i" for q
    using distinct_key_eq [OF d that(1) r(1)] that(2) r(2) by simp
  then have "P (if key q = i then bumped_row data q else q)" if "q \<in> set rows" for q
    using P r(3) that by (cases "key q = i") (auto simp: list_all_iff)
  then have "list_all P (update_where (\<lambda>q. key q = i) (bumped_row data) rows)"
    by (auto simp: list_all_iff set_update_where)
  then show ?thesis using lock_update_outcome [OF d, of i e data] P by auto
qed

end

lemma shares_ok_debts:
  "shares_ok g \<Longrightarrow> map debt_id rows = map debt_id (sharedDebts g) \<Longrightarrow> shares_ok (g\<lparr>sharedDebts := rows\<rparr>)"
  by (rule shares_ok_cong [of g]) (simp_all, metis order_refl set_map)

lemma books_by_tables:
  "books_ok g \<Longrightarrow> map goal_id rg = map goal_id (sharedGoals g) \<Longrightarrow> books_ok (g\<lparr>sharedGoals := rg\<rparr>)"
  "books_ok g \<Longrightarrow> map debt_id rd = map debt_id (sharedDebts g) \<Longrightarrow> books_ok (g\<lparr>sharedDebts := rd\<rparr>)"
  "books_ok g \<Longrightarrow> map inv_id ri = map inv_id (sharedInvestments g) \<Longrightarrow> books_ok (g\<lparr>sharedInvestments := ri\<rparr>)"
  "books_ok g \<Longrightarrow> map bud_id rb = map bud_id (sharedBudgets g) \<Longrightarrow> books_ok (g\<lparr>sharedBudgets := rb\<rparr>)"
  by (rule books_kept_by_ok [of g]; simp add: books_kept_by_def; rule fresh_same [OF books_fresh]; simp add: all_ids_replace)+

lemma elements_wf_goals:
  "elements_wf g \<Longrightarrow> map goal_id rows = map goal_id (sharedGoals g) \<Longrightarrow> list_all goal_wf rows
     \<Longrightarrow> elements_wf (g\<lparr>sharedGoals := rows\<rparr>)"
  unfolding elements_wf_def using shares_ok_cong [of g "g\<lparr>sharedGoals := rows\<rparr>"] by simp

lemma elements_wf_debts:
  "elements_wf g \<Longrightarrow> map debt_id rows = map debt_id (sharedDebts g)
     \<Longrightarrow> list_all (\<lambda>r. 0 \<le> debt_outstandingBalance r) rows \<Longrightarrow> elements_wf (g\<lparr>sharedDebts := rows\<rparr>)"
  unfolding elements_wf_def using shares_ok_debts [of g rows] by simp

lemma elements_wf_investments:
  "elements_wf g \<Longrightarrow> map inv_id rows = map inv_id (sharedInvestments g)
     \<Longrightarrow> list_all (\<lambda>r. 0 \<le> inv_currentValue r) rows \<Longrightarrow> elements_wf (g\<lparr>sharedInvestments := rows\<rparr>)"
  unfolding elements_wf_def using shares_ok_cong [of g "g\<lparr>sharedInvestments := rows\<rparr>"] by simp

lemma elements_wf_budgets:
  "elements_wf g \<Longrightarrow> map bud_id rows = map bud_id (sharedBudgets g)
     \<Longrightarrow> list_all (\<lambda>r. 0 \<le> bud_limit r \<and> 0 \<le> bud_spent r) rows \<Longrightarrow> elements_wf (g\<lparr>sharedBudgets := rows\<rparr>)"
  unfolding elements_wf_def using shares_ok_cong [of g "g\<lparr>sharedBudgets := rows\<rparr>"] by simp

lemma elements_ok_D:
  assumes "elements_ok g"
  shows "books_ok g" and "elements_wf g" and "distinct (map goal_id (sharedGoals g))" and "list_all goal_wf (sharedGoals g)"
    and "distinct (map debt_id (sharedDebts g))" and "list_all (\<lambda>r. 0 \<le> debt_outstandingBalance r) (sharedDebts g)"
    and "distinct (map inv_id (sharedInvestments g))" and "list_all (\<lambda>r. 0 \<le> inv_currentValue r) (sharedInvestments g)"
    and "distinct (map bud_id (sharedBudgets g))" and "list_all (\<lambda>r. 0 \<le> bud_limit r \<and> 0 \<le> bud_spent r) (sharedBudgets g)"
    and "shares_ok g"
  using assms by (simp_all add: elements_ok_def elements_wf_def)

lemma fundGoal_step:
  assumes ok: "elements_ok g" and f: "findGoal i g = Some goal"
    and d: "fundGoal (goal_fundedAmount goal) (goal_targetAmount goal) a = Ok dec"
    and u: "fundGoalVersioned i (newFundedCents dec) (fund_status dec) e g = (n, h)"
  shows "elements_ok h"
proof -
  let ?f = "\<lambda>r. r\<lparr>goal_fundedAmount := newFundedCents dec, goal_status := fund_status dec\<rparr>"
  let ?rows = "snd (goal_lock.lock_update i ?f e (sharedGoals g))"
  note g = elements_ok_D [OF ok] found_row(1) [OF f]
  have h: "h = g\<lparr>sharedGoals := ?rows\<rparr>" using u by (simp add: fundGoalVersioned_eq Let_def)
  have ids: "map goal_id ?rows = map goal_id (sharedGoals g)" by (rule goal_lock.keys_kept) simp
  have "goal_wf goal" using g by (simp add: list_all_iff)
  then have "goal_wf (goal_lock.bumped_row ?f goal)" using d by (auto simp: goal_wf_def fundGoal_Ok goal_lock.bumped_row_def)
  then have "list_all goal_wf ?rows" using g by (intro goal_lock.lock_keeps_all [where r = goal]) simp_all
  then show ?thesis unfolding h elements_ok_def
    using books_by_tables(1) [OF g(1) ids] elements_wf_goals [OF g(2) ids] by simp
qed

lemma payDebt_step:
  assumes ok: "elements_ok g" and f: "findDebt i g = Some debt"
    and d: "payDebt (debt_outstandingBalance debt) a = Ok dec"
    and u: "payDebtVersioned i (newOutstandingCents dec) e g = (n, h)"
  shows "elements_ok h"
proof -
  let ?f = "\<lambda>r. r\<lparr>debt_outstandingBalance := newOutstandingCents dec\<rparr>"
  let ?rows = "snd (debt_lock.lock_update i ?f e (sharedDebts g))"
  note g = elements_ok_D [OF ok] found_row(2) [OF f]
  have h: "h = g\<lparr>sharedDebts := ?rows\<rparr>" using u by (simp add: payDebtVersioned_eq Let_def)
  have ids: "map debt_id ?rows = map debt_id (sharedDebts g)" by (rule debt_lock.keys_kept) simp
  have "0 \<le> newOutstandingCents dec" using d by (simp add: payDebt_Ok)
  then have "list_all (\<lambda>r. 0 \<le> debt_outstandingBalance r) ?rows"
    using g by (intro debt_lock.lock_keeps_all [where r = debt]) (simp_all add: debt_lock.bumped_row_def)
  then show ?thesis unfolding h elements_ok_def
    using books_by_tables(2) [OF g(1) ids] elements_wf_debts [OF g(2) ids] by simp
qed

lemma touchDebt_step:
  assumes ok: "elements_ok g" and f: "findDebt i g = Some debt" and u: "touchDebtVersioned i e g = (n, h)"
  shows "elements_ok h" and "debtResponsibilities h = debtResponsibilities g"
    and "map debt_id (sharedDebts h) = map debt_id (sharedDebts g)"
proof -
  let ?rows = "snd (debt_lock.lock_update i (\<lambda>r. r) e (sharedDebts g))"
  note g = elements_ok_D [OF ok] found_row(2) [OF f]
  have h: "h = g\<lparr>sharedDebts := ?rows\<rparr>" using u by (simp add: touchDebtVersioned_eq Let_def)
  show ids: "map debt_id (sharedDebts h) = map debt_id (sharedDebts g)" unfolding h by simp (rule debt_lock.keys_kept, simp)
  have "0 \<le> debt_outstandingBalance debt" using g by (simp add: list_all_iff)
  then have "list_all (\<lambda>r. 0 \<le> debt_outstandingBalance r) ?rows"
    using g by (intro debt_lock.lock_keeps_all [where r = debt]) (simp_all add: debt_lock.bumped_row_def)
  then show "elements_ok h" using ids unfolding h elements_ok_def
    using books_by_tables(2) [OF g(1), of ?rows] elements_wf_debts [OF g(2), of ?rows] by simp
  show "debtResponsibilities h = debtResponsibilities g" by (simp add: h)
qed

lemma updateInvestment_step:
  assumes ok: "elements_ok g" and f: "findInvestment i g = Some vest"
    and d: "updateInvestmentValue c v = Ok dec"
    and u: "updateInvestmentVersioned i dec at e g = (n, h)"
  shows "elements_ok h"
proof -
  let ?f = "\<lambda>r. r\<lparr>inv_currentValue := dec, inv_valueAsOf := at\<rparr>"
  let ?rows = "snd (investment_lock.lock_update i ?f e (sharedInvestments g))"
  note g = elements_ok_D [OF ok] found_row(3) [OF f]
  have h: "h = g\<lparr>sharedInvestments := ?rows\<rparr>" using u by (simp add: updateInvestmentVersioned_eq Let_def)
  have ids: "map inv_id ?rows = map inv_id (sharedInvestments g)" by (rule investment_lock.keys_kept) simp
  have "0 \<le> dec" using d by (simp add: updateInvestmentValue_Ok)
  then have "list_all (\<lambda>r. 0 \<le> inv_currentValue r) ?rows"
    using g by (intro investment_lock.lock_keeps_all [where r = vest]) (simp_all add: investment_lock.bumped_row_def)
  then show ?thesis unfolding h elements_ok_def
    using books_by_tables(3) [OF g(1) ids] elements_wf_investments [OF g(2) ids] by simp
qed

lemma recordSpend_step:
  assumes ok: "elements_ok g" and f: "findBudget i g = Some budget"
    and d: "recordSpend (bud_limit budget) (bud_spent budget) a = Ok dec"
    and u: "recordSpendVersioned i (newSpentCents dec) e g = (n, h)"
  shows "elements_ok h"
proof -
  let ?f = "\<lambda>r. r\<lparr>bud_spent := newSpentCents dec\<rparr>"
  let ?rows = "snd (budget_lock.lock_update i ?f e (sharedBudgets g))"
  note g = elements_ok_D [OF ok] found_row(4) [OF f]
  have h: "h = g\<lparr>sharedBudgets := ?rows\<rparr>" using u by (simp add: recordSpendVersioned_eq Let_def)
  have ids: "map bud_id ?rows = map bud_id (sharedBudgets g)" by (rule budget_lock.keys_kept) simp
  have "0 \<le> bud_limit budget \<and> 0 \<le> newSpentCents dec" using d g by (auto simp: recordSpend_Ok list_all_iff)
  then have "list_all (\<lambda>r. 0 \<le> bud_limit r \<and> 0 \<le> bud_spent r) ?rows"
    using g by (intro budget_lock.lock_keeps_all [where r = budget]) (simp_all add: budget_lock.bumped_row_def)
  then show ?thesis unfolding h elements_ok_def
    using books_by_tables(4) [OF g(1) ids] elements_wf_budgets [OF g(2) ids] by simp
qed

lemma lock_result: "updateWithOptimisticLock e upd reload oc s = (r, s') \<Longrightarrow> \<exists>n. upd e s = (n, s')"
  by (auto simp: updateWithOptimisticLock_def split: prod.splits if_splits)

lemma commits_locked_via:
  assumes "\<And>n h. upd e g = (n, h) \<Longrightarrow> P h" and "\<And>h. P h \<Longrightarrow> Q h" and "\<And>v h. P h \<Longrightarrow> commits Q (k v h)"
  shows "commits Q (then_do (updateWithOptimisticLock e upd reload oc g) k)"
  by (intro commits_then_do) (auto dest!: lock_result intro: assms)

lemma commits_locked:
  assumes "\<And>n h. upd e g = (n, h) \<Longrightarrow> P h" and "\<And>v h. P h \<Longrightarrow> commits P (k v h)"
  shows "commits P (then_do (updateWithOptimisticLock e upd reload oc g) k)"
  by (rule commits_locked_via [OF assms(1) _ assms(2)])

lemma versioned_elements:
  assumes "elements_ok g"
  shows "commits elements_ok (fundGoal_tx p i a e g)" and "commits elements_ok (paySharedDebt_tx p i a e g)"
    and "commits elements_ok (updateInvestmentValue_tx p i v e g)" and "commits elements_ok (recordBudgetSpend_tx p i a e g)"
  unfolding fundGoal_tx_def paySharedDebt_tx_def updateInvestmentValue_tx_def recordBudgetSpend_tx_def Let_def
  by (intro commits_and_then commits_locked commits_result;
      (use assms in \<open>auto simp: found_or_Ok intro: elements_writers fundGoal_step payDebt_step updateInvestment_step recordSpend_step\<close>)?)+

text \<open>New rows.\<close>

lemma books_by_insert:
  "books_ok g \<Longrightarrow> goal_id rg = new_id g \<Longrightarrow> books_ok (used_id (g\<lparr>sharedGoals := sharedGoals g @ [rg]\<rparr>))"
  "books_ok g \<Longrightarrow> debt_id rd = new_id g \<Longrightarrow> books_ok (used_id (g\<lparr>sharedDebts := sharedDebts g @ [rd]\<rparr>))"
  "books_ok g \<Longrightarrow> inv_id ri = new_id g \<Longrightarrow> books_ok (used_id (g\<lparr>sharedInvestments := sharedInvestments g @ [ri]\<rparr>))"
  "books_ok g \<Longrightarrow> bud_id rb = new_id g \<Longrightarrow> books_ok (used_id (g\<lparr>sharedBudgets := sharedBudgets g @ [rb]\<rparr>))"
  by (rule books_kept_by_ok [of g]; simp add: books_kept_by_def; rule fresh_insert [OF books_fresh]; simp add: all_ids_add)+

lemma new_element_id:
  assumes "books_ok g"
  shows "new_id g \<notin> goal_id ` set (sharedGoals g)" and "new_id g \<notin> debt_id ` set (sharedDebts g)"
    and "new_id g \<notin> inv_id ` set (sharedInvestments g)" and "new_id g \<notin> bud_id ` set (sharedBudgets g)"
  using fresh_ids_new [OF books_fresh [OF assms]] by (simp_all add: all_ids_def)

lemma createGoal_step:
  assumes ok: "elements_ok g" and "0 < target"
  shows "elements_ok (snd (createGoal t sp name target g))"
proof -
  note g = elements_ok_D [OF ok]
  let ?h = "snd (createGoal t sp name target g)"
  have "books_ok ?h" unfolding createGoal_def Let_def snd_conv by (rule books_by_insert(1) [OF g(1)]) simp
  moreover have "shares_ok ?h" by (rule shares_ok_cong [OF g(11)]) (simp_all add: createGoal_def Let_def)
  ultimately show ?thesis
    using g new_element_id(1) [OF g(1)] assms(2)
    by (simp add: elements_ok_def elements_wf_def) (simp add: createGoal_def Let_def goal_wf_def)
qed

lemma createInvestment_step:
  assumes ok: "elements_ok g" and "0 \<le> v"
  shows "elements_ok (snd (createInvestmentRow t sp name v g))"
proof -
  note g = elements_ok_D [OF ok]
  let ?h = "snd (createInvestmentRow t sp name v g)"
  have "books_ok ?h" unfolding createInvestmentRow_def Let_def snd_conv by (rule books_by_insert(3) [OF g(1)]) simp
  moreover have "shares_ok ?h" by (rule shares_ok_cong [OF g(11)]) (simp_all add: createInvestmentRow_def Let_def)
  ultimately show ?thesis
    using g new_element_id(3) [OF g(1)] assms(2)
    by (simp add: elements_ok_def elements_wf_def) (simp add: createInvestmentRow_def Let_def)
qed

lemma createBudget_step:
  assumes ok: "elements_ok g" and "0 \<le> limit" and c: "createBudgetRow t sp per category limit g = (Ok b, h)"
  shows "elements_ok h"
proof -
  note g = elements_ok_D [OF ok]
  have b: "bud_id b = new_id g" "bud_limit b = limit" "bud_spent b = 0"
    and h: "h = used_id (g\<lparr>sharedBudgets := sharedBudgets g @ [b]\<rparr>)"
    using c by (auto simp: createBudgetRow_def Let_def split: if_splits)
  have "books_ok h" unfolding h by (rule books_by_insert(4) [OF g(1) b(1)])
  moreover have "shares_ok h" by (rule shares_ok_cong [OF g(11)]) (simp_all add: h)
  ultimately show ?thesis
    using g new_element_id(4) [OF g(1)] assms(2) b by (simp add: elements_ok_def elements_wf_def) (simp add: h)
qed

lemma createBudgetRow_Err: "createBudgetRow t sp per category limit g \<noteq> (Err e, h)"
  by (simp add: createBudgetRow_def Let_def)

lemma createDebt_step:
  assumes ok: "elements_ok g" and "0 \<le> balance"
  shows "elements_ok (snd (createDebt t sp kind name balance g))"
    and "debt_id (fst (createDebt t sp kind name balance g)) \<in> debt_id ` set (sharedDebts (snd (createDebt t sp kind name balance g)))"
proof -
  note g = elements_ok_D [OF ok]
  let ?h = "snd (createDebt t sp kind name balance g)"
  have "books_ok ?h" unfolding createDebt_def Let_def snd_conv by (rule books_by_insert(2) [OF g(1)]) simp
  moreover have "shares_ok ?h" by (rule shares_ok_cong [OF g(11)]) (auto simp: createDebt_def Let_def)
  ultimately show "elements_ok ?h"
    using g new_element_id(2) [OF g(1)] assms(2)
    by (simp add: elements_ok_def elements_wf_def) (simp add: createDebt_def Let_def)
  show "debt_id (fst (createDebt t sp kind name balance g)) \<in> debt_id ` set (sharedDebts ?h)"
    by (simp add: createDebt_def Let_def)
qed

lemma create_elements:
  assumes "elements_ok g"
  shows "commits elements_ok (createSharedGoal_tx p sp name target g)"
    and "commits elements_ok (createInvestment_tx p sp name v g)"
    and "commits elements_ok (createBudget_tx p sp category limit g)"
  unfolding createSharedGoal_tx_def createInvestment_tx_def createBudget_tx_def Let_def case_prod_unfold
  by (intro commits_and_then commits_then_do commits_if commits_result;
      (use assms createBudgetRow_Err in \<open>auto simp: not_less not_le intro!: elements_writers createGoal_step createInvestment_step
         intro: createBudget_step\<close>)?)+

text \<open>A replacement of shares by well-formed shares of a known debt.\<close>

lemma replace_step:
  assumes ok: "elements_ok g" and "shares_wf ss" and "d \<in> debt_id ` set (sharedDebts g)" and "ss = [] \<or> share_sum ss = 10000"
    and r: "replaceResponsibilities t d ss g = (r, h)"
  shows "r = Ok ()" and "elements_ok h" and "debt_shares d h = ss" and "\<And>i. i \<noteq> d \<Longrightarrow> debt_shares i h = debt_shares i g"
    and "sharedDebts h = sharedDebts g"
proof -
  note g = elements_ok_D [OF ok]
  obtain k where k: "replaceResponsibilities t d ss g = (Ok (), k)" "debt_shares d k = ss"
    "\<And>i. i \<noteq> d \<Longrightarrow> debt_shares i k = debt_shares i g" "fresh_ids g \<Longrightarrow> fresh_ids k"
    "shares_ok g \<Longrightarrow> d \<in> debt_id ` set (sharedDebts g) \<Longrightarrow> ss = [] \<or> share_sum ss = 10000 \<Longrightarrow> shares_ok k"
    "\<exists>rs n. k = g\<lparr>debtResponsibilities := rs, uid_next := uid_next g + n\<rparr>"
    using replace_facts [OF assms(2), of t d g] by blast
  have hk: "r = Ok ()" "h = k" using k(1) r by simp_all
  then show "r = Ok ()" and "debt_shares d h = ss" and "\<And>i. i \<noteq> d \<Longrightarrow> debt_shares i h = debt_shares i g"
    using k(2,3) by simp_all
  obtain rs n where upd: "k = g\<lparr>debtResponsibilities := rs, uid_next := uid_next g + n\<rparr>" using k(6) by blast
  show "sharedDebts h = sharedDebts g" by (simp add: hk upd)
  have "books_ok k"
    by (rule books_kept_by_ok [OF g(1)]) (simp add: books_kept_by_def k(4) [OF books_fresh [OF g(1)]], simp add: upd)
  moreover have "shares_ok k" by (rule k(5) [OF g(11) assms(3,4)])
  ultimately show "elements_ok h"
    using g unfolding hk(2) by (simp add: elements_ok_def elements_wf_def) (simp add: upd)
qed

lemma rows_shares_wf:
  assumes "shares_ok g"
  shows "shares_wf (debt_shares i g)"
proof -
  have "distinct (map (\<lambda>r. (resp_sharedDebtId r, resp_membershipId r)) (listResponsibilities i g))"
    using assms by (auto simp: shares_ok_def listResponsibilities_def intro: distinct_map_filter)
  moreover have "\<forall>r \<in> set (listResponsibilities i g). resp_sharedDebtId r = i" by (simp add: listResponsibilities_def)
  ultimately have "distinct (map resp_membershipId (listResponsibilities i g))" by (simp add: distinct_map inj_on_def)
  moreover have "\<forall>r \<in> set (listResponsibilities i g). 0 \<le> resp_percentageBp r"
    using assms by (simp add: shares_ok_def listResponsibilities_def)
  ultimately show ?thesis by (simp add: shares_wf_def debt_shares_def shares_of_rows_def comp_def list_all_iff)
qed

lemma shares_wf_filter: "shares_wf ss \<Longrightarrow> shares_wf (filter P ss)"
  by (auto simp: shares_wf_def list_all_iff intro: distinct_map_filter)

lemma default_shares:
  assumes "plans_ok g"
  shows "\<exists>ss. defaultResponsibilitiesFor sp g = Ok ss \<and> shares_wf ss \<and> (ss = [] \<or> share_sum ss = 10000)
    \<and> map rs_membershipId ss = map m_id (activeMemberships sp g)"
proof (cases "activeMemberships sp g = []")
  case True
  then show ?thesis by (simp add: defaultResponsibilitiesFor_def shares_wf_def)
next
  case False
  define as where "as = (case currentPlan sp g of None \<Rightarrow> [] | Some plan \<Rightarrow> listAllocations (plan_id plan) g)"
  define bp where "bp = map_of (rev (map (\<lambda>a. (alloc_membershipId a, alloc_percentageBp a)) as))"
  let ?ws = "map (\<lambda>m. \<lparr>rs_membershipId = m_id m, rs_percentageBp = (case bp (m_id m) of None \<Rightarrow> 0 | Some b \<Rightarrow> b)\<rparr>)
      (activeMemberships sp g)"
  have "0 \<le> b" if "bp i = Some b" for i b
    using that map_of_SomeD [of _ i b] assms
    by (fastforce simp: bp_def as_def plans_ok_def listAllocations_def split: option.splits)
  moreover have "distinct (map m_id (activeMemberships sp g))"
    using assms by (auto simp: plans_ok_def activeMemberships_def intro: distinct_map_filter)
  ultimately have "shares_wf ?ws" by (auto simp: shares_wf_def list_all_iff comp_def split: option.splits)
  then obtain ss where "allocateBp ?ws = Ok ss" "map rs_membershipId ss = map rs_membershipId ?ws" "share_sum ss = 10000" "shares_wf ss"
    using False by (auto elim: allocateBp_ok)
  moreover have "defaultResponsibilitiesFor sp g = allocateBp ?ws"
    using False by (simp add: defaultResponsibilitiesFor_def Let_def as_def bp_def)
  ultimately show ?thesis by (auto simp: comp_def)
qed

lemma createSharedDebt_elements:
  assumes "elements_ok g"
  shows "commits elements_ok (createSharedDebt_tx p sp kind name balance g)"
proof -
  have step: "commits elements_ok (and_then (defaultResponsibilitiesFor sp (snd c)) (snd c) (\<lambda>shares.
      then_do (if shares \<noteq> [] then replaceResponsibilities (pr_tenantId p) (debt_id (fst c)) shares (snd c) else (Ok (), snd c)) (\<lambda>_ g2.
        (Ok (fst c), audit_write (pr_tenantId p) r g2))))"
    if "0 \<le> balance" and c: "c = createDebt (pr_tenantId p) sp kind name balance g" for c r
  proof -
    have ok: "elements_ok (snd c)" and d: "debt_id (fst c) \<in> debt_id ` set (sharedDebts (snd c))"
      unfolding c using createDebt_step [OF assms that(1)] by blast+
    have "plans_ok (snd c)" using ok by (simp add: elements_ok_def books_ok_def ledger_ok_def)
    from default_shares [OF this] obtain ss where ss: "defaultResponsibilitiesFor sp (snd c) = Ok ss"
      "shares_wf ss" "ss = [] \<or> share_sum ss = 10000" by blast
    obtain r' h where rep: "replaceResponsibilities (pr_tenantId p) (debt_id (fst c)) ss (snd c) = (r', h)" by fastforce
    show ?thesis
      using ss(1) ok rep replace_step(1,2) [OF ok ss(2) d ss(3) rep] by (auto intro!: commits_result elements_writers)
  qed
  show ?thesis unfolding createSharedDebt_tx_def Let_def case_prod_unfold
    by (intro commits_and_then commits_if commits_result assms step) auto
qed

lemma rescale_wf:
  assumes "shares_wf ss" and "0 \<le> tot" and "rescale_others tot ss = Ok rs"
  shows "shares_wf rs" and "map rs_membershipId rs = map rs_membershipId ss"
proof -
  have "shares_wf rs \<and> map rs_membershipId rs = map rs_membershipId ss"
  proof (cases "share_sum ss = 0")
    case True
    have w: "valid_weights (map weight_of ss)" "weight_sum (map weight_of ss) = share_sum ss"
      using assms(1) by (auto simp: valid_weights_def shares_wf_def list_all_iff weight_of_def weight_sum_def share_sum_def comp_def)
    have "allocateByLargestRemainder tot (map weight_of ss)
        = Ok (map (\<lambda>s. \<lparr>share_id = weight_id s, share_cents = 0\<rparr>) (map weight_of ss))"
      using assms(2) total_weight_valid [OF w(1), of 0] w(2) True by (simp add: allocateByLargestRemainder_def)
    then have rs: "rs = map (\<lambda>s. \<lparr>rs_membershipId = rs_membershipId s, rs_percentageBp = 0\<rparr>) ss"
      using assms(3) by (auto simp: rescale_others_def share_of_def weight_of_def)
    show ?thesis using assms(1) by (simp add: rs shares_wf_def comp_def list_all_iff)
  next
    case False
    then have "0 < share_sum ss" using share_sum_nonneg [OF assms(1)] by simp
    from split_shares [OF assms(1) this assms(2)] assms(3) show ?thesis
      by (metis rescale_others_def result_map.simps(1) result.inject(1))
  qed
  then show "shares_wf rs" and "map rs_membershipId rs = map rs_membershipId ss" by simp_all
qed

lemma setDebtResponsibility_elements:
  assumes ok: "elements_ok g"
  shows "commits elements_ok (setDebtResponsibility_tx p i m bp e g)"
proof -
  note g = elements_ok_D [OF ok]
  let ?others = "filter (\<lambda>s. rs_membershipId s \<noteq> m) (debt_shares i g)"
  have finish: "commits elements_ok (then_do (updateWithOptimisticLock e (touchDebtVersioned i) (findDebt i) None g) (\<lambda>locked g1.
       then_do (replaceResponsibilities t i (\<lparr>rs_membershipId = m, rs_percentageBp = bp_of bp\<rparr> # rescaled) g1) (\<lambda>_ g2.
       and_then (asserted locked) g2 (\<lambda>updated. (Ok updated, audit_write t r (emit t et at ai ac pl g2))))))"
    if f: "findDebt i g = Some debt" and rng: "in_bp_range bp"
      and rs: "rescale_others (FULL_BP - bp_of bp) ?others = Ok rescaled"
      and total: "validateSumTo100 (\<lparr>rs_membershipId = m, rs_percentageBp = bp_of bp\<rparr> # rescaled) = Ok ()"
    for debt rescaled t r et at ai ac pl
  proof (rule commits_locked_via [where P = "\<lambda>h. elements_ok h \<and> i \<in> debt_id ` set (sharedDebts h)"])
    fix n h assume u: "touchDebtVersioned i e g = (n, h)"
    show "elements_ok h \<and> i \<in> debt_id ` set (sharedDebts h)"
      using touchDebt_step(1,3) [OF ok f u] found_row(2) [OF f] by (metis image_eqI list.set_map)
  next
    fix v h assume h: "elements_ok h \<and> i \<in> debt_id ` set (sharedDebts h)"
    let ?new = "\<lparr>rs_membershipId = m, rs_percentageBp = bp_of bp\<rparr> # rescaled"
    have b: "0 \<le> bp_of bp" "bp_of bp \<le> 10000" using in_bp_range_bp [OF rng] by simp_all
    have "shares_wf ?others" by (rule shares_wf_filter) (rule rows_shares_wf [OF g(11)])
    from rescale_wf [OF this _ rs] b have rw: "shares_wf rescaled" "map rs_membershipId rescaled = map rs_membershipId ?others"
      by (simp_all add: FULL_BP_def)
    have "m \<notin> set (map rs_membershipId rescaled)" unfolding rw(2) by auto
    then have wf: "shares_wf ?new" using rw(1) b by (simp add: shares_wf_def)
    have tot: "?new = [] \<or> share_sum ?new = 10000" using total by (simp only: validateSumTo100_Ok) simp
    obtain r' k where rep: "replaceResponsibilities t i ?new h = (r', k)" by fastforce
    from replace_step(1,2) [OF conjunct1 [OF h] wf conjunct2 [OF h] tot rep] rep
    show "commits elements_ok (then_do (replaceResponsibilities t i ?new h) (\<lambda>_ g2.
       and_then (asserted v) g2 (\<lambda>updated. (Ok updated, audit_write t r (emit t et at ai ac pl g2)))))"
      by (auto intro!: commits_and_then commits_result elements_writers)
  qed simp
  show ?thesis
    unfolding setDebtResponsibility_tx_def Let_def debt_shares_def [symmetric]
    by (intro commits_and_then commits_if commits_result ok finish) (auto simp: found_or_Ok)
qed

subsection \<open>Reassignment\<close>

lemma reassign_shares:
  assumes "shares_wf ss"
  shows "\<exists>rs. reassignOnLeave ss m = Ok rs \<and> shares_wf rs \<and> (rs = [] \<or> share_sum rs = 10000)
    \<and> map rs_membershipId rs = filter (\<lambda>i. i \<noteq> m) (map rs_membershipId ss)"
proof (cases "filter (\<lambda>s. rs_membershipId s \<noteq> m) ss = []")
  case True
  then have "filter (\<lambda>i. i \<noteq> m) (map rs_membershipId ss) = []" by (auto simp: filter_empty_conv)
  with True show ?thesis by (simp add: reassignOnLeave_def shares_wf_def)
next
  case False
  from allocateBp_ok [OF shares_wf_filter [OF assms] False] obtain rs where
    "allocateBp (filter (\<lambda>s. rs_membershipId s \<noteq> m) ss) = Ok rs"
    "map rs_membershipId rs = map rs_membershipId (filter (\<lambda>s. rs_membershipId s \<noteq> m) ss)" "share_sum rs = 10000" "shares_wf rs"
    by blast
  with False show ?thesis by (simp add: reassignOnLeave_def Let_def filter_map comp_def)
qed

definition responsible :: "uuid \<Rightarrow> uuid \<Rightarrow> db \<Rightarrow> bool" where
  "responsible m i g \<longleftrightarrow> m \<in> rs_membershipId ` set (debt_shares i g)"

lemma responsible_ex: "list_ex (\<lambda>s. rs_membershipId s = m) (debt_shares i g) \<longleftrightarrow> responsible m i g"
  by (auto simp: list_ex_iff responsible_def)

lemma reassign_loop_exact:
  assumes "elements_ok g" and "set (map debt_id ds) \<subseteq> debt_id ` set (sharedDebts g)" and "distinct (map debt_id ds)"
  shows "\<exists>h. reassign_loop t m ds k g = (Ok (k + length (filter (\<lambda>d. responsible m (debt_id d) g) ds)), h)
    \<and> elements_ok h \<and> sharedDebts h = sharedDebts g
    \<and> (\<forall>d \<in> set ds. if responsible m (debt_id d) g
         then reassignOnLeave (debt_shares (debt_id d) g) m = Ok (debt_shares (debt_id d) h)
         else debt_shares (debt_id d) h = debt_shares (debt_id d) g)
    \<and> (\<forall>i. i \<notin> set (map debt_id ds) \<longrightarrow> debt_shares i h = debt_shares i g)"
  using assms
proof (induction ds arbitrary: g k)
  case Nil
  then show ?case by simp
next
  case (Cons d ds)
  have sub: "set (map debt_id ds) \<subseteq> debt_id ` set (sharedDebts g)" "distinct (map debt_id ds)"
    and new: "debt_id d \<notin> set (map debt_id ds)" using Cons.prems(2,3) by auto
  show ?case
  proof (cases "responsible m (debt_id d) g")
    case False
    then have "reassign_loop t m (d # ds) k g = reassign_loop t m ds k g"
      by (simp add: debt_shares_def [symmetric] responsible_ex)
    with Cons.IH [OF Cons.prems(1) sub, of k] False new show ?thesis by auto
  next
    case True
    obtain ss where ss: "reassignOnLeave (debt_shares (debt_id d) g) m = Ok ss" "shares_wf ss" "ss = [] \<or> share_sum ss = 10000"
      using reassign_shares rows_shares_wf Cons.prems(1) elements_ok_D(11) by blast
    obtain r k1 where rep: "replaceResponsibilities t (debt_id d) ss g = (r, k1)" by fastforce
    have din: "debt_id d \<in> debt_id ` set (sharedDebts g)" using Cons.prems(2) by simp
    note f = replace_step [OF Cons.prems(1) ss(2) din ss(3) rep]
    have run: "reassign_loop t m (d # ds) k g = reassign_loop t m ds (k + 1) k1"
      using True ss(1) rep f(1) by (simp add: debt_shares_def [symmetric] responsible_ex)
    have same: "debt_shares (debt_id e) k1 = debt_shares (debt_id e) g" if "e \<in> set ds" for e
      using that new by (intro f(4)) (auto simp: image_iff)
    then have resp: "responsible m (debt_id e) k1 = responsible m (debt_id e) g" if "e \<in> set ds" for e
      using that by (simp add: responsible_def)
    then have cnt: "filter (\<lambda>d. responsible m (debt_id d) k1) ds = filter (\<lambda>d. responsible m (debt_id d) g) ds"
      by (intro filter_cong) auto
    obtain h where IH: "reassign_loop t m ds (k + 1) k1
        = (Ok (k + 1 + length (filter (\<lambda>d. responsible m (debt_id d) k1) ds)), h)"
      "elements_ok h" "sharedDebts h = sharedDebts k1"
      "\<forall>e \<in> set ds. if responsible m (debt_id e) k1
         then reassignOnLeave (debt_shares (debt_id e) k1) m = Ok (debt_shares (debt_id e) h)
         else debt_shares (debt_id e) h = debt_shares (debt_id e) k1"
      "\<forall>i. i \<notin> set (map debt_id ds) \<longrightarrow> debt_shares i h = debt_shares i k1"
      using Cons.IH [OF f(2) _ sub(2), of "k + 1"] sub(1) f(5) by auto
    have "debt_shares (debt_id d) h = ss" using IH(5) new f(3) by simp
    moreover have "\<forall>e \<in> set ds. if responsible m (debt_id e) g
         then reassignOnLeave (debt_shares (debt_id e) g) m = Ok (debt_shares (debt_id e) h)
         else debt_shares (debt_id e) h = debt_shares (debt_id e) g"
    proof
      fix e assume e: "e \<in> set ds"
      from bspec [OF IH(4) e] show "if responsible m (debt_id e) g
         then reassignOnLeave (debt_shares (debt_id e) g) m = Ok (debt_shares (debt_id e) h)
         else debt_shares (debt_id e) h = debt_shares (debt_id e) g"
        by (simp only: same [OF e] resp [OF e])
    qed
    moreover have "debt_shares i h = debt_shares i g" if "i \<notin> set (map debt_id (d # ds))" for i
      using IH(5) f(4) that by simp
    ultimately show ?thesis
      using run IH(1,2,3) cnt True ss(1) f(5) by simp
  qed
qed

end
