(* ===== verification/ElementsRuns.thy ===== *)
theory ElementsRuns
  imports Elements
begin

section \<open>Runs of the financial use cases\<close>

text \<open>
  The use cases of the shared elements as commands: they and the contribution use cases keep the
  books and the elements well-formed. Then what single steps promise: payments against an
  abstract specification, reassignment of shares.
\<close>

datatype element_command =
    CreateGoal uuid string cents
  | FundGoal uuid cents int
  | CreateDebt uuid shared_debt_kind string cents
  | PayDebt uuid cents int
  | SetResponsibility uuid uuid js_number int
  | CreateInvestment uuid string cents
  | UpdateInvestment uuid cents int
  | CreateBudget uuid string cents
  | RecordSpend uuid cents int
  | ReassignShares uuid uuid

fun run_element :: "tenant_principal \<Rightarrow> element_command \<Rightarrow> db \<Rightarrow> unit result \<times> db" where
  "run_element p (CreateGoal sp name target) g = discard (createSharedGoal p sp name target g)"
| "run_element p (FundGoal i a e) g = discard (fundGoal_uc p i a e g)"
| "run_element p (CreateDebt sp kind name balance) g = discard (createSharedDebt p sp kind name balance g)"
| "run_element p (PayDebt i a e) g = discard (paySharedDebt p i a e g)"
| "run_element p (SetResponsibility i m bp e) g = discard (setDebtResponsibility p i m bp e g)"
| "run_element p (CreateInvestment sp name v) g = discard (createInvestment p sp name v g)"
| "run_element p (UpdateInvestment i v e) g = discard (updateInvestmentValue_uc p i v e g)"
| "run_element p (CreateBudget sp category limit) g = discard (createBudget p sp category limit g)"
| "run_element p (RecordSpend i a e) g = discard (recordBudgetSpend p i a e g)"
| "run_element p (ReassignShares sp m) g = discard (reassignForLeftMember (pr_tenantId p) sp m g)"

subsection \<open>The contribution use cases leave the elements alone\<close>

definition elements_same :: "db \<Rightarrow> db \<Rightarrow> bool" where
  "elements_same g h \<longleftrightarrow> sharedGoals h = sharedGoals g \<and> sharedDebts h = sharedDebts g
     \<and> debtResponsibilities h = debtResponsibilities g \<and> sharedInvestments h = sharedInvestments g
     \<and> sharedBudgets h = sharedBudgets g"

lemma elements_same_refl [simp]: "elements_same g g"
  by (simp add: elements_same_def)

lemma elements_same_trans: "elements_same a b \<Longrightarrow> elements_same b c \<Longrightarrow> elements_same a c"
  by (simp add: elements_same_def)

lemma elements_same_ok: "elements_ok g \<Longrightarrow> books_ok h \<Longrightarrow> elements_same g h \<Longrightarrow> elements_ok h"
  by (simp add: elements_ok_def elements_same_def elements_wf_cong [of g h])

named_theorems same_intros "operations that leave the elements alone"

lemma same_writers [same_intros]:
  "elements_same g h \<Longrightarrow> elements_same g (used_id h)"
  "elements_same g h \<Longrightarrow> elements_same g (emit t et at ai ac pl h)"
  "elements_same g h \<Longrightarrow> elements_same g (audit_write t r h)"
  by (simp_all add: elements_same_def)

lemma same_upsert [same_intros]: "elements_same g h \<Longrightarrow> elements_same g (upsertAllocation t pl m b h)"
  by (auto simp: upsertAllocation_def elements_same_def split: option.splits)

lemma same_upsert_all [same_intros]: "elements_same g h \<Longrightarrow> elements_same g (upsert_all t pl as h)"
  by (induction as arbitrary: h) (simp_all add: same_upsert)

lemma same_createPlan: "createPlan t sp v i ef g = (r, h) \<Longrightarrow> elements_same g h"
  by (auto simp: createPlan_def Let_def elements_same_def split: if_splits)

lemma same_planOrFirst: "planOrFirst t sp i g = (r, h) \<Longrightarrow> elements_same g h"
  by (auto simp: planOrFirst_def same_createPlan split: option.splits)

lemma same_openPeriod [same_intros]: "elements_same g h \<Longrightarrow> elements_same g (snd (openPeriod t sp s e h))"
  by (simp add: openPeriod_def createPeriod_def elements_same_def Let_def)

lemma same_ensure [same_intros]: "elements_same g h \<Longrightarrow> elements_same g (snd (ensureOpenPeriod t f now h))"
  by (auto simp: ensureOpenPeriod_def Let_def same_openPeriod split: option.splits)

lemma same_record [same_intros]: "elements_same g h \<Longrightarrow> elements_same g (snd (createRecord t d h))"
  by (simp add: createRecord_def elements_same_def Let_def)

lemma same_close [same_intros]: "elements_same g h \<Longrightarrow> elements_same g (closePeriod i h)"
  by (simp add: closePeriod_def elements_same_def)

lemma same_income [same_intros]: "elements_same g h \<Longrightarrow> elements_same g (setIncome i c h)"
  by (simp add: setIncome_def elements_same_def)

lemma same_use_cases:
  "commits (elements_same g) (setDeclaredIncome_tx p si g)"
  "commits (elements_same g) (setAllocation_tx p sa g)"
  "commits (elements_same g) (recordContribution_tx p rc g)"
  "commits (elements_same g) (redistribute_tx p sp as g)"
  unfolding setDeclaredIncome_tx_def setAllocation_tx_def recordContribution_tx_def redistribute_tx_def Let_def case_prod_unfold
  by (intro commits_and_then commits_then_do commits_if commits_result;
      (auto intro!: same_intros dest: same_createPlan same_planOrFirst)?)+

lemma same_rollover_loop: "rollover_loop t now ps k g = (r, h) \<Longrightarrow> elements_same g h"
proof (induction ps arbitrary: k g)
  case Nil
  then show ?case by simp
next
  case (Cons p ps)
  show ?case
  proof (cases "isPeriodDue (per_endDate p) now")
    case False
    with Cons show ?thesis by simp
  next
    case True
    then show ?thesis using Cons.prems
      by (cases "snapshotMembers p g"; cases "reconcile (case snapshotMembers p g of Ok ms \<Rightarrow> ms) (actualByMember (per_id p) g)")
        (auto simp: Let_def case_prod_unfold split: option.splits if_splits dest!: Cons.IH
          elim!: elements_same_trans [rotated] intro!: same_intros)
  qed
qed

lemma same_rollover: "commits (elements_same g) (rolloverForTenant_tx t g)"
  using same_rollover_loop [of t "clock g" "duePeriods (clock g) g" 0 g]
  by (cases "rolloverForTenant_tx t g") (auto simp: commits_def rolloverForTenant_tx_def)

lemma contribution_elements:
  assumes "elements_ok g"
  shows "commits elements_ok (setDeclaredIncome_tx p si g)" and "commits elements_ok (setAllocation_tx p sa g)"
    and "commits elements_ok (recordContribution_tx p rc g)" and "commits elements_ok (redistribute_tx p sp as g)"
    and "commits elements_ok (rolloverForTenant_tx t g)"
proof -
  have b: "books_ok g" using assms by (simp add: elements_ok_def)
  have both: "commits elements_ok c" if "commits books_ok c" "commits (elements_same g) c" for c :: "'a result \<times> db"
    by (rule commits_mono [OF commits_conj [OF that]]) (use assms elements_same_ok in blast)
  show "commits elements_ok (setDeclaredIncome_tx p si g)" by (rule both [OF setDeclaredIncome_books [OF b] same_use_cases(1)])
  show "commits elements_ok (setAllocation_tx p sa g)" by (rule both [OF setAllocation_books [OF b] same_use_cases(2)])
  show "commits elements_ok (recordContribution_tx p rc g)" by (rule both [OF recordContribution_books [OF b] same_use_cases(3)])
  show "commits elements_ok (redistribute_tx p sp as g)" by (rule both [OF redistribute_books [OF b] same_use_cases(4)])
  show "commits elements_ok (rolloverForTenant_tx t g)" by (rule both [OF rollover_books [OF b] same_rollover])
qed

subsection \<open>The element use cases advance the identifier supply\<close>

lemma advance_versioned:
  "fundGoalVersioned i f s e g = (n, h) \<Longrightarrow> ids_advance g h"
  "payDebtVersioned i b e g = (n, h) \<Longrightarrow> ids_advance g h"
  "touchDebtVersioned i e g = (n, h) \<Longrightarrow> ids_advance g h"
  "updateInvestmentVersioned i v at e g = (n, h) \<Longrightarrow> ids_advance g h"
  "recordSpendVersioned i sp e g = (n, h) \<Longrightarrow> ids_advance g h"
  by (auto simp: versioned_eqs Let_def ids_advance_def)

lemma advance_create [advance_intros]:
  "ids_advance g h \<Longrightarrow> ids_advance g (snd (createGoal t sp name target h))"
  "ids_advance g h \<Longrightarrow> ids_advance g (snd (createDebt t sp kind name target h))"
  "ids_advance g h \<Longrightarrow> ids_advance g (snd (createInvestmentRow t sp name target h))"
  by (simp_all add: createGoal_def createDebt_def createInvestmentRow_def Let_def ids_advance_def)

lemma advance_createBudgetRow: "createBudgetRow t sp per category limit g = (r, h) \<Longrightarrow> ids_advance g h"
  by (auto simp: createBudgetRow_def Let_def ids_advance_def split: if_splits)

lemma advance_responsibilities: "createResponsibilities t d ss g = (r, h) \<Longrightarrow> ids_advance g h"
proof (induction ss arbitrary: g)
  case Nil
  then show ?case by simp
next
  case (Cons s ss)
  then show ?case by (auto split: if_splits dest!: Cons.IH elim!: ids_advance_trans [rotated] simp: ids_advance_def)
qed

lemma advance_replace: "replaceResponsibilities t d ss g = (r, h) \<Longrightarrow> ids_advance g h"
  unfolding replaceResponsibilities_def by (drule advance_responsibilities) (simp add: ids_advance_def)

lemma advance_reassign_loop: "reassign_loop t m ds k g = (r, h) \<Longrightarrow> ids_advance g h"
proof (induction ds arbitrary: k g)
  case Nil
  then show ?case by simp
next
  case (Cons d ds)
  then show ?case
    by (auto simp: Let_def and_then_def then_do_def split: if_splits result.splits prod.splits
        dest!: Cons.IH advance_replace elim: ids_advance_trans)
qed

lemma advance_elements:
  "commits (ids_advance g) (createSharedGoal_tx p sp name target g)"
  "commits (ids_advance g) (fundGoal_tx p i a e g)"
  "commits (ids_advance g) (paySharedDebt_tx p i a e g)"
  "commits (ids_advance g) (createInvestment_tx p sp name v g)"
  "commits (ids_advance g) (updateInvestmentValue_tx p i v e g)"
  "commits (ids_advance g) (createBudget_tx p sp category limit g)"
  "commits (ids_advance g) (recordBudgetSpend_tx p i a e g)"
  unfolding createSharedGoal_tx_def fundGoal_tx_def paySharedDebt_tx_def createInvestment_tx_def updateInvestmentValue_tx_def
    createBudget_tx_def recordBudgetSpend_tx_def Let_def case_prod_unfold
  by (intro commits_and_then commits_locked commits_then_do commits_if commits_result;
      (auto intro!: advance_intros dest: advance_versioned advance_createBudgetRow)?)+

lemma advance_createSharedDebt: "commits (ids_advance g) (createSharedDebt_tx p sp kind name balance g)"
proof -
  have create: "ids_advance g (snd (createDebt t sp kind name balance g))" for t by (rule advance_create(2)) simp
  have replace: "ids_advance g h" if "ids_advance g k" "replaceResponsibilities t d ss k = (r, h)" for t d ss k r h
    using that advance_replace ids_advance_trans by blast
  show ?thesis
    unfolding createSharedDebt_tx_def Let_def case_prod_unfold
    by (intro commits_and_then commits_then_do commits_if commits_result)
      (auto intro: create advance_writers replace split: if_splits)
qed

lemma advance_setDebtResponsibility: "commits (ids_advance g) (setDebtResponsibility_tx p i m bp e g)"
proof -
  have replace: "ids_advance g h" if "ids_advance g k" "replaceResponsibilities t d ss k = (r, h)" for t d ss k r h
    using that advance_replace ids_advance_trans by blast
  show ?thesis
    unfolding setDebtResponsibility_tx_def Let_def
    by (intro commits_and_then commits_locked commits_then_do commits_if commits_result;
        (auto intro!: advance_writers dest: advance_versioned intro: replace)?)
qed

lemma advance_reassign: "commits (ids_advance g) (reassignForLeftMember_tx t sp m g)"
  using advance_reassign_loop [of t m "debtsForProfile sp g" 0 g]
  by (cases "reassignForLeftMember_tx t sp m g") (auto simp: commits_def reassignForLeftMember_tx_def)

subsection \<open>The invariant of every run\<close>

lemma reassign_elements:
  assumes "elements_ok g"
  shows "commits elements_ok (reassignForLeftMember_tx t sp m g)"
proof -
  have "set (map debt_id (debtsForProfile sp g)) \<subseteq> debt_id ` set (sharedDebts g)" by (auto simp: debtsForProfile_def)
  moreover have "distinct (map debt_id (debtsForProfile sp g))"
    using elements_ok_D(5) [OF assms] by (auto simp: debtsForProfile_def intro: distinct_map_filter)
  ultimately show ?thesis
    using reassign_loop_exact [OF assms, of "debtsForProfile sp g" t m 0]
    by (auto simp: commits_def reassignForLeftMember_tx_def)
qed

lemma elements_same_tables:
  assumes "elements_ok a" and "same_tables a b" and "uid b = uid a" and "uid_next a \<le> uid_next b"
  shows "elements_ok b"
proof -
  have b: "b = a\<lparr>uid := uid b, uid_next := uid_next b, clock := clock b\<rparr>"
    using assms(2) by (simp add: same_tables_def)
  have "elements_same a b" by (subst b) (simp add: elements_same_def)
  moreover have "books_ok b"
    by (rule books_same_tables [OF elements_ok_D(1) [OF assms(1)] assms(2-4)])
  ultimately show ?thesis using elements_same_ok [OF assms(1)] by blast
qed

lemma start_elements:
  assumes "books_ok g" and "sharedGoals g = []" "sharedDebts g = []" "debtResponsibilities g = []"
    "sharedInvestments g = []" "sharedBudgets g = []"
  shows "elements_ok g"
  using assms by (simp add: elements_ok_def elements_wf_def shares_ok_def debt_shares_def listResponsibilities_def shares_of_rows_def)

text \<open>
  What well-formed elements promise: no debt is below zero, the shares of every debt that has any sum
  to exactly 100%, a goal is achieved exactly when its funding has reached its target, and no
  budget or investment is negative.
\<close>

lemma elements_facts:
  assumes "elements_ok g"
  shows "list_all (\<lambda>d. 0 \<le> debt_outstandingBalance d
        \<and> (listResponsibilities (debt_id d) g = []
           \<or> validateSumTo100 (shares_of_rows (listResponsibilities (debt_id d) g)) = Ok ())) (sharedDebts g)"
    and "list_all (\<lambda>r. Store.goal_status r = (if goal_targetAmount r \<le> goal_fundedAmount r then GOAL_ACHIEVED else GOAL_ACTIVE))
      (sharedGoals g)"
    and "list_all (\<lambda>r. 0 \<le> inv_currentValue r) (sharedInvestments g)"
    and "list_all (\<lambda>r. 0 \<le> bud_limit r \<and> 0 \<le> bud_spent r) (sharedBudgets g)"
proof -
  have sums: "listResponsibilities i g = [] \<or> validateSumTo100 (shares_of_rows (listResponsibilities i g)) = Ok ()" for i
    using elements_ok_D(11) [OF assms] by (auto simp: shares_ok_def debt_shares_def validateSumTo100_Ok shares_of_rows_def)
  note d = elements_ok_D(4,6,8,10) [OF assms]
  show "list_all (\<lambda>d. 0 \<le> debt_outstandingBalance d
        \<and> (listResponsibilities (debt_id d) g = []
           \<or> validateSumTo100 (shares_of_rows (listResponsibilities (debt_id d) g)) = Ok ())) (sharedDebts g)"
    using d sums by (auto simp: list_all_iff)
  show "list_all (\<lambda>r. Store.goal_status r = (if goal_targetAmount r \<le> goal_fundedAmount r then GOAL_ACHIEVED else GOAL_ACTIVE))
      (sharedGoals g)"
    using d by (auto simp: list_all_iff goal_wf_def)
  show "list_all (\<lambda>r. 0 \<le> inv_currentValue r) (sharedInvestments g)"
    and "list_all (\<lambda>r. 0 \<le> bud_limit r \<and> 0 \<le> bud_spent r) (sharedBudgets g)" using d by simp_all
qed

subsection \<open>The abstract account of debts\<close>

text \<open>What a client knows of the debts: balance and version under each identifier.\<close>

definition debt_book :: "db \<Rightarrow> uuid \<Rightarrow> (cents \<times> int) option" where
  "debt_book g i = map_option (\<lambda>r. (debt_outstandingBalance r, debt_version r)) (findDebt i g)"

text \<open>A payment as the contract states it: the failure, if any, and the new book.\<close>

definition pay_spec :: "uuid \<Rightarrow> cents \<Rightarrow> int \<Rightarrow> (uuid \<Rightarrow> (cents \<times> int) option)
    \<Rightarrow> domain_error_code option \<times> (uuid \<Rightarrow> (cents \<times> int) option)" where
  "pay_spec i a e book =
     (case book i of
        None \<Rightarrow> (Some NOT_FOUND, book)
      | Some (balance, version) \<Rightarrow>
          if a \<le> 0 then (Some VALIDATION, book)
          else if balance < a then (Some OVERPAYMENT, book)
          else if version \<noteq> e then (Some CONFLICT, book)
          else (None, book(i \<mapsto> (balance - a, version + 1))))"

lemma debt_book_cong: "sharedDebts h = sharedDebts g \<Longrightarrow> debt_book h = debt_book g"
  by (rule ext) (simp add: debt_book_def findDebt_def)

lemma pay_locked:
  assumes d: "distinct (map debt_id (sharedDebts g))" and f: "findDebt i g = Some debt"
  shows "debt_version debt \<noteq> e \<Longrightarrow> payDebtVersioned i b e g = (0, g)"
    and "debt_version debt = e \<Longrightarrow> \<exists>n h. payDebtVersioned i b e g = (Suc n, h)
        \<and> debt_book h = (debt_book g)(i \<mapsto> (b, e + 1)) \<and> findDebt i h \<noteq> None"
proof -
  let ?f = "\<lambda>r. r\<lparr>debt_outstandingBalance := b\<rparr>"
  have g: "debt \<in> set (sharedDebts g)" "debt_id debt = i" using found_row(2) [OF f] by simp_all
  have only: "q = debt" if "q \<in> set (sharedDebts g)" "debt_id q = i" for q
    using distinct_key_eq [OF d that(1) g(1)] that(2) g(2) by simp
  show "debt_version debt \<noteq> e \<Longrightarrow> payDebtVersioned i b e g = (0, g)"
    using debt_lock.lock_update_stale [of "sharedDebts g" i e ?f] only by (force simp: payDebtVersioned_eq Let_def)
  assume e: "debt_version debt = e"
  let ?h = "g\<lparr>sharedDebts := update_where (\<lambda>q. debt_id q = i) (debt_lock.bumped_row ?f) (sharedDebts g)\<rparr>"
  have u: "payDebtVersioned i b e g = (1, ?h)"
    using debt_lock.lock_update_current [OF d g(1), of ?f] e g(2) by (simp add: payDebtVersioned_eq Let_def)
  have own: "findDebt i ?h = Some (debt_lock.bumped_row ?f debt)"
    using f by (simp add: findDebt_def find_update_where_same debt_lock.bumped_row_def)
  have other: "findDebt j ?h = findDebt j g" if "j \<noteq> i" for j
    unfolding findDebt_def using that by simp (rule find_update_where_other, simp add: debt_lock.bumped_row_def)
  have "debt_book ?h = (debt_book g)(i \<mapsto> (b, e + 1))"
  proof
    fix j show "debt_book ?h j = ((debt_book g)(i \<mapsto> (b, e + 1))) j"
      using own other [of j] e by (cases "j = i") (simp_all add: debt_book_def debt_lock.bumped_row_def)
  qed
  with u own show "\<exists>n h. payDebtVersioned i b e g = (Suc n, h) \<and> debt_book h = (debt_book g)(i \<mapsto> (b, e + 1)) \<and> findDebt i h \<noteq> None"
    by (intro exI [of _ 0] exI [of _ ?h]) simp
qed

lemma reassign_none:
  "(\<And>d. d \<in> set ds \<Longrightarrow> \<not> responsible m (debt_id d) g) \<Longrightarrow> reassign_loop t m ds k g = (Ok k, g)"
  by (induction ds) (simp_all add: debt_shares_def [symmetric] responsible_ex)

text \<open>Reassignment, all together.\<close>

lemma reassign_facts:
  assumes "elements_ok g" and "reassignForLeftMember_tx t sp m g = (r, h)"
  shows "isOk r \<and> list_all (\<lambda>d. m \<notin> set (map rs_membershipId (debt_shares (debt_id d) h))
        \<and> map rs_membershipId (debt_shares (debt_id d) h)
            = filter (\<lambda>i. i \<noteq> m) (map rs_membershipId (debt_shares (debt_id d) g))
        \<and> (debt_shares (debt_id d) h = [] \<or> share_sum (debt_shares (debt_id d) h) = 10000)) (debtsForProfile sp g)
    \<and> (i \<notin> debt_id ` set (debtsForProfile sp g) \<longrightarrow> debt_shares i h = debt_shares i g)
    \<and> reassignForLeftMember_tx t sp m h = (Ok 0, h)"
proof -
  let ?ds = "debtsForProfile sp g"
  have "set (map debt_id ?ds) \<subseteq> debt_id ` set (sharedDebts g)" by (auto simp: debtsForProfile_def)
  moreover have "distinct (map debt_id ?ds)"
    using elements_ok_D(5) [OF assms(1)] by (auto simp: debtsForProfile_def intro: distinct_map_filter)
  ultimately have ex: "isOk r" "elements_ok h" "sharedDebts h = sharedDebts g"
    "\<And>d. d \<in> set ?ds \<Longrightarrow> if responsible m (debt_id d) g
         then reassignOnLeave (debt_shares (debt_id d) g) m = Ok (debt_shares (debt_id d) h)
         else debt_shares (debt_id d) h = debt_shares (debt_id d) g"
    "\<And>i. i \<notin> set (map debt_id ?ds) \<Longrightarrow> debt_shares i h = debt_shares i g"
    using reassign_loop_exact [OF assms(1), of ?ds t m 0] assms(2) unfolding reassignForLeftMember_tx_def by auto
  have each: "map rs_membershipId (debt_shares (debt_id d) h) = filter (\<lambda>i. i \<noteq> m) (map rs_membershipId (debt_shares (debt_id d) g))
      \<and> (debt_shares (debt_id d) h = [] \<or> share_sum (debt_shares (debt_id d) h) = 10000)" if "d \<in> set ?ds" for d
  proof (cases "responsible m (debt_id d) g")
    case True
    with ex(4) [OF that] reassign_shares [OF rows_shares_wf [OF elements_ok_D(11) [OF assms(1)]], of "debt_id d" m]
    show ?thesis by auto
  next
    case False
    have "filter (\<lambda>i. i \<noteq> m) (map rs_membershipId (debt_shares (debt_id d) g)) = map rs_membershipId (debt_shares (debt_id d) g)"
      using False by (auto simp: responsible_def filter_id_conv)
    then show ?thesis
      using False ex(4) [OF that] elements_ok_D(11) [OF assms(1)] by (simp add: shares_ok_def)
  qed
  have gone: "\<not> responsible m (debt_id d) h" if "d \<in> set ?ds" for d
  proof -
    have "m \<notin> set (map rs_membershipId (debt_shares (debt_id d) h))" using each [OF that] by simp
    then show ?thesis by (simp add: responsible_def)
  qed
  moreover have "debtsForProfile sp h = ?ds" by (simp add: debtsForProfile_def ex(3))
  ultimately have "reassignForLeftMember_tx t sp m h = (Ok 0, h)"
    by (simp add: reassignForLeftMember_tx_def reassign_none)
  moreover have "list_all (\<lambda>d. m \<notin> set (map rs_membershipId (debt_shares (debt_id d) h))
      \<and> map rs_membershipId (debt_shares (debt_id d) h) = filter (\<lambda>i. i \<noteq> m) (map rs_membershipId (debt_shares (debt_id d) g))
      \<and> (debt_shares (debt_id d) h = [] \<or> share_sum (debt_shares (debt_id d) h) = 10000)) ?ds"
    unfolding list_all_iff
  proof
    fix d assume d: "d \<in> set ?ds"
    from gone [OF d] have "m \<notin> set (map rs_membershipId (debt_shares (debt_id d) h))" by (simp add: responsible_def)
    with each [OF d] show "m \<notin> set (map rs_membershipId (debt_shares (debt_id d) h))
      \<and> map rs_membershipId (debt_shares (debt_id d) h) = filter (\<lambda>i. i \<noteq> m) (map rs_membershipId (debt_shares (debt_id d) g))
      \<and> (debt_shares (debt_id d) h = [] \<or> share_sum (debt_shares (debt_id d) h) = 10000)" by blast
  qed
  moreover have "i \<notin> debt_id ` set ?ds \<longrightarrow> debt_shares i h = debt_shares i g" using ex(5) [of i] by simp
  ultimately show ?thesis using ex(1) by blast
qed

subsection \<open>A concrete household with a debt\<close>

definition demo_debt :: debt_row where
  "demo_debt = \<lparr>debt_id = ''d'', debt_tenantId = ''t'', debt_sharedProfileId = ''p'', debt_kind = DEBT,
     debt_name = ''Car'', debt_outstandingBalance = 1000, debt_version = 3\<rparr>"

definition demo_share :: "uuid \<Rightarrow> uuid \<Rightarrow> int \<Rightarrow> responsibility_row" where
  "demo_share i m bp = \<lparr>resp_id = i, resp_tenantId = ''t'', resp_sharedDebtId = ''d'', resp_membershipId = m,
     resp_percentageBp = bp, resp_version = 0\<rparr>"

definition demo_indebted :: db where
  "demo_indebted = (demo_household demo_pair)\<lparr>sharedDebts := [demo_debt],
     debtResponsibilities := [demo_share ''r'' ''a'' 6000, demo_share ''s'' ''b'' 4000]\<rparr>"

lemma demo_indebted_ok: "elements_ok demo_indebted"
proof -
  have ids: "all_ids demo_indebted = [''p'', ''a'', ''b'', ''d'', ''r'', ''s'']"
    by (simp add: all_ids_def demo_indebted_def demo_debt_def demo_share_def demo_household_simps)
  have "show_nat n \<notin> set [''p'', ''a'', ''b'', ''d'', ''r'', ''s'']" for n
  proof -
    have "list_all (\<lambda>s. parse_digits 0 s = None) [''p'', ''a'', ''b'', ''d'', ''r'', ''s'']" by code_simp
    then show ?thesis using show_nat_not by (auto simp: list_all_iff)
  qed
  then have fresh: "fresh_ids demo_indebted"
    using no_rows_fresh by (simp only: fresh_ids_def ids) (simp add: demo_indebted_def demo_household_def no_rows_def)
  have b: "books_ok demo_indebted"
    by (rule start_books [OF fresh]) (simp_all add: demo_indebted_def demo_household_simps)
  have shares: "debt_shares i demo_indebted = (if i = ''d''
      then [\<lparr>rs_membershipId = ''a'', rs_percentageBp = 6000\<rparr>, \<lparr>rs_membershipId = ''b'', rs_percentageBp = 4000\<rparr>] else [])" for i
    by (simp add: debt_shares_def shares_of_rows_def listResponsibilities_def demo_indebted_def demo_share_def)
  have "shares_ok demo_indebted"
    by (simp add: shares_ok_def shares) (simp add: demo_indebted_def demo_share_def demo_debt_def)
  then show ?thesis
    by (simp add: elements_ok_def elements_wf_def b)
      (simp add: demo_indebted_def demo_debt_def demo_household_def no_rows_def)
qed

lemma demo_indebted_find:
  "findDebt ''d'' demo_indebted = Some demo_debt"
  "elements_guard ''p'' ''ann'' MANAGE_SHARED_ELEMENTS demo_indebted = Ok ''a''"
  "debtsForProfile ''p'' demo_indebted = [demo_debt]"
  by (simp_all add: findDebt_def debtsForProfile_def elements_guard_def findSharedProfile_def findByProfileAndUser_def
      can_def demo_indebted_def demo_debt_def demo_household_simps)

subsection \<open>Properties\<close>

text \<open>
  C25: payments refine the abstract account of debts. For a member who may manage shared elements,
  \<open>paySharedDebt\<close> fails exactly when and with the code the specification says, and
  otherwise takes exactly the amount from that debt alone, moving its version by one.
\<close>

theorem payment_refines_account:
  assumes "elements_ok g"
    and "\<forall>d. findDebt i g = Some d \<longrightarrow> isOk (elements_guard (debt_sharedProfileId d) (pr_userId p) MANAGE_SHARED_ELEMENTS g)"
  shows "failed_with (fst (paySharedDebt_tx p i a e g)) = fst (pay_spec i a e (debt_book g))
    \<and> (isOk (fst (paySharedDebt_tx p i a e g)) \<longleftrightarrow> fst (pay_spec i a e (debt_book g)) = None)
    \<and> debt_book (snd (paySharedDebt_tx p i a e g)) = snd (pay_spec i a e (debt_book g))"
proof (cases "findDebt i g")
  case None
  then show ?thesis by (simp add: paySharedDebt_tx_def pay_spec_def debt_book_def found_or_def)
next
  case (Some d)
  note f = this
  have dist: "distinct (map debt_id (sharedDebts g))" by (rule elements_ok_D(5) [OF assms(1)])
  obtain actor where act: "elements_guard (debt_sharedProfileId d) (pr_userId p) MANAGE_SHARED_ELEMENTS g = Ok actor"
    using assms(2) f by (cases "elements_guard (debt_sharedProfileId d) (pr_userId p) MANAGE_SHARED_ELEMENTS g") auto
  have book: "debt_book g i = Some (debt_outstandingBalance d, debt_version d)" using f by (simp add: debt_book_def)
  show ?thesis
  proof (cases "0 < a \<and> a \<le> debt_outstandingBalance d")
    case False
    then show ?thesis using f act book by (auto simp: paySharedDebt_tx_def found_or_def payDebt_def pay_spec_def)
  next
    case True
    let ?b = "debt_outstandingBalance d - a"
    have dec: "payDebt (debt_outstandingBalance d) a = Ok \<lparr>newOutstandingCents = ?b, paidCents = a\<rparr>"
      using True by (simp add: payDebt_def)
    show ?thesis
    proof (cases "debt_version d = e")
      case False
      then show ?thesis using f act book dec True pay_locked(1) [OF dist f False]
        by (simp add: paySharedDebt_tx_def found_or_def pay_spec_def updateWithOptimisticLock_def)
    next
      case eq: True
      from pay_locked(2) [OF dist f eq, of ?b] obtain n h where
        h: "payDebtVersioned i ?b e g = (Suc n, h)" "debt_book h = (debt_book g)(i \<mapsto> (?b, e + 1))" "findDebt i h \<noteq> None"
        by blast
      have tail: "debt_book (audit_write t r (emit t' et at ai ac pl h)) = debt_book h" for t r t' et at ai ac pl
        by (rule debt_book_cong) simp
      show ?thesis using f act book dec True eq h
        by (auto simp: paySharedDebt_tx_def found_or_def pay_spec_def updateWithOptimisticLock_def asserted_def tail Let_def)
    qed
  qed
qed

text \<open>
  C26: reassigning a leaver's shares. It never fails; afterwards the leaver is responsible for none
  of the profile's debts, every debt that still has responsible members is fully covered, a debt
  loses all of them only when the leaver was the only one, other debts keep their shares; and
  delivering the event again changes nothing.
\<close>

theorem reassignment_exact:
  assumes "elements_ok g" and "reassignForLeftMember_tx t sp m g = (r, h)"
  shows "isOk r \<and> list_all (\<lambda>d. m \<notin> set (map rs_membershipId (debt_shares (debt_id d) h))
        \<and> map rs_membershipId (debt_shares (debt_id d) h)
            = filter (\<lambda>i. i \<noteq> m) (map rs_membershipId (debt_shares (debt_id d) g))
        \<and> (debt_shares (debt_id d) h = [] \<or> share_sum (debt_shares (debt_id d) h) = 10000)) (debtsForProfile sp g)
    \<and> (i \<notin> debt_id ` set (debtsForProfile sp g) \<longrightarrow> debt_shares i h = debt_shares i g)
    \<and> reassignForLeftMember_tx t sp m h = (Ok 0, h)"
  by (rule reassign_facts [OF assms])

theorem payment_refines_account_witness:
  "failed_with (fst (paySharedDebt_tx demo_owner ''d'' 1001 3 demo_indebted)) = Some OVERPAYMENT
   \<and> isOk (fst (paySharedDebt_tx demo_owner ''d'' 400 3 demo_indebted))
   \<and> debt_book (snd (paySharedDebt_tx demo_owner ''d'' 400 3 demo_indebted)) ''d'' = Some (600, 4)"
proof -
  have may: "\<forall>d. findDebt ''d'' demo_indebted = Some d \<longrightarrow>
      isOk (elements_guard (debt_sharedProfileId d) (pr_userId demo_owner) MANAGE_SHARED_ELEMENTS demo_indebted)"
    using demo_indebted_find by (simp add: demo_debt_def demo_owner_def)
  have book: "debt_book demo_indebted ''d'' = Some (1000, 3)"
    using demo_indebted_find(1) by (simp add: debt_book_def demo_debt_def)
  from payment_refines_account [OF demo_indebted_ok may, of 1001 3]
    payment_refines_account [OF demo_indebted_ok may, of 400 3]
  show ?thesis by (simp add: pay_spec_def book)
qed

theorem reassignment_exact_witness:
  "\<exists>r h. reassignForLeftMember_tx ''t'' ''p'' ''b'' demo_indebted = (r, h)
     \<and> map rs_membershipId (debt_shares ''d'' h) = [''a''] \<and> share_sum (debt_shares ''d'' h) = 10000"
proof -
  obtain r h where r: "reassignForLeftMember_tx ''t'' ''p'' ''b'' demo_indebted = (r, h)" by fastforce
  have d: "debt_id demo_debt = ''d''" by (simp add: demo_debt_def)
  have before: "map rs_membershipId (debt_shares ''d'' demo_indebted) = [''a'', ''b'']"
    by (simp add: debt_shares_def shares_of_rows_def listResponsibilities_def demo_indebted_def demo_share_def)
  from reassignment_exact [OF demo_indebted_ok r] have
    "map rs_membershipId (debt_shares ''d'' h) = [''a''] \<and> (debt_shares ''d'' h = [] \<or> share_sum (debt_shares ''d'' h) = 10000)"
    by (simp add: demo_indebted_find(3) d before)
  then show ?thesis using r by auto
qed

end
