(* ===== verification/Accounts.thy ===== *)
theory Accounts
  imports ElementsRuns
begin

section \<open>Personal accounts\<close>

text \<open>
  \<open>src/apps/api/src/modules/accounts\<close>: the account rules, the repository and the use cases.
  A contribution from an account debits the account and appends the record in one transaction. The
  lemmas show that no use case makes a balance negative, that a contribution moves money without
  creating or losing any, and that accounts are listed to their owner alone.
\<close>

subsection \<open>Domain rules\<close>

definition ACCOUNT_TYPES :: "account_type list" where
  "ACCOUNT_TYPES = [WALLET, ACCOUNT, INVESTMENT, EMERGENCY_FUND, CREDIT_CARD_ACCOUNT, DEBT_ACCOUNT]"

definition isPersonal :: "profile_type \<Rightarrow> bool" where
  "isPersonal t \<longleftrightarrow> t = PERSONAL"

definition validateOpeningBalance :: "cents \<Rightarrow> unit result" where
  "validateOpeningBalance balance =
     (if balance < 0 then Err (validation (Some [(''balanceCents'', JStr (show_int balance))])) else Ok ())"

record withdrawal =
  newBalanceCents :: cents

definition withdrawForContribution :: "cents \<Rightarrow> cents \<Rightarrow> withdrawal result" where
  "withdrawForContribution balance amount =
     (if amount \<le> 0 then Err (validation (Some [(''amountCents'', JStr (show_int amount))]))
      else if balance < amount
      then Err (validation (Some [(''amountCents'', JStr (show_int amount)), (''balanceCents'', JStr (show_int balance))]))
      else Ok \<lparr>newBalanceCents = balance - amount\<rparr>)"

subsection \<open>Repository\<close>

record create_account_data =
  ca_profileType :: profile_type
  ca_profileId :: uuid
  ca_type :: account_type
  ca_name :: string
  ca_balance :: cents
  ca_currency :: string

definition createAccount :: "string \<Rightarrow> create_account_data \<Rightarrow> db \<Rightarrow> account_row \<times> db" where
  "createAccount tenantId d g =
     (let row = \<lparr>acct_id = new_id g, acct_tenantId = tenantId, acct_profileType = ca_profileType d,
                 acct_profileId = ca_profileId d, acct_type = ca_type d, acct_name = ca_name d,
                 acct_balance = ca_balance d, acct_currency = toUpperCase (ca_currency d)\<rparr>
      in (row, used_id (g\<lparr>accounts := accounts g @ [row]\<rparr>)))"

definition findAccountById :: "uuid \<Rightarrow> db \<Rightarrow> account_row option" where
  "findAccountById i g = List.find (\<lambda>a. acct_id a = i) (accounts g)"

text \<open>\<open>orderBy createdAt\<close>: rows are kept in the order in which they were created.\<close>

definition listAccountsByProfile :: "profile_type \<Rightarrow> uuid \<Rightarrow> db \<Rightarrow> account_row list" where
  "listAccountsByProfile t i g = filter (\<lambda>a. acct_profileType a = t \<and> acct_profileId a = i) (accounts g)"

definition setBalance :: "uuid \<Rightarrow> cents \<Rightarrow> db \<Rightarrow> db" where
  "setBalance i balance g =
     g\<lparr>accounts := update_where (\<lambda>a. acct_id a = i) (\<lambda>a. a\<lparr>acct_balance := balance\<rparr>) (accounts g)\<rparr>"

subsection \<open>Use cases\<close>

record create_personal_account_input =
  cpa_type :: account_type
  cpa_name :: string
  cpa_currency :: string
  cpa_openingBalanceCents :: cents

record contribute_from_account_input =
  cfa_accountId :: uuid
  cfa_sharedProfileId :: uuid
  cfa_membershipId :: uuid
  cfa_amountCents :: cents

definition createPersonalAccount_tx :: "(uuid \<Rightarrow> bool) \<Rightarrow> tenant_principal \<Rightarrow> create_personal_account_input \<Rightarrow> db
    \<Rightarrow> account_row result \<times> db" where
  "createPersonalAccount_tx held p i g =
     and_then (validateOpeningBalance (cpa_openingBalanceCents i)) g (\<lambda>_.
     then_do (findOrCreatePersonalProfile held (pr_tenantId p) (pr_userId p) g) (\<lambda>personal g1.
       let (account, g2) = createAccount (pr_tenantId p)
           \<lparr>ca_profileType = PERSONAL, ca_profileId = pp_id personal, ca_type = cpa_type i, ca_name = cpa_name i,
            ca_balance = cpa_openingBalanceCents i, ca_currency = cpa_currency i\<rparr> g1
       in (Ok account, g2)))"

definition createPersonalAccount :: "tenant_principal \<Rightarrow> create_personal_account_input \<Rightarrow> db
    \<Rightarrow> account_row result \<times> db" where
  "createPersonalAccount p i =
     (\<lambda>g. withTenant (pr_tenantId p) (createPersonalAccount_tx (held_elsewhere (pr_tenantId p) g) p i) g)"

definition listPersonalAccounts_tx :: "(uuid \<Rightarrow> bool) \<Rightarrow> tenant_principal \<Rightarrow> db \<Rightarrow> account_row list result \<times> db" where
  "listPersonalAccounts_tx held p g =
     then_do (findOrCreatePersonalProfile held (pr_tenantId p) (pr_userId p) g) (\<lambda>personal g1.
       (Ok (listAccountsByProfile PERSONAL (pp_id personal) g1), g1))"

definition listPersonalAccounts :: "tenant_principal \<Rightarrow> db \<Rightarrow> account_row list result \<times> db" where
  "listPersonalAccounts p =
     (\<lambda>g. withTenant (pr_tenantId p) (listPersonalAccounts_tx (held_elsewhere (pr_tenantId p) g) p) g)"

definition accountsForOwnedProfile_tx :: "tenant_principal \<Rightarrow> uuid \<Rightarrow> db \<Rightarrow> account_row list result \<times> db" where
  "accountsForOwnedProfile_tx p personalProfileId g =
     (case List.find (\<lambda>q. pp_id q = personalProfileId) (personalProfiles g) of
        None \<Rightarrow> (Ok [], g)
      | Some personal \<Rightarrow>
          if pp_userId personal \<noteq> pr_userId p then (Ok [], g)
          else (Ok (listAccountsByProfile PERSONAL personalProfileId g), g))"

definition accountsForOwnedProfile :: "tenant_principal \<Rightarrow> uuid \<Rightarrow> db \<Rightarrow> account_row list result \<times> db" where
  "accountsForOwnedProfile p i = withTenant (pr_tenantId p) (accountsForOwnedProfile_tx p i)"

text \<open>
  The second half of \<open>contributeFromAccount\<close>, from the debit on: it runs once every check has
  passed.
\<close>

definition contribute_writes :: "tenant_principal \<Rightarrow> contribute_from_account_input \<Rightarrow> shared_profile_row
    \<Rightarrow> account_row \<Rightarrow> cents \<Rightarrow> db \<Rightarrow> (account_row \<times> record_row) result \<times> db" where
  "contribute_writes p i profile account newBalance g =
     (let g2 = setBalance (acct_id account) newBalance g;
          (period, g3) = ensureOpenPeriod (pr_tenantId p) profile (clock g2) g2;
          (r, g4) = createRecord (pr_tenantId p)
             \<lparr>cr_sharedProfileId = cfa_sharedProfileId i, cr_periodId = per_id period,
              cr_membershipId = cfa_membershipId i, cr_amount = cfa_amountCents i,
              cr_sourceAccountId = Some (acct_id account)\<rparr> g3;
          g5 = emit (pr_tenantId p) ''ContributionRecorded'' ''ContributionRecord'' (rec_id r) (Some (cfa_membershipId i))
                 [(''sharedProfileId'', JStr (cfa_sharedProfileId i)), (''periodId'', JStr (per_id period)),
                  (''membershipId'', JStr (cfa_membershipId i)), (''amountCents'', JStr (show_int (cfa_amountCents i))),
                  (''sourceAccountId'', JStr (acct_id account))] g4;
          g6 = audit_write (pr_tenantId p)
                 \<lparr>ar_sharedProfileId = Some (cfa_sharedProfileId i), ar_actorMembershipId = Some (cfa_membershipId i),
                  ar_action = ''ContributionRecorded'', ar_beforeValue = None,
                  ar_afterValue = Some (JObj [(''periodId'', JStr (per_id period)),
                    (''amountCents'', JStr (show_int (cfa_amountCents i))),
                    (''sourceAccountId'', JStr (acct_id account))])\<rparr> g5
      in and_then (asserted (findAccountById (acct_id account) g6)) g6 (\<lambda>reloaded. (Ok (reloaded, r), g6)))"

definition contributeFromAccount_tx :: "(uuid \<Rightarrow> bool) \<Rightarrow> tenant_principal \<Rightarrow> contribute_from_account_input \<Rightarrow> db
    \<Rightarrow> (account_row \<times> record_row) result \<times> db" where
  "contributeFromAccount_tx held p i g =
     then_do (findOrCreatePersonalProfile held (pr_tenantId p) (pr_userId p) g) (\<lambda>personal g1.
     and_then (found_or (notFound None) (findAccountById (cfa_accountId i) g1)) g1 (\<lambda>account.
     if acct_profileType account \<noteq> PERSONAL \<or> acct_profileId account \<noteq> pp_id personal then (Err (notFound None), g1)
     else
     and_then (found_or (forbidden None) (findByProfileAndUser (cfa_sharedProfileId i) (pr_userId p) g1)) g1 (\<lambda>membership.
     if m_id membership \<noteq> cfa_membershipId i \<or> m_status membership \<noteq> ACTIVE then (Err (forbidden None), g1)
     else if \<not> can (m_role membership) RECORD_CONTRIBUTION
     then (Err (forbidden (Some [(''role'', role_json (m_role membership))])), g1)
     else
     and_then (found_or (notFound None) (findSharedProfile (cfa_sharedProfileId i) g1)) g1 (\<lambda>profile.
     if sp_status profile \<noteq> PROFILE_ACTIVE then (Err (archived None), g1)
     else
     and_then (ensureProfileCurrency (sp_baseCurrency profile) (acct_currency account)
                 [(''accountId'', JStr (acct_id account))]) g1 (\<lambda>_.
     and_then (withdrawForContribution (acct_balance account) (cfa_amountCents i)) g1 (\<lambda>w.
     contribute_writes p i profile account (newBalanceCents w) g1))))))"

definition contributeFromAccount :: "tenant_principal \<Rightarrow> contribute_from_account_input \<Rightarrow> db
    \<Rightarrow> (account_row \<times> record_row) result \<times> db" where
  "contributeFromAccount p i =
     (\<lambda>g. withTenant (pr_tenantId p) (contributeFromAccount_tx (held_elsewhere (pr_tenantId p) g) p i) g)"

subsection \<open>Facts about the operations\<close>

definition personal_ok :: "db \<Rightarrow> bool" where
  "personal_ok g \<longleftrightarrow> distinct (map pp_id (personalProfiles g)) \<and> distinct (map pp_userId (personalProfiles g))"

definition accounts_ok :: "db \<Rightarrow> bool" where
  "accounts_ok g \<longleftrightarrow> personal_ok g \<and> distinct (map acct_id (accounts g))
     \<and> list_all (\<lambda>a. 0 \<le> acct_balance a) (accounts g)"

definition wallet_ok :: "db \<Rightarrow> bool" where
  "wallet_ok g \<longleftrightarrow> elements_ok g \<and> accounts_ok g"

lemma found_account: "findAccountById i g = Some a \<Longrightarrow> a \<in> set (accounts g) \<and> acct_id a = i"
  by (auto simp: findAccountById_def find_Some_iff)

lemma account_frame [simp]:
  "accounts (snd (ensureOpenPeriod t f now g)) = accounts g"
  "accounts (snd (createRecord t d g)) = accounts g"
  "personalProfiles (snd (ensureOpenPeriod t f now g)) = personalProfiles g"
  "personalProfiles (snd (createRecord t d g)) = personalProfiles g"
  by (auto simp: ensureOpenPeriod_def openPeriod_def createPeriod_def createRecord_def Let_def split: option.splits)

lemma setBalance_frame [simp]:
  "personalProfiles (setBalance i b g) = personalProfiles g"
  "memberships (setBalance i b g) = memberships g"
  "sharedProfiles (setBalance i b g) = sharedProfiles g"
  "contributionPlans (setBalance i b g) = contributionPlans g"
  "contributionAllocations (setBalance i b g) = contributionAllocations g"
  "contributionPeriods (setBalance i b g) = contributionPeriods g"
  "contributionRecords (setBalance i b g) = contributionRecords g"
  "clock (setBalance i b g) = clock g"
  by (simp_all add: setBalance_def)

lemma setBalance_rows: "accounts (setBalance i b g) = update_where (\<lambda>a. acct_id a = i) (\<lambda>a. a\<lparr>acct_balance := b\<rparr>) (accounts g)"
  by (simp add: setBalance_def)

lemma setBalance_fresh: "fresh_ids g \<Longrightarrow> fresh_ids (setBalance i b g)"
  by (rule fresh_same) (simp_all add: setBalance_def all_ids_replace map_update_where)

lemma sum_update_where:
  assumes "distinct (map k rows)" and "r \<in> set rows" and "\<And>a. v (f a) = (x :: int)"
  shows "sum_list (map v (update_where (\<lambda>a. k a = k r) f rows)) = sum_list (map v rows) - v r + x"
  using assms(1,2)
proof (induction rows)
  case Nil
  then show ?case by simp
next
  case (Cons a rows)
  show ?case
  proof (cases "a = r")
    case True
    with Cons.prems(1) have "k b \<noteq> k r" if "b \<in> set rows" for b using that by (auto simp: image_iff)
    then have "update_where (\<lambda>b. k b = k r) f rows = rows" by (rule update_where_none)
    then show ?thesis using True assms(3) by (simp add: update_where_Cons)
  next
    case False
    with Cons.prems have "r \<in> set rows" "k a \<noteq> k r" by (auto simp: image_iff)
    then show ?thesis using Cons by (simp add: update_where_Cons)
  qed
qed

text \<open>The caller's personal profile, and what creating it leaves alone.\<close>

lemma personal_profile_facts:
  assumes "findOrCreatePersonalProfile held t u g = (Ok pp, h)"
  shows "pp \<in> set (personalProfiles h)" and "pp_userId pp = u" and "accounts h = accounts g"
    and "elements_ok g \<Longrightarrow> elements_ok h" and "contributionRecords h = contributionRecords g"
    and "contributionPeriods h = contributionPeriods g" and "clock h = clock g"
    and "fresh_ids g \<Longrightarrow> personal_ok g \<Longrightarrow> personal_ok h" and "ids_advance g h"
    and "memberships h = memberships g" and "sharedProfiles h = sharedProfiles g"
proof -
  have same: "elements_ok g \<Longrightarrow> elements_ok (used_id (g\<lparr>personalProfiles := personalProfiles g @ [row]\<rparr>))"
    if "pp_id row = new_id g" for row
  proof -
    assume e: "elements_ok g"
    let ?h = "used_id (g\<lparr>personalProfiles := personalProfiles g @ [row]\<rparr>)"
    note b = elements_ok_D(1,2) [OF e]
    have "fresh_ids ?h" by (rule fresh_insert [OF books_fresh [OF b(1)]]) (simp_all add: all_ids_add that)
    then have "books_kept_by g ?h" by (simp add: books_kept_by_def)
    with b show "elements_ok ?h" unfolding elements_ok_def
      by (auto intro: books_kept_by_ok elements_wf_cong)
  qed
  have new: "new_id g \<notin> pp_id ` set (personalProfiles g)" if "fresh_ids g"
    using fresh_ids_new [OF that] by (simp add: all_ids_def)
  have "pp \<in> set (personalProfiles h) \<and> pp_userId pp = u \<and> accounts h = accounts g
    \<and> contributionRecords h = contributionRecords g \<and> contributionPeriods h = contributionPeriods g
    \<and> clock h = clock g \<and> ids_advance g h \<and> memberships h = memberships g \<and> sharedProfiles h = sharedProfiles g
    \<and> (elements_ok g \<longrightarrow> elements_ok h) \<and> (fresh_ids g \<longrightarrow> personal_ok g \<longrightarrow> personal_ok h)"
  proof (cases "List.find (\<lambda>p. pp_userId p = u) (personalProfiles g)")
    case (Some p)
    then have "p \<in> set (personalProfiles g)" "pp_userId p = u" by (auto simp: find_Some_iff)
    moreover have "pp = p" "h = g" using assms Some by (simp_all add: findOrCreatePersonalProfile_def)
    ultimately show ?thesis by simp
  next
    case None
    then have "u \<notin> pp_userId ` set (personalProfiles g)" by (auto simp: find_None_iff)
    then show ?thesis using assms None new same
      by (auto simp: findOrCreatePersonalProfile_def Let_def ids_advance_def personal_ok_def split: if_splits)
  qed
  then show "pp \<in> set (personalProfiles h)" and "pp_userId pp = u" and "accounts h = accounts g"
    and "elements_ok g \<Longrightarrow> elements_ok h" and "contributionRecords h = contributionRecords g"
    and "contributionPeriods h = contributionPeriods g" and "clock h = clock g"
    and "fresh_ids g \<Longrightarrow> personal_ok g \<Longrightarrow> personal_ok h" and "ids_advance g h"
    and "memberships h = memberships g" and "sharedProfiles h = sharedProfiles g"
    by blast+
qed

lemma personal_profile_cases:
  obtains (found) pp k where "findOrCreatePersonalProfile held t u g = (Ok pp, k)"
  | (taken) "findOrCreatePersonalProfile held t u g = (Thrown (UniqueConstraintError ''PersonalProfile''), g)"
      "held u" "u \<notin> pp_userId ` set (personalProfiles g)"
proof (cases "List.find (\<lambda>p. pp_userId p = u) (personalProfiles g)")
  case None
  then have "u \<notin> pp_userId ` set (personalProfiles g)" by (auto simp: find_None_iff)
  with None show ?thesis
    by (cases "held u") (auto simp: findOrCreatePersonalProfile_def Let_def intro: found taken)
next
  case (Some p)
  then show ?thesis using found by (simp add: findOrCreatePersonalProfile_def)
qed

lemma personal_profile_not_Err: "findOrCreatePersonalProfile held t u g \<noteq> (Err e, h)"
  by (cases rule: personal_profile_cases [of held t u g]) simp_all

text \<open>What the writing half of a contribution does.\<close>

lemma wallet_ok_D:
  assumes "wallet_ok g"
  shows "elements_ok g" and "accounts_ok g" and "fresh_ids g" and "distinct (map acct_id (accounts g))"
    and "list_all (\<lambda>a. 0 \<le> acct_balance a) (accounts g)" and "personal_ok g" and "ledger_ok g"
  using assms elements_ok_D(1) [of g] books_fresh [of g]
  by (auto simp: wallet_ok_def accounts_ok_def books_ok_def)

lemma setBalance_elements:
  assumes "elements_ok g"
  shows "elements_ok (setBalance i b g)"
proof -
  note b = elements_ok_D(1,2) [OF assms]
  have "books_kept_by g (setBalance i b g)" by (simp add: books_kept_by_def setBalance_fresh books_fresh [OF b(1)])
  moreover have "elements_wf (setBalance i b g)" by (rule elements_wf_cong [OF b(2)]) (simp_all add: setBalance_def)
  ultimately show ?thesis using b(1) by (simp add: elements_ok_def books_kept_by_ok)
qed

lemma setBalance_accounts:
  assumes "accounts_ok g" and "0 \<le> b"
  shows "accounts_ok (setBalance i b g)"
  using assms by (auto simp: accounts_ok_def personal_ok_def setBalance_rows map_update_where list_all_iff set_update_where)

lemma accounts_ok_cong: "accounts_ok g \<Longrightarrow> accounts h = accounts g \<Longrightarrow> personalProfiles h = personalProfiles g \<Longrightarrow> accounts_ok h"
  by (simp add: accounts_ok_def personal_ok_def)

definition debited :: "uuid \<Rightarrow> cents \<Rightarrow> db \<Rightarrow> account_row list" where
  "debited i amount g = update_where (\<lambda>a. acct_id a = i) (\<lambda>a. a\<lparr>acct_balance := acct_balance a - amount\<rparr>) (accounts g)"

lemma update_by_key:
  "distinct (map k rows) \<Longrightarrow> r \<in> set rows \<Longrightarrow> f r = f' r \<Longrightarrow>
    update_where (\<lambda>a. k a = k r) f rows = update_where (\<lambda>a. k a = k r) f' rows"
  by (auto simp: update_where_def dest: distinct_key_eq)

lemma contribute_writes_facts:
  assumes w: "wallet_ok g" and a: "findAccountById ai g = Some a"
    and f: "findSharedProfile (cfa_sharedProfileId i) g = Some f" "sp_status f = PROFILE_ACTIVE"
    and amt: "0 < cfa_amountCents i" "cfa_amountCents i \<le> acct_balance a"
    and c: "contribute_writes p i f a (acct_balance a - cfa_amountCents i) g = (r, h)"
  shows "wallet_ok h" and "accounts h = debited (acct_id a) (cfa_amountCents i) g"
    and "\<exists>row. r = Ok (a\<lparr>acct_balance := acct_balance a - cfa_amountCents i\<rparr>, row)
      \<and> contributionRecords h = contributionRecords g @ [row] \<and> rec_amount row = cfa_amountCents i
      \<and> rec_sourceAccountId row = Some (acct_id a) \<and> rec_membershipId row = cfa_membershipId i
      \<and> rec_sharedProfileId row = cfa_sharedProfileId i"
    and "ids_advance g h" and "personalProfiles h = personalProfiles g"
proof -
  let ?b = "acct_balance a - cfa_amountCents i"
  define g2 where "g2 = setBalance (acct_id a) ?b g"
  have e2: "elements_ok g2" unfolding g2_def by (rule setBalance_elements [OF wallet_ok_D(1) [OF w]])
  have a2: "accounts_ok g2" unfolding g2_def by (rule setBalance_accounts [OF wallet_ok_D(2) [OF w]]) (use amt in simp)
  have l2: "ledger_ok g2" using elements_ok_D(1) [OF e2] by (simp add: books_ok_def)
  have f2: "findSharedProfile (cfa_sharedProfileId i) g2 = Some f" using f(1) by (simp add: g2_def findSharedProfile_def)
  obtain q g3 where e3: "ensureOpenPeriod (pr_tenantId p) f (clock g2) g2 = (q, g3)" by fastforce
  note p3 = ensureOpenPeriod_facts [OF l2 f2 f(2) e3]
  let ?d = "\<lparr>cr_sharedProfileId = cfa_sharedProfileId i, cr_periodId = per_id q, cr_membershipId = cfa_membershipId i,
      cr_amount = cfa_amountCents i, cr_sourceAccountId = Some (acct_id a)\<rparr>"
  define row g4 where "row = fst (createRecord (pr_tenantId p) ?d g3)" and "g4 = snd (createRecord (pr_tenantId p) ?d g3)"
  have l4: "ledger_ok g4" unfolding g4_def by (rule createRecord_ledger [OF p3(1) _ p3(2)]) (use amt p3 in simp_all)
  have b4: "books_ok g4" by (rule books_cong [OF elements_ok_D(1) [OF e2] l4]) (simp_all add: g4_def p3)
  have s4: "elements_same g2 g4" unfolding g4_def
    using e3 same_ensure [OF elements_same_refl, of g2 "pr_tenantId p" f "clock g2"] by (simp add: same_record)
  have acc: "accounts g4 = accounts g2" "personalProfiles g4 = personalProfiles g2"
    using account_frame(1,3) [of "pr_tenantId p" f "clock g2" g2] e3 by (simp_all add: g4_def)
  obtain h' where h: "h = h'" "accounts h' = accounts g4" "contributionRecords h' = contributionRecords g4"
      "wallet_ok g4 \<Longrightarrow> wallet_ok h'" "ids_advance g4 h'" "personalProfiles h' = personalProfiles g4"
      and r: "and_then (asserted (findAccountById (acct_id a) h')) h' (\<lambda>x. (Ok (x, row), h')) = (r, h)"
  proof (rule that [OF refl])
    note d = c [unfolded contribute_writes_def, folded g2_def]
    show "accounts h = accounts g4" "contributionRecords h = contributionRecords g4"
      "wallet_ok g4 \<Longrightarrow> wallet_ok h" "ids_advance g4 h" "personalProfiles h = personalProfiles g4"
      "and_then (asserted (findAccountById (acct_id a) h)) h (\<lambda>x. (Ok (x, row), h)) = (r, h)"
      using d unfolding Let_def case_prod_unfold e3 prod.sel row_def [symmetric] g4_def [symmetric]
      by (auto simp: and_then_def asserted_def wallet_ok_def ids_advance_def split: option.splits
          intro: elements_writers accounts_ok_cong)
  qed
  have mem: "a \<in> set (accounts g)" "acct_id a = ai" using found_account [OF a] by simp_all
  have deb: "accounts g2 = debited (acct_id a) (cfa_amountCents i) g"
    unfolding g2_def setBalance_rows debited_def by (rule update_by_key [OF wallet_ok_D(4) [OF w] mem(1)]) simp
  have "findAccountById (acct_id a) h' = Some (a\<lparr>acct_balance := ?b\<rparr>)"
    unfolding findAccountById_def h(2) acc(1) g2_def setBalance_rows
    using a mem(2) by (simp add: find_update_where_same findAccountById_def)
  then have r': "r = Ok (a\<lparr>acct_balance := ?b\<rparr>, row)" using r by (simp add: asserted_def)
  have "contributionRecords h = contributionRecords g @ [row]"
    using h(1,3) p3(5) by (simp add: g4_def row_def g2_def)
  then show "\<exists>row. r = Ok (a\<lparr>acct_balance := acct_balance a - cfa_amountCents i\<rparr>, row)
      \<and> contributionRecords h = contributionRecords g @ [row] \<and> rec_amount row = cfa_amountCents i
      \<and> rec_sourceAccountId row = Some (acct_id a) \<and> rec_membershipId row = cfa_membershipId i
      \<and> rec_sharedProfileId row = cfa_sharedProfileId i"
    using r' by (simp add: row_def createRecord_def Let_def)
  show "accounts h = debited (acct_id a) (cfa_amountCents i) g" using h(1,2) acc(1) deb by simp
  show "personalProfiles h = personalProfiles g" using h(1,6) acc(2) by (simp add: g2_def)
  have "wallet_ok g4" unfolding wallet_ok_def
    using elements_same_ok [OF e2 b4 s4] accounts_ok_cong [OF a2 acc] by simp
  then show "wallet_ok h" using h(1,4) by simp
  have "ids_advance g g2" by (simp add: g2_def setBalance_def ids_advance_def)
  then have "ids_advance g g4" unfolding g4_def
    using advance_ensure [of g g2 "pr_tenantId p" f "clock g2"] e3 by (auto intro: advance_record)
  then show "ids_advance g h" using h(1,5) ids_advance_trans by blast
qed

text \<open>A use case that did not stop at a guard went past it.\<close>

lemma passed_found:
  "and_then (found_or e x) g k = (r, h) \<Longrightarrow> \<not> (isErr r \<and> h = g) \<Longrightarrow> \<exists>v. x = Some v \<and> k v = (r, h)"
  by (cases x) (auto simp: found_or_def)

lemma passed_guard:
  "(if c then (Err e, g) else k) = (r, h) \<Longrightarrow> \<not> (isErr r \<and> h = g) \<Longrightarrow> \<not> c \<and> k = (r, h)"
  by (auto split: if_splits)

text \<open>Every way a contribution from an account can end.\<close>

lemma contributeFromAccount_cases:
  assumes w: "wallet_ok g" and c: "contributeFromAccount_tx held p i g = (r, h)"
  obtains (taken) x where "r = Thrown x" "h = g" "held (pr_userId p)" "pr_userId p \<notin> pp_userId ` set (personalProfiles g)"
  | (refused) e pp where "r = Err e" "findOrCreatePersonalProfile held (pr_tenantId p) (pr_userId p) g = (Ok pp, h)"
  | (moved) pp k a f m where "findOrCreatePersonalProfile held (pr_tenantId p) (pr_userId p) g = (Ok pp, k)"
      "findAccountById (cfa_accountId i) k = Some a" "acct_profileType a = PERSONAL" "acct_profileId a = pp_id pp"
      "findByProfileAndUser (cfa_sharedProfileId i) (pr_userId p) k = Some m" "m_id m = cfa_membershipId i"
      "m_status m = ACTIVE" "can (m_role m) RECORD_CONTRIBUTION"
      "findSharedProfile (cfa_sharedProfileId i) k = Some f" "sp_status f = PROFILE_ACTIVE"
      "toUpperCase (sp_baseCurrency f) = toUpperCase (acct_currency a)"
      "0 < cfa_amountCents i" "cfa_amountCents i \<le> acct_balance a"
      "contribute_writes p i f a (acct_balance a - cfa_amountCents i) k = (r, h)"
proof (cases rule: personal_profile_cases [of held "pr_tenantId p" "pr_userId p" g])
  case taken
  then show thesis using c that(1) by (auto simp: contributeFromAccount_tx_def then_do_def)
next
  case k: (found pp k)
  note d = c [unfolded contributeFromAccount_tx_def k then_do_def prod.case and_then_simps(1)]
  show thesis
  proof (cases "isErr r \<and> h = k")
    case True
    with refused k show thesis by (cases r) auto
  next
    case False
    note go = this
    show thesis
      using passed_found [OF d go]
      apply (elim exE conjE)
      apply (drule passed_guard [OF _ go], elim conjE, drule passed_found [OF _ go], elim exE conjE)
      apply (drule passed_guard [OF _ go], elim conjE, drule passed_guard [OF _ go], elim conjE)
      apply (drule passed_found [OF _ go], elim exE conjE, drule passed_guard [OF _ go], elim conjE)
      using go by (auto simp: ensureProfileCurrency_def withdrawForContribution_def not_less not_le
          intro!: moved [OF k] split: if_splits)
  qed
qed

lemma personal_profile_wallet:
  "findOrCreatePersonalProfile held t u g = (Ok pp, k) \<Longrightarrow> wallet_ok g \<Longrightarrow> wallet_ok k"
proof -
  assume f: "findOrCreatePersonalProfile held t u g = (Ok pp, k)" and w: "wallet_ok g"
  note facts = personal_profile_facts [OF f]
  have "personal_ok k" by (rule facts(8) [OF wallet_ok_D(3,6) [OF w]])
  moreover have "elements_ok k" by (rule facts(4) [OF wallet_ok_D(1) [OF w]])
  ultimately show ?thesis using wallet_ok_D(4,5) [OF w] facts(3) by (simp add: wallet_ok_def accounts_ok_def)
qed

lemma contributeFromAccount_wallet:
  assumes "wallet_ok g"
  shows "commits (\<lambda>h. wallet_ok h \<and> ids_advance g h) (contributeFromAccount_tx held p i g)"
proof -
  obtain r h where c: "contributeFromAccount_tx held p i g = (r, h)" by fastforce
  from assms c have "wallet_ok h \<and> ids_advance g h"
  proof (cases rule: contributeFromAccount_cases)
    case taken
    then show ?thesis using assms by (simp add: ids_advance_def)
  next
    case (refused e pp)
    then show ?thesis using personal_profile_wallet [OF refused(2) assms] personal_profile_facts(9) [OF refused(2)] by simp
  next
    case (moved pp k a f m)
    have k: "wallet_ok k" "ids_advance g k"
      using personal_profile_wallet [OF moved(1) assms] personal_profile_facts(9) [OF moved(1)] by simp_all
    note facts = contribute_writes_facts [OF k(1) moved(2,9,10,12,13,14)]
    then show ?thesis using k(2) ids_advance_trans by blast
  qed
  then show ?thesis by (simp add: c commits_def)
qed

lemma createAccount_wallet:
  assumes "wallet_ok g" and "0 \<le> ca_balance d"
  shows "wallet_ok (snd (createAccount t d g)) \<and> ids_advance g (snd (createAccount t d g))"
proof -
  let ?row = "fst (createAccount t d g)" and ?h = "snd (createAccount t d g)"
  have id: "acct_id ?row = new_id g" "acct_balance ?row = ca_balance d" by (simp_all add: createAccount_def Let_def)
  have h: "?h = used_id (g\<lparr>accounts := accounts g @ [?row]\<rparr>)" by (simp add: createAccount_def Let_def)
  have new: "new_id g \<notin> acct_id ` set (accounts g)"
    using fresh_ids_new [OF wallet_ok_D(3) [OF assms(1)]] by (simp add: all_ids_def)
  note b = elements_ok_D(1,2) [OF wallet_ok_D(1) [OF assms(1)]]
  have "fresh_ids ?h" unfolding h by (rule fresh_insert [OF books_fresh [OF b(1)]]) (simp_all add: all_ids_add id)
  then have "books_kept_by g ?h" by (simp add: books_kept_by_def h)
  moreover have "elements_wf ?h" by (rule elements_wf_cong [OF b(2)]) (simp_all add: h)
  ultimately have "elements_ok ?h" using b(1) by (simp add: elements_ok_def books_kept_by_ok)
  moreover have "accounts_ok ?h"
    using wallet_ok_D(4-6) [OF assms(1)] new assms(2) by (simp add: h accounts_ok_def personal_ok_def id)
  ultimately show ?thesis by (simp add: wallet_ok_def h ids_advance_def)
qed

lemma account_use_cases_wallet:
  assumes "wallet_ok g"
  shows "commits (\<lambda>h. wallet_ok h \<and> ids_advance g h) (createPersonalAccount_tx held p ci g)"
    and "commits (\<lambda>h. wallet_ok h \<and> ids_advance g h) (listPersonalAccounts_tx held p g)"
    and "commits (\<lambda>h. wallet_ok h \<and> ids_advance g h) (accountsForOwnedProfile_tx p pi g)"
proof -
  have k: "wallet_ok k" "ids_advance g k" if "findOrCreatePersonalProfile held t u g = (Ok pp, k)" for t u pp k
    using personal_profile_wallet [OF that assms] personal_profile_facts(9) [OF that] by simp_all
  note no_err = personal_profile_not_Err
  show "commits (\<lambda>h. wallet_ok h \<and> ids_advance g h) (listPersonalAccounts_tx held p g)"
    unfolding listPersonalAccounts_tx_def by (intro commits_then_do commits_result) (auto simp: no_err k)
  show "commits (\<lambda>h. wallet_ok h \<and> ids_advance g h) (accountsForOwnedProfile_tx p pi g)"
    using assms by (auto simp: accountsForOwnedProfile_tx_def intro: commits_result split: option.splits)
  have "wallet_ok (snd (createAccount t d k)) \<and> ids_advance g (snd (createAccount t d k))"
    if "findOrCreatePersonalProfile held t' u g = (Ok pp, k)" "0 \<le> ca_balance d" for t t' u pp d k
    using createAccount_wallet [OF k(1) [OF that(1)] that(2)] k(2) [OF that(1)] ids_advance_trans by blast
  then show "commits (\<lambda>h. wallet_ok h \<and> ids_advance g h) (createPersonalAccount_tx held p ci g)"
    unfolding createPersonalAccount_tx_def Let_def case_prod_unfold
    using assms by (intro commits_and_then commits_then_do commits_result)
      (auto simp: validateOpeningBalance_def no_err split: if_splits)
qed

text \<open>What either listing shows: the accounts of one personal profile, which is the caller's own.\<close>

lemma shown_own:
  assumes "fresh_ids g" and "personal_ok g"
    and "listPersonalAccounts_tx held p g = (Ok mine, h) \<or> accountsForOwnedProfile_tx p i g = (Ok mine, h)"
  shows "fresh_ids h \<and> personal_ok h \<and> accounts h = accounts g \<and> set (personalProfiles g) \<subseteq> set (personalProfiles h)
    \<and> (mine = [] \<or> (\<exists>a \<in> set (personalProfiles h). pp_userId a = pr_userId p
        \<and> mine = listAccountsByProfile PERSONAL (pp_id a) g))"
  using assms(3)
proof
  assume l: "listPersonalAccounts_tx held p g = (Ok mine, h)"
  then obtain pp where k: "findOrCreatePersonalProfile held (pr_tenantId p) (pr_userId p) g = (Ok pp, h)"
      "mine = listAccountsByProfile PERSONAL (pp_id pp) h"
    by (auto simp: listPersonalAccounts_tx_def then_do_Ok)
  have "fresh_ids h \<and> set (personalProfiles g) \<subseteq> set (personalProfiles h)"
    using k(1) fresh_insert [OF assms(1), of "used_id (g\<lparr>personalProfiles := personalProfiles g @ [row]\<rparr>)" for row] assms(1)
    by (auto simp: findOrCreatePersonalProfile_def Let_def all_ids_add split: option.splits if_splits
        intro!: fresh_insert [OF assms(1)])
  then show ?thesis using k personal_profile_facts(1-3,8) [OF k(1)] assms(1,2) by (auto simp: listAccountsByProfile_def)
next
  assume "accountsForOwnedProfile_tx p i g = (Ok mine, h)"
  then show ?thesis using assms(1,2)
    by (auto simp: accountsForOwnedProfile_tx_def find_Some_iff split: option.splits if_splits)
qed

subsection \<open>A concrete wallet\<close>

lemma named_ids_fresh:
  assumes "uid g = uid no_rows" and "list_all (\<lambda>i. parse_digits 0 i = None) (all_ids g)"
  shows "fresh_ids g"
proof -
  have "inj (uid g)" using no_rows_fresh assms(1) by (simp add: fresh_ids_def)
  moreover have "uid g n \<notin> set (all_ids g)" for n
    using assms show_nat_not by (auto simp: list_all_iff no_rows_def)
  ultimately show ?thesis by (simp add: fresh_ids_def)
qed

definition demo_personal :: "uuid \<Rightarrow> uuid \<Rightarrow> personal_profile_row" where
  "demo_personal i u = \<lparr>pp_id = i, pp_tenantId = ''t'', pp_userId = u\<rparr>"

definition demo_account :: "uuid \<Rightarrow> uuid \<Rightarrow> cents \<Rightarrow> account_row" where
  "demo_account i q b = \<lparr>acct_id = i, acct_tenantId = ''t'', acct_profileType = PERSONAL, acct_profileId = q,
     acct_type = WALLET, acct_name = ''Cash'', acct_balance = b, acct_currency = ''EUR''\<rparr>"

definition demo_wallet :: db where
  "demo_wallet = (demo_household demo_pair)\<lparr>
     personalProfiles := [demo_personal ''q'' ''ann'', demo_personal ''r'' ''bob''],
     accounts := [demo_account ''w'' ''q'' 5000, demo_account ''x'' ''r'' 300]\<rparr>"

lemmas demo_wallet_simps = demo_wallet_def demo_personal_def demo_account_def demo_household_simps

lemma demo_wallet_ok: "wallet_ok demo_wallet"
proof -
  have "all_ids demo_wallet = [''q'', ''r'', ''p'', ''a'', ''b'', ''w'', ''x'']"
    by (simp add: all_ids_def demo_wallet_simps)
  moreover have "list_all (\<lambda>i. parse_digits 0 i = None) [''q'', ''r'', ''p'', ''a'', ''b'', ''w'', ''x'']" by code_simp
  ultimately have fresh: "fresh_ids demo_wallet"
    by (intro named_ids_fresh) (simp_all add: demo_wallet_def demo_household_def)
  have "books_ok demo_wallet" by (rule start_books [OF fresh]) (simp_all add: demo_wallet_simps)
  then have "elements_ok demo_wallet"
    by (simp add: elements_ok_def elements_wf_def shares_ok_def debt_shares_def shares_of_rows_def listResponsibilities_def
        demo_wallet_def demo_household_def no_rows_def)
  then show ?thesis by (simp add: wallet_ok_def accounts_ok_def personal_ok_def) (simp add: demo_wallet_simps)
qed

definition demo_contribution :: contribute_from_account_input where
  "demo_contribution = \<lparr>cfa_accountId = ''w'', cfa_sharedProfileId = ''p'', cfa_membershipId = ''a'', cfa_amountCents = 1200\<rparr>"

lemma demo_personal_found:
  "findOrCreatePersonalProfile held (pr_tenantId demo_owner) (pr_userId demo_owner) demo_wallet
     = (Ok (demo_personal ''q'' ''ann''), demo_wallet)"
  by (simp add: findOrCreatePersonalProfile_def demo_wallet_simps)

lemma demo_contribution_passes:
  "contributeFromAccount_tx held demo_owner demo_contribution demo_wallet
     = contribute_writes demo_owner demo_contribution demo_profile_row (demo_account ''w'' ''q'' 5000) 3800 demo_wallet"
  unfolding contributeFromAccount_tx_def demo_personal_found
  by (simp add: then_do_def demo_contribution_def demo_wallet_simps findAccountById_def findByProfileAndUser_def found_or_def
      can_def findSharedProfile_def ensureProfileCurrency_def withdrawForContribution_def)

lemma demo_contributes: "\<exists>v h. contributeFromAccount_tx held demo_owner demo_contribution demo_wallet = (Ok v, h)"
proof -
  obtain r h where c: "contributeFromAccount_tx held demo_owner demo_contribution demo_wallet = (r, h)" by (meson surj_pair)
  from demo_wallet_ok c show ?thesis
  proof (cases rule: contributeFromAccount_cases)
    case (taken x)
    have "''ann'' \<in> pp_userId ` set (personalProfiles demo_wallet)" by (simp add: demo_wallet_simps)
    with taken(4) show ?thesis by (simp add: demo_owner_def)
  next
    case (refused e)
    then show ?thesis using c demo_contribution_passes
      by (auto simp: contribute_writes_def Let_def case_prod_unfold and_then_def asserted_def split: option.splits)
  next
    case (moved pp k a f m)
    have k: "wallet_ok k" by (rule personal_profile_wallet [OF moved(1) demo_wallet_ok])
    from contribute_writes_facts(3) [OF k moved(2,9,10,12,13,14)] c show ?thesis by blast
  qed
qed

subsection \<open>Properties\<close>

definition wealth :: "db \<Rightarrow> cents" where
  "wealth g = sum_list (map acct_balance (accounts g)) + sum_list (map rec_amount (contributionRecords g))"

text \<open>
  C8: a contribution from a personal account moves money. It throws only when the caller's personal profile
  belongs to another tenant; whatever its outcome, the
  balances and the recorded contributions of the tenant together are the same amount as before. When
  it succeeds, exactly the chosen account, which is personal and the caller's own, is lower by
  exactly the amount, which it covered, and exactly one record of that amount is added, naming the
  account and the caller's membership; when it is refused, no account, record or period changes.
\<close>

theorem contribution_moves_money:
  assumes "wallet_ok g" and "contributeFromAccount_tx held p i g = (r, h)"
  shows "wealth h = wealth g \<and> (case r of
      Ok (account, row) \<Rightarrow> 0 < cfa_amountCents i \<and> 0 \<le> acct_balance account
        \<and> accounts h = debited (cfa_accountId i) (cfa_amountCents i) g
        \<and> findAccountById (cfa_accountId i) g = Some (account\<lparr>acct_balance := acct_balance account + cfa_amountCents i\<rparr>)
        \<and> (\<exists>q. q \<in> set (personalProfiles h) \<and> pp_userId q = pr_userId p \<and> acct_profileType account = PERSONAL
             \<and> acct_profileId account = pp_id q)
        \<and> (\<exists>m. findByProfileAndUser (cfa_sharedProfileId i) (pr_userId p) g = Some m \<and> m_status m = ACTIVE
             \<and> rec_membershipId row = m_id m)
        \<and> contributionRecords h = contributionRecords g @ [row] \<and> rec_amount row = cfa_amountCents i
        \<and> rec_sourceAccountId row = Some (cfa_accountId i)
    | Err e \<Rightarrow> accounts h = accounts g \<and> contributionRecords h = contributionRecords g
        \<and> contributionPeriods h = contributionPeriods g
    | Thrown x \<Rightarrow> held (pr_userId p) \<and> pr_userId p \<notin> pp_userId ` set (personalProfiles g) \<and> h = g)"
  using assms
proof (cases rule: contributeFromAccount_cases)
  case (taken x)
  then show ?thesis by simp
next
  case (refused e pp)
  then show ?thesis using personal_profile_facts(3,5,6) [OF refused(2)] by (simp add: wealth_def)
next
  case (moved pp k a f m)
  note k = personal_profile_facts [OF moved(1)]
  have w: "wallet_ok k" by (rule personal_profile_wallet [OF moved(1) assms(1)])
  note facts = contribute_writes_facts [OF w moved(2,9,10,12,13,14)]
  have a: "a \<in> set (accounts g)" "acct_id a = cfa_accountId i" using found_account [OF moved(2)] k(3) by simp_all
  have deb: "accounts h = debited (cfa_accountId i) (cfa_amountCents i) g"
    using facts(2) a(2) k(3) by (simp add: debited_def)
  have "accounts h = update_where (\<lambda>b. acct_id b = acct_id a) (\<lambda>b. b\<lparr>acct_balance := acct_balance a - cfa_amountCents i\<rparr>) (accounts g)"
    unfolding deb debited_def a(2) [symmetric] by (rule update_by_key [OF wallet_ok_D(4) [OF assms(1)] a(1)]) simp
  then have "sum_list (map acct_balance (accounts h)) = sum_list (map acct_balance (accounts g)) - cfa_amountCents i"
    using sum_update_where [OF wallet_ok_D(4) [OF assms(1)] a(1), of acct_balance
        "\<lambda>b. b\<lparr>acct_balance := acct_balance a - cfa_amountCents i\<rparr>" "acct_balance a - cfa_amountCents i"] by simp
  moreover have "findAccountById (cfa_accountId i) g = Some a" using moved(2) k(3) by (simp add: findAccountById_def)
  moreover have "findByProfileAndUser (cfa_sharedProfileId i) (pr_userId p) g = Some m"
    using moved(5) k(10) by (simp add: findByProfileAndUser_def)
  ultimately show ?thesis
    using facts(3,5) deb a(2) k(1,2,5) moved(3,4,6,7,12,13) by (auto simp: wealth_def)
qed

theorem contribution_moves_money_witness:
  "\<exists>account row h. contributeFromAccount_tx (\<lambda>_. False) demo_owner demo_contribution demo_wallet = (Ok (account, row), h)
     \<and> wealth h = wealth demo_wallet \<and> acct_balance account = 3800 \<and> rec_amount row = 1200"
proof -
  obtain account row h where c: "contributeFromAccount_tx (\<lambda>_. False) demo_owner demo_contribution demo_wallet = (Ok (account, row), h)"
    using demo_contributes [of "\<lambda>_. False"] by auto
  have "findAccountById (cfa_accountId demo_contribution) demo_wallet = Some (demo_account ''w'' ''q'' 5000)"
    by (simp add: findAccountById_def demo_contribution_def demo_wallet_simps)
  with contribution_moves_money [OF demo_wallet_ok c]
  have "account\<lparr>acct_balance := acct_balance account + 1200\<rparr> = demo_account ''w'' ''q'' 5000"
    and "rec_amount row = 1200" "wealth h = wealth demo_wallet" by (auto simp: demo_contribution_def)
  moreover from this(1) have "acct_balance account = 3800" by (cases account) (simp add: demo_account_def)
  ultimately show ?thesis using c by blast
qed

text \<open>
  C30: personal accounts are private. The accounts a caller is shown, through the list of their own
  accounts or through any personal profile identifier, and the accounts that another user of the tenant
  is shown afterwards, in either way, have none in common.
\<close>

theorem accounts_private:
  assumes "fresh_ids g" and "personal_ok g" and "pr_userId p \<noteq> pr_userId q"
    and "listPersonalAccounts_tx held p g = (Ok mine, h) \<or> accountsForOwnedProfile_tx p i g = (Ok mine, h)"
    and "listPersonalAccounts_tx held' q h = (Ok theirs, k) \<or> accountsForOwnedProfile_tx q j h = (Ok theirs, k)"
  shows "set mine \<inter> set theirs = {}"
proof -
  from shown_own [OF assms(1,2,4)] have h: "fresh_ids h" "personal_ok h" "accounts h = accounts g"
    and mine: "mine = [] \<or> (\<exists>a \<in> set (personalProfiles h). pp_userId a = pr_userId p
        \<and> mine = listAccountsByProfile PERSONAL (pp_id a) g)" by simp_all
  from shown_own [OF h(1,2) assms(5)] have k: "personal_ok k" "set (personalProfiles h) \<subseteq> set (personalProfiles k)"
    and theirs: "theirs = [] \<or> (\<exists>b \<in> set (personalProfiles k). pp_userId b = pr_userId q
        \<and> theirs = listAccountsByProfile PERSONAL (pp_id b) h)" by simp_all
  show ?thesis
  proof (cases "mine = [] \<or> theirs = []")
    case False
    with mine theirs obtain a b where a: "a \<in> set (personalProfiles h)" "pp_userId a = pr_userId p"
        "mine = listAccountsByProfile PERSONAL (pp_id a) g"
      and b: "b \<in> set (personalProfiles k)" "pp_userId b = pr_userId q" "theirs = listAccountsByProfile PERSONAL (pp_id b) h"
      by blast
    have "a \<in> set (personalProfiles k)" using a(1) k(2) by blast
    moreover have "a \<noteq> b" using a(2) b(2) assms(3) by auto
    ultimately have "pp_id a \<noteq> pp_id b" using k(1) b(1) distinct_key_eq unfolding personal_ok_def by metis
    then show ?thesis by (auto simp: a(3) b(3) listAccountsByProfile_def)
  qed auto
qed

theorem accounts_private_witness:
  "\<exists>mine theirs h k. listPersonalAccounts_tx (\<lambda>_. False) demo_owner demo_wallet = (Ok mine, h)
     \<and> listPersonalAccounts_tx (\<lambda>_. False) demo_guest h = (Ok theirs, k)
     \<and> mine \<noteq> [] \<and> theirs \<noteq> [] \<and> set mine \<inter> set theirs = {}"
proof -
  have m: "listPersonalAccounts_tx (\<lambda>_. False) demo_owner demo_wallet = (Ok [demo_account ''w'' ''q'' 5000], demo_wallet)"
    unfolding listPersonalAccounts_tx_def demo_personal_found by (simp add: listAccountsByProfile_def demo_wallet_simps)
  have t: "listPersonalAccounts_tx (\<lambda>_. False) demo_guest demo_wallet = (Ok [demo_account ''x'' ''r'' 300], demo_wallet)"
    by (simp add: listPersonalAccounts_tx_def findOrCreatePersonalProfile_def listAccountsByProfile_def demo_wallet_simps
        demo_guest_def)
  have "pr_userId demo_owner \<noteq> pr_userId demo_guest" by (simp add: demo_owner_def demo_guest_def)
  from accounts_private [OF wallet_ok_D(3,6) [OF demo_wallet_ok] this disjI1 [OF m] disjI1 [OF t]] m t show ?thesis by blast
qed

end
