(* ===== verification/Worker.thy ===== *)
theory Worker
  imports Outbox "HOL-Library.Sublist"
begin

section \<open>Event delivery\<close>

text \<open>
  \<open>src/apps/api/src/modules/events\<close>: the envelope, the relay from the outbox to the job queue
  (\<open>dispatcher/outbox.dispatcher.ts\<close>), the registry of handlers and the worker
  (\<open>registry\<close>). Redis and BullMQ are not part of the program: the definitions take their
  operations as arguments (\<open>None\<close> for a rejected promise), and theorems assume of them what their
  documentation promises (\<open>redis_contract\<close>, \<open>queue_contract\<close>).
\<close>

subsection \<open>The envelope\<close>

record envelope =
  env_eventId :: uuid
  env_eventType :: string
  env_schemaVersion :: int
  env_tenantId :: string
  env_aggregateType :: string
  env_aggregateId :: uuid
  env_occurredAt :: instant
  env_actorMembershipId :: "uuid option"
  env_payload :: "(string \<times> json) list"

definition envelope_of :: "outbox_row \<Rightarrow> envelope" where
  "envelope_of row = \<lparr>env_eventId = ev_id row, env_eventType = ev_eventType row,
     env_schemaVersion = ev_schemaVersion row, env_tenantId = ev_tenantId row,
     env_aggregateType = ev_aggregateType row, env_aggregateId = ev_aggregateId row,
     env_occurredAt = ev_occurredAt row,
     env_actorMembershipId = string_field (ev_payload row) ''actorMembershipId'',
     env_payload = ev_payload row\<rparr>"

subsection \<open>The relay\<close>

text \<open>Adding a job: its name, its data and its identifier.\<close>

type_synonym 'q queue_add = "string \<Rightarrow> envelope \<Rightarrow> uuid \<Rightarrow> 'q \<Rightarrow> 'q option"

definition markDispatched :: "uuid \<Rightarrow> db \<Rightarrow> db" where
  "markDispatched i g = g\<lparr>outboxEvents :=
     update_where (\<lambda>r. ev_id r = i) (\<lambda>r. r\<lparr>ev_dispatchedAt := Some (clock g)\<rparr>) (outboxEvents g)\<rparr>"

text \<open>What is pending: oldest first, at most a batch, among the rows the plain connection sees.\<close>

definition pendingEvents :: "nat \<Rightarrow> db \<Rightarrow> outbox_row list" where
  "pendingEvents batchSize g =
     take batchSize (sort_key ev_occurredAt (filter (\<lambda>r. ev_dispatchedAt r = None) (outboxEvents g)))"

fun dispatch_loop :: "'q queue_add \<Rightarrow> outbox_row list \<Rightarrow> 'q \<Rightarrow> db \<Rightarrow> bool \<times> 'q \<times> db" where
  "dispatch_loop add [] q g = (True, q, g)"
| "dispatch_loop add (row # rows) q g =
     (case add (ev_eventType row) (envelope_of row) (ev_id row) q of
        None \<Rightarrow> (False, q, g)
      | Some q' \<Rightarrow> dispatch_loop add rows q' (markDispatched (ev_id row) g))"

text \<open>
  The state of the dispatcher is the flag \<open>running\<close>, which makes overlapping calls return 0;
  a failure is logged and counts as 0.
\<close>

definition dispatchPending :: "'q queue_add \<Rightarrow> (db \<Rightarrow> db) \<Rightarrow> nat \<Rightarrow> bool \<Rightarrow> 'q \<Rightarrow> db \<Rightarrow> nat \<times> bool \<times> 'q \<times> db" where
  "dispatchPending add visible batchSize running q g =
     (if running then (0, running, q, g)
      else
        let pending = pendingEvents batchSize (visible g) in
        case dispatch_loop add pending q g of
          (True, q', g') \<Rightarrow> (length pending, False, q', g')
        | (False, q', g') \<Rightarrow> (0, False, q', g'))"

subsection \<open>The registry\<close>

record 'd event_handler =
  eh_name :: string
  eh_eventTypes :: "string list"
  eh_handle :: "envelope \<Rightarrow> 'd \<Rightarrow> unit result \<times> 'd"

type_synonym 'd event_registry = "string \<Rightarrow> 'd event_handler list option"

definition handlersFor :: "'d event_registry \<Rightarrow> string \<Rightarrow> 'd event_handler list" where
  "handlersFor byType t = (case byType t of None \<Rightarrow> [] | Some hs \<Rightarrow> hs)"

definition register :: "'d event_handler \<Rightarrow> 'd event_registry \<Rightarrow> 'd event_registry" where
  "register h byType = foldl (\<lambda>m t. m(t := Some (handlersFor m t @ [h]))) byType (eh_eventTypes h)"

definition register_all :: "'d event_handler list \<Rightarrow> 'd event_registry" where
  "register_all hs = foldl (\<lambda>m h. register h m) (\<lambda>_. None) hs"

subsection \<open>The worker\<close>

definition claim_key :: "string \<Rightarrow> uuid \<Rightarrow> string" where
  "claim_key name eventId = ''processed:'' @ name @ '':'' @ eventId"

definition idempotencyTtlSeconds :: int where
  "idempotencyTtlSeconds = 60 * 60 * 24 * 7"

text \<open>
  \<open>SET key 1 EX ttl NX\<close>, which tells whether the key was set, and \<open>DEL key\<close>.
\<close>

type_synonym 'r redis_set_nx = "string \<Rightarrow> int \<Rightarrow> 'r \<Rightarrow> (bool \<times> 'r) option"
type_synonym 'r redis_del = "string \<Rightarrow> 'r \<Rightarrow> 'r option"

fun process_loop :: "'r redis_set_nx \<Rightarrow> 'r redis_del \<Rightarrow> 'd event_handler list \<Rightarrow> envelope \<Rightarrow> 'r \<Rightarrow> 'd
    \<Rightarrow> unit result \<times> 'r \<times> 'd" where
  "process_loop set_nx del [] e r d = (Ok (), r, d)"
| "process_loop set_nx del (h # hs) e r d =
     (let key = claim_key (eh_name h) (env_eventId e) in
      case set_nx key idempotencyTtlSeconds r of
        None \<Rightarrow> (Thrown GenericError, r, d)
      | Some (claimed, r1) \<Rightarrow>
          if \<not> claimed then process_loop set_nx del hs e r1 d
          else case eh_handle h e d of
              (Thrown x, d1) \<Rightarrow>
                (case del key r1 of None \<Rightarrow> (Thrown GenericError, r1, d1) | Some r2 \<Rightarrow> (Thrown x, r2, d1))
            | (Err err, d1) \<Rightarrow> process_loop set_nx del hs e r1 d1
            | (Ok u, d1) \<Rightarrow> process_loop set_nx del hs e r1 d1)"

definition process :: "'r redis_set_nx \<Rightarrow> 'r redis_del \<Rightarrow> 'd event_registry \<Rightarrow> envelope \<Rightarrow> 'r \<Rightarrow> 'd
    \<Rightarrow> unit result \<times> 'r \<times> 'd" where
  "process set_nx del reg e r d = process_loop set_nx del (handlersFor reg (env_eventType e)) e r d"

subsection \<open>What Redis and the queue promise\<close>

text \<open>
  Redis while it is up and while no key has expired: \<open>SET NX\<close> succeeds exactly on an absent key and
  leaves it present, \<open>DEL\<close> removes it, and neither touches another key. The time to live that the worker
  passes (seven days) is not looked at, so what rests on this contract speaks of redeliveries within that
  time; the model of the worker itself has the failures of Redis as \<open>None\<close>. A queue keeps a job under
  its identifier and ignores a second one with the same identifier.
\<close>

definition redis_contract :: "'r redis_set_nx \<Rightarrow> 'r redis_del \<Rightarrow> ('r \<Rightarrow> string set) \<Rightarrow> bool" where
  "redis_contract set_nx del keys \<longleftrightarrow>
     (\<forall>k ttl r. \<exists>r'. set_nx k ttl r = Some (k \<notin> keys r, r') \<and> keys r' = insert k (keys r))
     \<and> (\<forall>k r. \<exists>r'. del k r = Some r' \<and> keys r' = keys r - {k})"

definition queue_contract :: "'q queue_add \<Rightarrow> ('q \<Rightarrow> (uuid \<times> envelope) list) \<Rightarrow> bool" where
  "queue_contract add jobs \<longleftrightarrow>
     (\<forall>name e i q. \<exists>q'. add name e i q = Some q'
        \<and> jobs q' = (if i \<in> fst ` set (jobs q) then jobs q else jobs q @ [(i, e)]))"

subsection \<open>The registry fans out by type\<close>

lemma handlersFor_register:
  assumes "distinct (eh_eventTypes h)"
  shows "handlersFor (register h m) t = handlersFor m t @ (if t \<in> set (eh_eventTypes h) then [h] else [])"
proof -
  have "handlersFor (foldl (\<lambda>m t. m(t := Some (handlersFor m t @ [h]))) m ts) t
      = handlersFor m t @ (if t \<in> set ts then [h] else [])" if "distinct ts" for ts
    using that by (induction ts arbitrary: m) (auto simp: handlersFor_def)
  then show ?thesis using assms by (simp add: register_def)
qed

lemma handlersFor_register_all:
  assumes "list_all (\<lambda>h. distinct (eh_eventTypes h)) hs"
  shows "handlersFor (register_all hs) t = filter (\<lambda>h. t \<in> set (eh_eventTypes h)) hs"
proof -
  have "handlersFor (foldl (\<lambda>m h. register h m) m hs) t = handlersFor m t @ filter (\<lambda>h. t \<in> set (eh_eventTypes h)) hs" for m
    using assms by (induction hs arbitrary: m) (simp_all add: handlersFor_register)
  then show ?thesis by (simp add: register_all_def handlersFor_def)
qed

subsection \<open>The worker runs the unclaimed handlers in order\<close>

text \<open>The reference: run handlers one after the other until one throws.\<close>

fun run_handlers :: "'d event_handler list \<Rightarrow> envelope \<Rightarrow> 'd \<Rightarrow> unit result \<times> 'd event_handler list \<times> 'd" where
  "run_handlers [] e d = (Ok (), [], d)"
| "run_handlers (h # hs) e d =
     (case eh_handle h e d of
        (Thrown x, d1) \<Rightarrow> (Thrown x, [], d1)
      | (_, d1) \<Rightarrow> (case run_handlers hs e d1 of (res, done, d2) \<Rightarrow> (res, h # done, d2)))"

definition unclaimed :: "string set \<Rightarrow> envelope \<Rightarrow> 'd event_handler list \<Rightarrow> 'd event_handler list" where
  "unclaimed keys e hs = filter (\<lambda>h. claim_key (eh_name h) (env_eventId e) \<notin> keys) hs"

definition claims :: "envelope \<Rightarrow> 'd event_handler list \<Rightarrow> string set" where
  "claims e hs = (\<lambda>h. claim_key (eh_name h) (env_eventId e)) ` set hs"

lemma claim_key_inj: "claim_key a i = claim_key b i \<longleftrightarrow> a = b"
  by (simp add: claim_key_def)

lemma unclaimed_simps [simp]:
  "unclaimed keys e [] = []"
  "unclaimed keys e (h # hs) = (if claim_key (eh_name h) (env_eventId e) \<in> keys then unclaimed keys e hs else h # unclaimed keys e hs)"
  by (simp_all add: unclaimed_def)

lemma unclaimed_insert:
  "eh_name h \<notin> eh_name ` set hs \<Longrightarrow> unclaimed (insert (claim_key (eh_name h) (env_eventId e)) keys) e hs = unclaimed keys e hs"
  by (induction hs) (auto simp: claim_key_inj)

lemma process_loop_spec:
  assumes c: "redis_contract set_nx del keys" and "distinct (map eh_name hs)"
  shows "\<exists>r'. process_loop set_nx del hs e r d
      = (fst (run_handlers (unclaimed (keys r) e hs) e d), r', snd (snd (run_handlers (unclaimed (keys r) e hs) e d)))
    \<and> keys r' = keys r \<union> claims e (fst (snd (run_handlers (unclaimed (keys r) e hs) e d)))"
  using assms(2)
proof (induction hs arbitrary: r d)
  case Nil
  then show ?case by (simp add: claims_def)
next
  case (Cons h hs)
  let ?k = "claim_key (eh_name h) (env_eventId e)"
  obtain r1 where r1: "set_nx ?k idempotencyTtlSeconds r = Some (?k \<notin> keys r, r1)" "keys r1 = insert ?k (keys r)"
    using c unfolding redis_contract_def by blast
  obtain r2 where r2: "del ?k r1 = Some r2" "keys r2 = keys r1 - {?k}" using c unfolding redis_contract_def by blast
  have rest: "eh_name h \<notin> eh_name ` set hs" "distinct (map eh_name hs)" using Cons.prems by simp_all
  show ?case
  proof (cases "?k \<in> keys r")
    case True
    then have same: "keys r1 = keys r" by (simp add: r1(2) insert_absorb)
    have "process_loop set_nx del (h # hs) e r d = process_loop set_nx del hs e r1 d" using True r1(1) by simp
    moreover have "unclaimed (keys r) e (h # hs) = unclaimed (keys r) e hs" using True by simp
    ultimately show ?thesis using Cons.IH [OF rest(2), of r1 d] unfolding same by metis
  next
    case False
    have un: "unclaimed (keys r1) e hs = unclaimed (keys r) e hs" by (simp add: r1(2) unclaimed_insert rest(1))
    have undo: "keys r2 = keys r" using False by (simp add: r1(2) r2(2))
    obtain res d1 where run: "eh_handle h e d = (res, d1)" by fastforce
    obtain res' dn d2 where rh: "run_handlers (unclaimed (keys r) e hs) e d1 = (res', dn, d2)" by (metis prod_cases3)
    obtain r' where ih: "process_loop set_nx del hs e r1 d1 = (res', r', d2)" "keys r' = keys r1 \<union> claims e dn"
      using Cons.IH [OF rest(2), of r1 d1] unfolding un rh by auto
    show ?thesis
    proof (cases res)
      case (Thrown x)
      then have "process_loop set_nx del (h # hs) e r d = (Thrown x, r2, d1)"
        "run_handlers (unclaimed (keys r) e (h # hs)) e d = (Thrown x, [], d1)"
        using False r1(1) r2(1) run by simp_all
      then show ?thesis using undo by (simp add: claims_def)
    next
      case (Ok u)
      then have "process_loop set_nx del (h # hs) e r d = (res', r', d2)"
        "run_handlers (unclaimed (keys r) e (h # hs)) e d = (res', h # dn, d2)"
        using False r1(1) run ih(1) rh by simp_all
      then show ?thesis using ih(2) r1(2) by (auto simp: claims_def)
    next
      case (Err err)
      then have "process_loop set_nx del (h # hs) e r d = (res', r', d2)"
        "run_handlers (unclaimed (keys r) e (h # hs)) e d = (res', h # dn, d2)"
        using False r1(1) run ih(1) rh by simp_all
      then show ?thesis using ih(2) r1(2) by (auto simp: claims_def)
    qed
  qed
qed

subsection \<open>What handlers keep\<close>

text \<open>
  The contract between the worker and the handlers the modules register: each handler keeps a predicate
  on the data, whatever event it is given; then so does the delivery of any event.
\<close>

locale handler_contract =
  fixes P :: "'d \<Rightarrow> bool" and handlers :: "'d event_handler list"
  assumes handler_keeps: "h \<in> set handlers \<Longrightarrow> P d \<Longrightarrow> P (snd (eh_handle h e d))"
    and types_distinct: "list_all (\<lambda>h. distinct (eh_eventTypes h)) handlers"
begin

lemma loop_keeps: "set hs \<subseteq> set handlers \<Longrightarrow> P d \<Longrightarrow> P (snd (snd (process_loop set_nx del hs e r d)))"
proof (induction hs arbitrary: r d)
  case (Cons h hs)
  obtain q d1 where q: "eh_handle h e d = (q, d1)" by fastforce
  have d1: "P d1" using handler_keeps [of h d e] Cons.prems q by simp
  have rest: "P (snd (snd (process_loop set_nx del hs e r' d')))" if "P d'" for r' d'
    using Cons.IH that Cons.prems(1) by simp
  show ?case
    by (cases q) (use q d1 rest Cons.prems(2) in \<open>simp_all add: Let_def split: option.splits prod.splits\<close>)
qed simp

lemma process_keeps: "P d \<Longrightarrow> P (snd (snd (process set_nx del (register_all handlers) e r d)))"
  unfolding process_def by (rule loop_keeps) (auto simp: handlersFor_register_all [OF types_distinct])

end

subsection \<open>Repeated deliveries\<close>

text \<open>
  The deliveries of one event, with whatever changes the state of the program before each of them;
  and handlers that also log their name when they complete.
\<close>

fun deliver :: "'r redis_set_nx \<Rightarrow> 'r redis_del \<Rightarrow> 'd event_registry \<Rightarrow> envelope \<Rightarrow> ('d \<Rightarrow> 'd) list \<Rightarrow> 'r \<Rightarrow> 'd
    \<Rightarrow> unit result list \<times> 'r \<times> 'd" where
  "deliver set_nx del reg e [] r d = ([], r, d)"
| "deliver set_nx del reg e (f # fs) r d =
     (case process set_nx del reg e r (f d) of (x, r1, d1) \<Rightarrow>
      case deliver set_nx del reg e fs r1 d1 of (xs, r2, d2) \<Rightarrow> (x # xs, r2, d2))"

definition logged :: "'d event_handler \<Rightarrow> (string list \<times> 'd) event_handler" where
  "logged h = \<lparr>eh_name = eh_name h, eh_eventTypes = eh_eventTypes h,
     eh_handle = (\<lambda>e (l, d). case eh_handle h e d of
         (Thrown x, d') \<Rightarrow> (Thrown x, (l, d'))
       | (r, d') \<Rightarrow> (r, (l @ [eh_name h], d')))\<rparr>"

lemma logged_simps [simp]: "eh_name (logged h) = eh_name h" "eh_eventTypes (logged h) = eh_eventTypes h"
  by (simp_all add: logged_def)

lemma unclaimed_logged: "unclaimed keys e (map logged hs) = map logged (unclaimed keys e hs)"
  by (induction hs) simp_all

lemma run_logged:
  "\<exists>res n d'. run_handlers (map logged hs) e (l, d) = (res, map logged (take n hs), (l @ map eh_name (take n hs), d'))
     \<and> (isOk res \<longrightarrow> take n hs = hs) \<and> n \<le> length hs"
proof (induction hs arbitrary: l d)
  case Nil
  then show ?case by simp
next
  case (Cons h hs)
  obtain res d1 where run: "eh_handle h e d = (res, d1)" by fastforce
  show ?case
  proof (cases res)
    case (Thrown x)
    then have "run_handlers (map logged (h # hs)) e (l, d) = (Thrown x, [], (l, d1))"
      using run by (simp add: logged_def)
    then show ?thesis by (intro exI [of _ "Thrown x"] exI [of _ 0]) simp
  next
    case (Ok u)
    obtain res' n d2 where ih: "run_handlers (map logged hs) e (l @ [eh_name h], d1)
        = (res', map logged (take n hs), ((l @ [eh_name h]) @ map eh_name (take n hs), d2))"
      "isOk res' \<longrightarrow> take n hs = hs" "n \<le> length hs" using Cons.IH by blast
    have "run_handlers (map logged (h # hs)) e (l, d)
        = (res', map logged (take (Suc n) (h # hs)), (l @ map eh_name (take (Suc n) (h # hs)), d2))"
      using run Ok ih(1) by (simp add: logged_def [of h])
    then show ?thesis using ih(2,3) by (intro exI [of _ res'] exI [of _ "Suc n"]) simp
  next
    case (Err err)
    obtain res' n d2 where ih: "run_handlers (map logged hs) e (l @ [eh_name h], d1)
        = (res', map logged (take n hs), ((l @ [eh_name h]) @ map eh_name (take n hs), d2))"
      "isOk res' \<longrightarrow> take n hs = hs" "n \<le> length hs" using Cons.IH by blast
    have "run_handlers (map logged (h # hs)) e (l, d)
        = (res', map logged (take (Suc n) (h # hs)), (l @ map eh_name (take (Suc n) (h # hs)), d2))"
      using run Err ih(1) by (simp add: logged_def [of h])
    then show ?thesis using ih(2,3) by (intro exI [of _ res'] exI [of _ "Suc n"]) simp
  qed
qed

lemma unclaimed_after:
  fixes hs :: "'d event_handler list"
  assumes "distinct (map eh_name hs)"
  shows "unclaimed (keys \<union> claims e (map logged (take n (unclaimed keys e hs)))) e hs = drop n (unclaimed keys e hs)"
proof -
  have part: "filter (\<lambda>h. eh_name h \<notin> eh_name ` set (take n us)) us = drop n us" if "distinct (map eh_name us)" for us :: "'d event_handler list" and n
    using that
  proof (induction us arbitrary: n)
    case Nil
    then show ?case by simp
  next
    case (Cons u us)
    show ?case
    proof (cases n)
      case (Suc k)
      have "filter (\<lambda>h. eh_name h \<notin> eh_name ` set (take n (u # us))) us
          = filter (\<lambda>h. eh_name h \<notin> eh_name ` set (take k us)) us"
        using Cons.prems Suc by (intro filter_cong) (auto simp: image_iff)
      then show ?thesis using Suc Cons by simp
    qed simp
  qed
  have "unclaimed (keys \<union> claims e (map logged us)) e hs
      = filter (\<lambda>h. eh_name h \<notin> eh_name ` set us) (unclaimed keys e hs)" for us :: "'d event_handler list"
    by (auto simp: unclaimed_def claims_def claim_key_inj image_image intro!: filter_cong)
  moreover have "distinct (map eh_name (unclaimed keys e hs))" using assms by (simp add: unclaimed_def distinct_map_filter)
  ultimately show ?thesis using part by simp
qed

lemma deliver_logged:
  fixes hs :: "'d event_handler list"
  assumes c: "redis_contract set_nx del keys" and dist: "distinct (map eh_name hs)"
    and reg: "handlersFor reg (env_eventType e) = map logged hs"
    and run: "deliver set_nx del reg e (map apsnd fs) r (l, d) = (xs, r', (l', d'))"
  shows "\<exists>n. l' = l @ map eh_name (take n (unclaimed (keys r) e hs))
     \<and> ((\<exists>x \<in> set xs. isOk x) \<longrightarrow> take n (unclaimed (keys r) e hs) = unclaimed (keys r) e hs)"
  using run
proof (induction fs arbitrary: r l d xs)
  case Nil
  then show ?case by (intro exI [of _ 0]) simp
next
  case (Cons f fs)
  let ?us = "unclaimed (keys r) e hs"
  obtain res n d1 where rn: "run_handlers (map logged ?us) e (l, f d)
      = (res, map logged (take n ?us), (l @ map eh_name (take n ?us), d1))" "isOk res \<longrightarrow> take n ?us = ?us"
    using run_logged [of ?us e l "f d"] by blast
  have "distinct (map eh_name (map logged hs))" using dist by (simp add: comp_def)
  from process_loop_spec [OF c this, of e r "(l, f d)"] rn(1) obtain r1 where
    p: "process set_nx del reg e r (l, f d) = (res, r1, (l @ map eh_name (take n ?us), d1))"
    and k: "keys r1 = keys r \<union> claims e (map logged (take n ?us))"
    unfolding process_def reg unclaimed_logged by auto
  obtain ys where ys: "deliver set_nx del reg e (map apsnd fs) r1 (l @ map eh_name (take n ?us), d1) = (ys, r', (l', d'))"
    and xs: "xs = res # ys"
    using Cons.prems p by (auto split: prod.splits)
  have left: "unclaimed (keys r1) e hs = drop n ?us" unfolding k by (rule unclaimed_after [OF dist])
  from Cons.IH [OF ys] obtain m where m: "l' = (l @ map eh_name (take n ?us)) @ map eh_name (take m (drop n ?us))"
    "(\<exists>x \<in> set ys. isOk x) \<longrightarrow> take m (drop n ?us) = drop n ?us" unfolding left by blast
  have "take n ?us @ take m (drop n ?us) = take (n + m) ?us" by (simp add: take_add)
  then have "l' = l @ map eh_name (take (n + m) ?us)" using m(1) by (metis append_assoc map_append)
  moreover have "take (n + m) ?us = ?us" if "\<exists>x \<in> set xs. isOk x"
    using that xs rn(2) m(2) by (auto simp: take_add)
  ultimately show ?case by blast
qed

subsection \<open>The relay drains the outbox\<close>

definition pending_rows :: "db \<Rightarrow> outbox_row list" where
  "pending_rows g = filter (\<lambda>r. ev_dispatchedAt r = None) (outboxEvents g)"

lemma pendingEvents_eq: "pendingEvents n g = take n (sort_key ev_occurredAt (pending_rows g))"
  by (simp add: pendingEvents_def pending_rows_def)

lemma queue_adds:
  assumes "queue_contract add jobs" and "i \<notin> fst ` set (jobs q)"
  obtains q' where "add name e i q = Some q'" and "jobs q' = jobs q @ [(i, e)]"
  using assms unfolding queue_contract_def by meson

lemma dispatch_loop_exact:
  assumes "queue_contract add jobs" and "distinct (map ev_id rows)" and "ev_id ` set rows \<inter> fst ` set (jobs q) = {}"
  shows "\<exists>q'. dispatch_loop add rows q g
      = (True, q', g\<lparr>outboxEvents := update_where (\<lambda>r. ev_id r \<in> ev_id ` set rows)
           (\<lambda>r. r\<lparr>ev_dispatchedAt := Some (clock g)\<rparr>) (outboxEvents g)\<rparr>)
    \<and> jobs q' = jobs q @ map (\<lambda>r. (ev_id r, envelope_of r)) rows"
  using assms(2,3)
proof (induction rows arbitrary: q g)
  case Nil
  then show ?case by (simp add: update_where_none)
next
  case (Cons row rows)
  obtain q1 where q1: "add (ev_eventType row) (envelope_of row) (ev_id row) q = Some q1"
      "jobs q1 = jobs q @ [(ev_id row, envelope_of row)]"
    by (rule queue_adds [OF assms(1), of "ev_id row" q]) (use Cons.prems(2) in auto)
  have "ev_id ` set rows \<inter> fst ` set (jobs q1) = {}" using Cons.prems q1(2) by auto
  then obtain q' where ih: "dispatch_loop add rows q1 (markDispatched (ev_id row) g)
      = (True, q', (markDispatched (ev_id row) g)\<lparr>outboxEvents := update_where (\<lambda>r. ev_id r \<in> ev_id ` set rows)
           (\<lambda>r. r\<lparr>ev_dispatchedAt := Some (clock (markDispatched (ev_id row) g))\<rparr>) (outboxEvents (markDispatched (ev_id row) g))\<rparr>)"
    "jobs q' = jobs q1 @ map (\<lambda>r. (ev_id r, envelope_of r)) rows"
    using Cons.IH [of q1 "markDispatched (ev_id row) g"] Cons.prems(1) by auto
  have "update_where (\<lambda>r. ev_id r \<in> ev_id ` set rows) (\<lambda>r. r\<lparr>ev_dispatchedAt := Some (clock g)\<rparr>)
        (outboxEvents (markDispatched (ev_id row) g))
      = update_where (\<lambda>r. ev_id r \<in> ev_id ` set (row # rows)) (\<lambda>r. r\<lparr>ev_dispatchedAt := Some (clock g)\<rparr>) (outboxEvents g)"
    by (auto simp: markDispatched_def update_where_def)
  moreover have "clock (markDispatched (ev_id row) g) = clock g" by (simp add: markDispatched_def)
  ultimately show ?case using q1 ih by (simp add: markDispatched_def)
qed

text \<open>
  One call of the timer after another, each at its own time, on a connection that sees the part
  \<open>visible g\<close> of the database: all of it for the owner of the tables, nothing of the tables
  under row-level security for the application's role without the tenant setting.
\<close>

fun polls :: "'q queue_add \<Rightarrow> (db \<Rightarrow> db) \<Rightarrow> nat \<Rightarrow> instant list \<Rightarrow> 'q \<Rightarrow> db \<Rightarrow> nat \<times> 'q \<times> db" where
  "polls add visible batchSize [] q g = (0, q, g)"
| "polls add visible batchSize (t # ts) q g =
     (case dispatchPending add visible batchSize False q (g\<lparr>clock := t\<rparr>) of (n, running, q1, g1) \<Rightarrow>
      case polls add visible batchSize ts q1 g1 of (m, q2, g2) \<Rightarrow> (n + m, q2, g2))"

lemma filter_not_taken:
  "distinct (map f xs) \<Longrightarrow> filter (\<lambda>x. f x \<notin> f ` set (take n xs)) xs = drop n xs"
proof (induction xs arbitrary: n)
  case Nil
  then show ?case by simp
next
  case (Cons x xs)
  show ?case
  proof (cases n)
    case (Suc k)
    have "filter (\<lambda>y. f y \<notin> f ` set (take n (x # xs))) xs = filter (\<lambda>y. f y \<notin> f ` set (take k xs)) xs"
      using Cons.prems Suc by (intro filter_cong) (auto simp: image_iff)
    then show ?thesis using Suc Cons by simp
  qed simp
qed

text \<open>What one poll leaves: the pending events after the batch, in the same order.\<close>

lemma dispatch_once:
  assumes "queue_contract add jobs" and "distinct (map ev_id (outboxEvents g))"
    and "ev_id ` set (pending_rows g) \<inter> fst ` set (jobs q) = {}"
  obtains q' g' where "dispatchPending add (\<lambda>g. g) b False q g = (length (pendingEvents b g), False, q', g')"
    and "jobs q' = jobs q @ map (\<lambda>r. (ev_id r, envelope_of r)) (pendingEvents b g)"
    and "sort_key ev_occurredAt (pending_rows g') = drop b (sort_key ev_occurredAt (pending_rows g))"
    and "set (pending_rows g') \<subseteq> set (pending_rows g)"
    and "map (\<lambda>r. r\<lparr>ev_dispatchedAt := None\<rparr>) (outboxEvents g') = map (\<lambda>r. r\<lparr>ev_dispatchedAt := None\<rparr>) (outboxEvents g)"
proof -
  let ?S = "sort_key ev_occurredAt (pending_rows g)" and ?ids = "ev_id ` set (pendingEvents b g)"
  have dp: "distinct (map ev_id (pending_rows g))" using assms(2) by (simp add: pending_rows_def distinct_map_filter)
  then have "distinct (map ev_id ?S)" by (metis distinct_map distinct_sort set_sort)
  then have d: "distinct (map ev_id (pendingEvents b g))"
    unfolding pendingEvents_eq by (metis distinct_take take_map)
  have sub: "set (pendingEvents b g) \<subseteq> set (pending_rows g)" unfolding pendingEvents_eq by (auto dest: in_set_takeD)
  then have "?ids \<inter> fst ` set (jobs q) = {}" using assms(3) by blast
  from dispatch_loop_exact [OF assms(1) d this, of g] obtain q' where l:
    "dispatch_loop add (pendingEvents b g) q g = (True, q', g\<lparr>outboxEvents := update_where (\<lambda>r. ev_id r \<in> ?ids)
           (\<lambda>r. r\<lparr>ev_dispatchedAt := Some (clock g)\<rparr>) (outboxEvents g)\<rparr>)"
    "jobs q' = jobs q @ map (\<lambda>r. (ev_id r, envelope_of r)) (pendingEvents b g)" by blast
  let ?g' = "g\<lparr>outboxEvents := update_where (\<lambda>r. ev_id r \<in> ?ids)
           (\<lambda>r. r\<lparr>ev_dispatchedAt := Some (clock g)\<rparr>) (outboxEvents g)\<rparr>"
  have "filter (\<lambda>r. ev_dispatchedAt r = None) (update_where (\<lambda>r. ev_id r \<in> I) (\<lambda>r. r\<lparr>ev_dispatchedAt := Some c\<rparr>) rows)
      = filter (\<lambda>r. ev_id r \<notin> I) (filter (\<lambda>r. ev_dispatchedAt r = None) rows)" for I c and rows :: "outbox_row list"
    by (induction rows) (simp_all add: update_where_def)
  then have p: "pending_rows ?g' = filter (\<lambda>r. ev_id r \<notin> ?ids) (pending_rows g)" by (simp add: pending_rows_def)
  have "sort_key ev_occurredAt (pending_rows ?g') = filter (\<lambda>r. ev_id r \<notin> ?ids) ?S" unfolding p by (simp add: filter_sort)
  also have "\<dots> = drop b ?S" unfolding pendingEvents_eq by (rule filter_not_taken) fact
  finally have rest: "sort_key ev_occurredAt (pending_rows ?g') = drop b ?S" .
  show thesis
  proof (rule that [of q' ?g'])
    show "dispatchPending add (\<lambda>g. g) b False q g = (length (pendingEvents b g), False, q', ?g')"
      by (simp add: dispatchPending_def l(1) Let_def)
    show "set (pending_rows ?g') \<subseteq> set (pending_rows g)" unfolding p by auto
    show "map (\<lambda>r. r\<lparr>ev_dispatchedAt := None\<rparr>) (outboxEvents ?g') = map (\<lambda>r. r\<lparr>ev_dispatchedAt := None\<rparr>) (outboxEvents g)"
      by (simp add: update_where_def)
  qed (use l(2) rest in auto)
qed

text \<open>A connection without the tenant setting sees no row, so the relay never finds an event.\<close>

lemma relay_without_setting: "dispatchPending add (rls_view None) b False q g = (0, False, q, g)"
  by (simp add: dispatchPending_def pendingEvents_def rls_view_def project_def)

subsection \<open>Properties\<close>

lemma polls_drain:
  assumes "queue_contract add jobs" and "distinct (map ev_id (outboxEvents g))"
    and "ev_id ` set (pending_rows g) \<inter> fst ` set (jobs q) = {}"
    and "length (pending_rows g) \<le> b * length ts" and "polls add (\<lambda>g. g) b ts q g = (n, q', g')"
  shows "pending_rows g' = [] \<and> n = length (pending_rows g)
    \<and> jobs q' = jobs q @ map (\<lambda>r. (ev_id r, envelope_of r)) (sort_key ev_occurredAt (pending_rows g))
    \<and> map (\<lambda>r. r\<lparr>ev_dispatchedAt := None\<rparr>) (outboxEvents g') = map (\<lambda>r. r\<lparr>ev_dispatchedAt := None\<rparr>) (outboxEvents g)"
  using assms(2-)
proof (induction ts arbitrary: q g n)
  case Nil
  then show ?case by simp
next
  case (Cons t ts)
  let ?g = "g\<lparr>clock := t\<rparr>" and ?S = "sort_key ev_occurredAt (pending_rows g)"
  have pr: "pending_rows ?g = pending_rows g" by (simp add: pending_rows_def)
  have ids: "distinct (map ev_id (outboxEvents ?g))" "ev_id ` set (pending_rows ?g) \<inter> fst ` set (jobs q) = {}"
    using Cons.prems(1,2) by (simp_all add: pr)
  obtain q1 g1 where one: "dispatchPending add (\<lambda>g. g) b False q ?g = (length (pendingEvents b ?g), False, q1, g1)"
    "jobs q1 = jobs q @ map (\<lambda>r. (ev_id r, envelope_of r)) (take b ?S)"
    "sort_key ev_occurredAt (pending_rows g1) = drop b ?S" "set (pending_rows g1) \<subseteq> set (pending_rows g)"
    "map (\<lambda>r. r\<lparr>ev_dispatchedAt := None\<rparr>) (outboxEvents g1) = map (\<lambda>r. r\<lparr>ev_dispatchedAt := None\<rparr>) (outboxEvents g)"
    using dispatch_once [OF assms(1) ids, of b] by (auto simp: pendingEvents_eq pr)
  obtain m where m: "polls add (\<lambda>g. g) b ts q1 g1 = (m, q', g')" "n = min (length (pending_rows g)) b + m"
    using Cons.prems(4) one(1) by (auto simp: pendingEvents_eq pr split: prod.splits)
  have "map ev_id (outboxEvents g1) = map ev_id (outboxEvents g)"
    using arg_cong [OF one(5), of "map ev_id"] by (simp add: comp_def)
  then have d1: "distinct (map ev_id (outboxEvents g1))" using Cons.prems(1) by simp
  have len: "length (pending_rows g1) = length (pending_rows g) - b" using arg_cong [OF one(3), of length] by simp
  have disj: "ev_id ` set (pending_rows g1) \<inter> fst ` set (jobs q1) = {}"
  proof -
    have "distinct (map ev_id ?S)"
      using Cons.prems(1) by (metis distinct_map distinct_map_filter distinct_sort pending_rows_def set_sort)
    then have "ev_id ` set (drop b ?S) \<inter> ev_id ` set (take b ?S) = {}"
      by (metis append_take_drop_id distinct_append inf_commute list.set_map map_append)
    moreover have "set (drop b ?S) = set (pending_rows g1)" by (metis one(3) set_sort)
    moreover have "fst ` set (jobs q1) = fst ` set (jobs q) \<union> ev_id ` set (take b ?S)" unfolding one(2) by force
    moreover have "ev_id ` set (pending_rows g1) \<inter> fst ` set (jobs q) = {}" using one(4) Cons.prems(2) by blast
    ultimately show ?thesis by auto
  qed
  have "length (pending_rows g1) \<le> b * length ts" using Cons.prems(3) len by simp
  note ih = Cons.IH [OF d1 disj this m(1)]
  have "jobs q' = jobs q1 @ map (\<lambda>r. (ev_id r, envelope_of r)) (drop b ?S)" using ih by (simp only: one(3))
  also have "\<dots> = jobs q @ map (\<lambda>r. (ev_id r, envelope_of r)) (take b ?S @ drop b ?S)" unfolding one(2) by (simp del: append_take_drop_id)
  finally have "jobs q' = jobs q @ map (\<lambda>r. (ev_id r, envelope_of r)) ?S" by simp
  then show ?case using ih m(2) len one(5) by simp
qed

lemma polls_blind: "polls add (rls_view None) b ts q g = (0, q, g\<lparr>clock := last (clock g # ts)\<rparr>)"
  by (induction ts arbitrary: g) (simp_all add: relay_without_setting)

text \<open>
  C17: what the relay's polls do, by what its connection sees. If the queue keeps its promise: when the
  connection sees the whole table, enough polls, at any times, leave no event pending; every pending
  event has been queued exactly once, in the order of occurrence, behind what was queued before; the
  counts add up; and nothing of an event but its dispatch time has changed. When the connection runs
  under forced row-level security without a tenant setting, as the migration's policies and the
  documented role make it, the same polls find no event, queue nothing and change nothing: the outbox
  is drained only if the deployment gives the relay a role that bypasses the policies.
\<close>

theorem outbox_drains:
  assumes "queue_contract add jobs" and "distinct (map ev_id (outboxEvents g))"
    and "ev_id ` set (pending_rows g) \<inter> fst ` set (jobs q) = {}"
    and "length (pending_rows g) \<le> b * length ts"
  shows "(\<exists>q' g'. polls add (\<lambda>g. g) b ts q g = (length (pending_rows g), q', g') \<and> pending_rows g' = []
      \<and> jobs q' = jobs q @ map (\<lambda>r. (ev_id r, envelope_of r)) (sort_key ev_occurredAt (pending_rows g))
      \<and> map (\<lambda>r. r\<lparr>ev_dispatchedAt := None\<rparr>) (outboxEvents g') = map (\<lambda>r. r\<lparr>ev_dispatchedAt := None\<rparr>) (outboxEvents g))
    \<and> (\<exists>c. polls add (rls_view None) b ts q g = (0, q, g\<lparr>clock := c\<rparr>))"
proof -
  obtain n q' g' where p: "polls add (\<lambda>g. g) b ts q g = (n, q', g')" by (metis prod_cases3)
  have "\<exists>c. polls add (rls_view None) b ts q g = (0, q, g\<lparr>clock := c\<rparr>)" unfolding polls_blind by blast
  with polls_drain [OF assms p] p show ?thesis by blast
qed

text \<open>
  C5: handlers run exactly once. Whatever happens to the program between deliveries, over any number of
  deliveries of an event the handlers registered for its type that complete are, in order of
  registration and each at most once, the first ones of those not already claimed when the first
  delivery starts; as soon as one delivery succeeds, all of them have completed. A handler whose claim
  is already set is never run.
\<close>

theorem handlers_run_once:
  assumes "redis_contract set_nx del keys" and "distinct (map eh_name hs)"
    and "list_all (\<lambda>h. distinct (eh_eventTypes h)) hs"
    and "deliver set_nx del (register_all (map logged hs)) e (map apsnd fs) r ([], d) = (xs, r', (log, d'))"
  shows "prefix log (map eh_name (unclaimed (keys r) e (filter (\<lambda>h. env_eventType e \<in> set (eh_eventTypes h)) hs)))
    \<and> (list_ex isOk xs \<longrightarrow>
        log = map eh_name (unclaimed (keys r) e (filter (\<lambda>h. env_eventType e \<in> set (eh_eventTypes h)) hs)))"
proof -
  let ?hs = "filter (\<lambda>h. env_eventType e \<in> set (eh_eventTypes h)) hs"
  have "list_all (\<lambda>h. distinct (eh_eventTypes h)) (map logged hs)" using assms(3) by (simp add: list_all_iff)
  from handlersFor_register_all [OF this, of "env_eventType e"]
  have reg: "handlersFor (register_all (map logged hs)) (env_eventType e) = map logged ?hs"
    by (simp add: filter_map comp_def)
  have "distinct (map eh_name ?hs)" using assms(2) by (rule distinct_map_filter)
  from deliver_logged [OF assms(1) this reg assms(4)] show ?thesis
    by (auto simp: list_ex_iff take_is_prefix map_mono_prefix)
qed

subsection \<open>A concrete queue, a concrete Redis\<close>

definition list_add :: "(uuid \<times> envelope) list queue_add" where
  "list_add name e i q = Some (if i \<in> fst ` set q then q else q @ [(i, e)])"

lemma list_queue: "queue_contract list_add (\<lambda>q. q)"
  by (simp add: queue_contract_def list_add_def)

definition list_set_nx :: "string list redis_set_nx" where
  "list_set_nx k ttl r = Some (k \<notin> set r, if k \<in> set r then r else k # r)"

definition list_del :: "string list redis_del" where
  "list_del k r = Some (removeAll k r)"

lemma list_redis: "redis_contract list_set_nx list_del set"
  by (auto simp: redis_contract_def list_set_nx_def list_del_def)

definition demo_event :: "uuid \<Rightarrow> instant \<Rightarrow> outbox_row" where
  "demo_event i t = \<lparr>ev_id = i, ev_tenantId = ''t'', ev_aggregateType = ''Membership'', ev_aggregateId = ''a'',
     ev_eventType = ''MemberLeft'', ev_schemaVersion = 1, ev_payload = [(''sharedProfileId'', JStr ''p'')],
     ev_occurredAt = t, ev_dispatchedAt = None\<rparr>"

definition demo_outbox :: db where
  "demo_outbox = no_rows\<lparr>outboxEvents := [demo_event ''e2'' 20, demo_event ''e1'' 10]\<rparr>"

text \<open>A handler that fails while the state is small, behind one that never fails.\<close>

definition demo_handlers :: "nat event_handler list" where
  "demo_handlers =
     [\<lparr>eh_name = ''audit'', eh_eventTypes = [''MemberLeft''], eh_handle = (\<lambda>e d. (Ok (), d + 1))\<rparr>,
      \<lparr>eh_name = ''debt-reassignment'', eh_eventTypes = [''MemberLeft''],
       eh_handle = (\<lambda>e d. if d < 5 then (Thrown GenericError, d) else (Ok (), d))\<rparr>]"

theorem outbox_drains_witness:
  "(\<exists>q' g'. polls list_add (\<lambda>g. g) 1 [100, 200] [] demo_outbox = (2, q', g')
     \<and> pending_rows g' = [] \<and> map fst q' = [''e1'', ''e2''])
   \<and> (\<exists>g'. polls list_add (rls_view None) 1 [100, 200] [] demo_outbox = (0, [], g') \<and> length (pending_rows g') = 2)"
proof -
  have pend: "pending_rows demo_outbox = [demo_event ''e2'' 20, demo_event ''e1'' 10]"
    by (simp add: pending_rows_def demo_outbox_def demo_event_def)
  then have kept: "length (pending_rows (demo_outbox\<lparr>clock := c\<rparr>)) = 2" for c by (simp add: pending_rows_def)
  have "distinct (map ev_id (outboxEvents demo_outbox))" by (simp add: demo_outbox_def demo_event_def)
  note d = outbox_drains [OF list_queue this, where q = "[]" and b = 1 and ts = "[100, 200]"]
  from d obtain q' g' where "polls list_add (\<lambda>g. g) 1 [100, 200] [] demo_outbox = (2, q', g')" "pending_rows g' = []"
      "q' = map (\<lambda>r. (ev_id r, envelope_of r)) (sort_key ev_occurredAt [demo_event ''e2'' 20, demo_event ''e1'' 10])"
    by (auto simp: pend)
  moreover from this(3) have "map fst q' = [''e1'', ''e2'']" by (simp add: demo_event_def)
  moreover from d obtain c where "polls list_add (rls_view None) 1 [100, 200] [] demo_outbox = (0, [], demo_outbox\<lparr>clock := c\<rparr>)"
    by (auto simp: pend)
  moreover note kept [of c]
  ultimately show ?thesis by metis
qed

theorem handlers_run_once_witness:
  "\<exists>xs r' d'. deliver list_set_nx list_del (register_all (map logged demo_handlers)) (envelope_of (demo_event ''e1'' 10))
       (map apsnd [\<lambda>d. d, \<lambda>d. d + 5]) [] ([], 0) = (xs, r', ([''audit'', ''debt-reassignment''], d'))
     \<and> map isOk xs = [False, True]"
proof -
  obtain xs r' lg d' where p: "deliver list_set_nx list_del (register_all (map logged demo_handlers))
      (envelope_of (demo_event ''e1'' 10)) (map apsnd [\<lambda>d. d, \<lambda>d. d + 5]) [] ([], 0) = (xs, r', (lg, d'))"
    by (metis prod_cases4)
  have names: "distinct (map eh_name demo_handlers)" "list_all (\<lambda>h. distinct (eh_eventTypes h)) demo_handlers"
    by (simp_all add: demo_handlers_def)
  have un: "map eh_name (unclaimed (set []) (envelope_of (demo_event ''e1'' 10))
      (filter (\<lambda>h. env_eventType (envelope_of (demo_event ''e1'' 10)) \<in> set (eh_eventTypes h)) demo_handlers))
    = [''audit'', ''debt-reassignment'']"
    by (simp add: demo_handlers_def envelope_of_def demo_event_def)
  have "map isOk xs = [False, True]"
    using p by (simp add: process_def register_all_def register_def handlersFor_def demo_handlers_def logged_def
        envelope_of_def demo_event_def list_set_nx_def list_del_def claim_key_def) auto
  moreover from this have "list_ex isOk xs" by (auto simp: list_ex_iff map_eq_Cons_conv)
  ultimately show ?thesis using handlers_run_once [OF list_redis names p] p un by auto
qed

end
