(* ===== verification/Cache.thy ===== *)
theory Cache
  imports Worker
begin

section \<open>The cache of derived values\<close>

text \<open>
  \<open>src/apps/api/src/common/cache\<close>: the keys of \<open>CacheService\<close>, its operations over
  Redis (an argument, as in \<open>Worker\<close>) and \<open>mapToKeys\<close>. Values are JSON:
  \<open>JSON.parse\<close> after \<open>JSON.stringify\<close> is the identity on them. The lemmas say which
  keys an invalidation removes.
\<close>

subsection \<open>Operations\<close>

record 'c redis_ops =
  r_get :: "string \<Rightarrow> 'c \<Rightarrow> json option"
  r_set :: "string \<Rightarrow> json \<Rightarrow> int \<Rightarrow> 'c \<Rightarrow> 'c"
  r_del :: "string \<Rightarrow> 'c \<Rightarrow> 'c"
  r_scan :: "string \<Rightarrow> 'c \<Rightarrow> string list list"

definition DERIVED_TTL_SECONDS :: int where
  "DERIVED_TTL_SECONDS = 30"

text \<open>An absent or empty period identifier gives the key of the profile.\<close>

definition cache_key :: "string \<Rightarrow> uuid \<Rightarrow> uuid option \<Rightarrow> string" where
  "cache_key tenantId profileId periodId =
     (case periodId of
        Some (c # cs) \<Rightarrow> tenantId @ '':'' @ profileId @ '':'' @ (c # cs)
      | _ \<Rightarrow> tenantId @ '':'' @ profileId)"

definition cache_get :: "'c redis_ops \<Rightarrow> string \<Rightarrow> 'c \<Rightarrow> json option" where
  "cache_get R k c = r_get R k c"

definition cache_set :: "'c redis_ops \<Rightarrow> string \<Rightarrow> json \<Rightarrow> int option \<Rightarrow> 'c \<Rightarrow> 'c" where
  "cache_set R k v ttl c = r_set R k v (case ttl of None \<Rightarrow> DERIVED_TTL_SECONDS | Some s \<Rightarrow> s) c"

definition cache_del :: "'c redis_ops \<Rightarrow> string \<Rightarrow> 'c \<Rightarrow> 'c" where
  "cache_del R k c = r_del R k c"

text \<open>
  The scan streams batches of keys while nothing is deleted yet; the deletions are queued and then
  run as one pipeline.
\<close>

definition deleteByPattern :: "'c redis_ops \<Rightarrow> string \<Rightarrow> 'c \<Rightarrow> 'c" where
  "deleteByPattern R pattern c = foldl (\<lambda>c k. r_del R k c) c (concat (r_scan R pattern c))"

definition invalidateProfile :: "'c redis_ops \<Rightarrow> string \<Rightarrow> uuid \<Rightarrow> 'c \<Rightarrow> 'c" where
  "invalidateProfile R tenantId profileId c = deleteByPattern R (tenantId @ '':'' @ profileId @ ''*'') c"

definition invalidatePeriod :: "'c redis_ops \<Rightarrow> string \<Rightarrow> uuid \<Rightarrow> uuid \<Rightarrow> 'c \<Rightarrow> 'c" where
  "invalidatePeriod R tenantId profileId periodId c = cache_del R (cache_key tenantId profileId (Some periodId)) c"

text \<open>\<open>mapToKeys\<close>: rows in the order of the requested keys; a later row of a key wins.\<close>

definition mapToKeys :: "'k list \<Rightarrow> 'v list \<Rightarrow> ('v \<Rightarrow> 'k) \<Rightarrow> 'v option list" where
  "mapToKeys ks rows keyOf =
     (let byKey = foldl (\<lambda>m row. m(keyOf row \<mapsto> row)) (\<lambda>_. None) rows in map byKey ks)"

subsection \<open>What an invalidation removes\<close>

text \<open>
  What Redis promises of keys: deleting removes one key, and a scan for a prefix without the
  characters that are special in a pattern lists exactly the keys with that prefix.
\<close>

definition plain_text :: "string \<Rightarrow> bool" where
  "plain_text s \<longleftrightarrow> list_all (\<lambda>c. c \<notin> set ''*?[]^'' \<and> c \<noteq> CHR 0x5C) s"

definition cache_contract :: "'c redis_ops \<Rightarrow> ('c \<Rightarrow> string set) \<Rightarrow> bool" where
  "cache_contract R keys \<longleftrightarrow>
     (\<forall>k c. keys (r_del R k c) = keys c - {k})
     \<and> (\<forall>k v ttl c. keys (r_set R k v ttl c) = insert k (keys c))
     \<and> (\<forall>p c. plain_text p \<longrightarrow> set (concat (r_scan R (p @ ''*'') c)) = {k \<in> keys c. prefix p k})"

lemma deleted_keys:
  assumes "cache_contract R keys"
  shows "keys (foldl (\<lambda>c k. r_del R k c) c ks) = keys c - set ks"
proof (induction ks arbitrary: c)
  case Nil
  then show ?case by simp
next
  case (Cons k ks)
  have "keys (r_del R k c) = keys c - {k}" using assms by (simp add: cache_contract_def)
  then show ?case using Cons [of "r_del R k c"] by auto
qed

lemma invalidateProfile_keys:
  assumes c: "cache_contract R keys" and "plain_text (t @ '':'' @ sp)"
  shows "keys (invalidateProfile R t sp c) = {k \<in> keys c. \<not> prefix (t @ '':'' @ sp) k}"
proof -
  have "set (concat (r_scan R ((t @ '':'' @ sp) @ ''*'') c)) = {k \<in> keys c. prefix (t @ '':'' @ sp) k}"
    using assms unfolding cache_contract_def by blast
  then show ?thesis unfolding invalidateProfile_def deleteByPattern_def deleted_keys [OF c] by auto
qed

lemma profile_keys_prefix: "prefix (t @ '':'' @ sp) (cache_key t sp per)"
  by (auto simp: cache_key_def split: option.splits list.splits)

lemma other_profile_keys:
  assumes "length sp' = length sp" and "sp' \<noteq> sp"
  shows "\<not> prefix (t @ '':'' @ sp) (cache_key t sp' per)"
proof -
  have np: "\<not> prefix sp (sp' @ rest)" for rest
    using assms by (auto simp: prefix_def append_eq_append_conv)
  show ?thesis using np np [of "[]"] by (auto simp: cache_key_def split: option.splits list.splits)
qed

lemma mapToKeys_spec:
  "mapToKeys ks rows keyOf = map (\<lambda>k. List.find (\<lambda>r. keyOf r = k) (rev rows)) ks"
proof -
  have "foldl (\<lambda>m row. m(keyOf row \<mapsto> row)) m rows k
      = (case List.find (\<lambda>r. keyOf r = k) (rev rows) of None \<Rightarrow> m k | Some r \<Rightarrow> Some r)" for m k
  proof (induction rows rule: rev_induct)
    case (snoc r rows)
    then show ?case by simp
  qed simp
  then show ?thesis by (auto simp: mapToKeys_def Let_def split: option.splits)
qed

subsection \<open>A concrete key-value store\<close>

definition list_cache :: "(string \<times> json) list redis_ops" where
  "list_cache = \<lparr>r_get = (\<lambda>k c. map_of c k),
     r_set = (\<lambda>k v ttl c. (k, v) # filter (\<lambda>e. fst e \<noteq> k) c),
     r_del = (\<lambda>k c. filter (\<lambda>e. fst e \<noteq> k) c),
     r_scan = (\<lambda>p c. [filter (\<lambda>k. prefix (butlast p) k) (map fst c)])\<rparr>"

lemma list_cache_contract: "cache_contract list_cache (\<lambda>c. fst ` set c)"
  by (auto simp: cache_contract_def list_cache_def butlast_append)

end
