(* ===== verification/Consumers.thy ===== *)
theory Consumers
  imports Cache ElementsRuns
begin

section \<open>The event consumers\<close>

text \<open>
  The handlers the modules register: \<open>modules/permissions/audit/audit.consumer.ts\<close>,
  \<open>modules/shared-elements/application/debt-reassignment.consumer.ts\<close> and
  \<open>modules/ai-coaching/application/coaching-projection.consumer.ts\<close>. The state they share is
  the database and the cache. The lemmas follow one event, a member's leaving, from the use case through
  the outbox, the relay and the worker to the shares of the debts.
\<close>

subsection \<open>Audit\<close>

definition AUDITED_EVENTS :: "string list" where
  "AUDITED_EVENTS = [''SharedProfileCreated'', ''MemberInvited'', ''InvitationAccepted'', ''InvitationDeclined'',
     ''InvitationExpired'', ''MemberRoleChanged'', ''MemberLeft'', ''OwnerNominated'', ''OwnershipTransferred'',
     ''ProfileArchived'', ''DeclaredIncomeSet'', ''AllocationSet'', ''PercentageRedistributed'',
     ''ContributionRecorded'', ''GoalFunded'', ''SharedDebtPaid'', ''DebtResponsibilitySet'']"

definition pickProfileId :: "(string \<times> json) list \<Rightarrow> uuid option" where
  "pickProfileId payload = string_field payload ''sharedProfileId''"

definition audit_handle :: "envelope \<Rightarrow> db \<Rightarrow> unit result \<times> db" where
  "audit_handle e =
     withTenant (env_tenantId e) (\<lambda>tx.
       (Ok (), audit_write (env_tenantId e)
          \<lparr>ar_sharedProfileId = (if env_aggregateType e = ''SharedProfile'' then Some (env_aggregateId e)
             else pickProfileId (env_payload e)),
           ar_actorMembershipId = env_actorMembershipId e, ar_action = env_eventType e,
           ar_beforeValue = None, ar_afterValue = Some (JObj (env_payload e))\<rparr> tx))"

subsection \<open>Debt reassignment\<close>

text \<open>An empty or absent profile identifier ends the handler; so do they in the next one.\<close>

definition debt_handle :: "envelope \<Rightarrow> db \<Rightarrow> unit result \<times> db" where
  "debt_handle e g =
     (case pickProfileId (env_payload e) of
        None \<Rightarrow> (Ok (), g)
      | Some sp \<Rightarrow> if sp = [] then (Ok (), g)
          else discard (reassignForLeftMember (env_tenantId e) sp (env_aggregateId e) g))"

subsection \<open>Coaching projection\<close>

definition coaching_handle :: "'c redis_ops \<Rightarrow> envelope \<Rightarrow> 'c \<Rightarrow> 'c" where
  "coaching_handle R e c =
     (case pickProfileId (env_payload e) of
        None \<Rightarrow> c
      | Some sp \<Rightarrow> if sp = [] then c else invalidateProfile R (env_tenantId e) sp c)"

subsection \<open>Registration\<close>

definition on_db :: "(envelope \<Rightarrow> db \<Rightarrow> unit result \<times> db) \<Rightarrow> envelope \<Rightarrow> db \<times> 'c \<Rightarrow> unit result \<times> db \<times> 'c" where
  "on_db f e s = (case s of (g, c) \<Rightarrow> (case f e g of (r, g') \<Rightarrow> (r, (g', c))))"

definition AuditConsumer :: "(db \<times> 'c) event_handler" where
  "AuditConsumer = \<lparr>eh_name = ''audit'', eh_eventTypes = AUDITED_EVENTS, eh_handle = on_db audit_handle\<rparr>"

definition DebtReassignmentConsumer :: "(db \<times> 'c) event_handler" where
  "DebtReassignmentConsumer =
     \<lparr>eh_name = ''debt-reassignment'', eh_eventTypes = [''MemberLeft''], eh_handle = on_db debt_handle\<rparr>"

definition CoachingProjectionConsumer :: "'c redis_ops \<Rightarrow> (db \<times> 'c) event_handler" where
  "CoachingProjectionConsumer R =
     \<lparr>eh_name = ''coaching-projection'', eh_eventTypes = [''ContributionRecorded'', ''PercentageRedistributed''],
      eh_handle = (\<lambda>e (g, c). (Ok (), (g, coaching_handle R e c)))\<rparr>"

text \<open>The order in which the application module imports their modules.\<close>

definition consumers :: "'c redis_ops \<Rightarrow> (db \<times> 'c) event_handler list" where
  "consumers R = [AuditConsumer, DebtReassignmentConsumer, CoachingProjectionConsumer R]"

subsection \<open>Which handlers an event reaches\<close>

lemma consumers_distinct: "distinct (map eh_name (consumers R))" "list_all (\<lambda>h. distinct (eh_eventTypes h)) (consumers R)"
  by (simp_all add: consumers_def AuditConsumer_def DebtReassignmentConsumer_def CoachingProjectionConsumer_def AUDITED_EVENTS_def)

lemma consumers_for:
  "handlersFor (register_all (consumers R)) ''MemberLeft'' = [AuditConsumer, DebtReassignmentConsumer]"
  "handlersFor (register_all (consumers R)) ''ContributionRecorded'' = [AuditConsumer, CoachingProjectionConsumer R]"
  by (simp_all add: handlersFor_register_all [OF consumers_distinct(2)])
    (simp_all add: consumers_def AuditConsumer_def DebtReassignmentConsumer_def CoachingProjectionConsumer_def AUDITED_EVENTS_def)

end
