(* ===== verification/Choreography.thy ===== *)
theory Choreography
  imports Consumers
begin

section \<open>A member leaves\<close>

text \<open>
  One event followed through the components: \<open>leaveProfile\<close> (\<open>Profiles\<close>) writes
  MemberLeft to the outbox, the relay (\<open>Worker\<close>) makes it an envelope, the worker hands the
  envelope to the consumers (\<open>Consumers\<close>), and the reassignment (\<open>SharedElements\<close>) moves
  the leaver's shares to the other responsible members.
\<close>

subsection \<open>The reassignment writes rows of its tenant only\<close>

lemma rows_used_id: "all_rows P (used_id g) = all_rows P g"
  by (simp add: all_rows_def)

lemma createResponsibilities_rows:
  "all_rows (\<lambda>u. u = t) g \<Longrightarrow> createResponsibilities t d ss g = (r, h) \<Longrightarrow> all_rows (\<lambda>u. u = t) h"
proof (induction ss arbitrary: g)
  case Nil
  then show ?case by simp
next
  case (Cons s ss)
  let ?g = "used_id (g\<lparr>debtResponsibilities := debtResponsibilities g @
      [\<lparr>resp_id = new_id g, resp_tenantId = t, resp_sharedDebtId = d, resp_membershipId = rs_membershipId s,
        resp_percentageBp = rs_percentageBp s, resp_version = 0\<rparr>]\<rparr>)"
  have "all_rows (\<lambda>u. u = t) ?g" using Cons.prems(1) by (simp add: all_rows_def)
  from Cons.IH [OF this] Cons.prems show ?case by (simp split: if_splits)
qed

lemma replace_rows:
  assumes "all_rows (\<lambda>u. u = t) g" and "replaceResponsibilities t d ss g = (r, h)"
  shows "all_rows (\<lambda>u. u = t) h"
proof -
  have "all_rows (\<lambda>u. u = t) (g\<lparr>debtResponsibilities := filter (\<lambda>r. resp_sharedDebtId r \<noteq> d) (debtResponsibilities g)\<rparr>)"
    using assms(1) by (auto simp: all_rows_def list_all_iff)
  then show ?thesis using assms(2) createResponsibilities_rows unfolding replaceResponsibilities_def by blast
qed

lemma reassign_rows:
  "all_rows (\<lambda>u. u = t) g \<Longrightarrow> reassign_loop t m ds k g = (r, h) \<Longrightarrow> all_rows (\<lambda>u. u = t) h"
proof (induction ds arbitrary: k g)
  case Nil
  then show ?case by simp
next
  case (Cons d ds)
  let ?ss = "shares_of_rows (listResponsibilities (debt_id d) g)"
  show ?case
  proof (cases "list_ex (\<lambda>s. rs_membershipId s = m) ?ss")
    case False
    with Cons.prems(2) have "reassign_loop t m ds k g = (r, h)" by (simp add: Let_def)
    with Cons show ?thesis by blast
  next
    case True
    obtain q g1 where rep: "replaceResponsibilities t (debt_id d) (case reassignOnLeave ?ss m of Ok v \<Rightarrow> v) g = (q, g1)"
      by fastforce
    note rows = replace_rows [OF Cons.prems(1) rep]
    show ?thesis
    proof (cases "reassignOnLeave ?ss m")
      case (Ok v)
      then have "then_do (q, g1) (\<lambda>_ g1. reassign_loop t m ds (k + 1) g1) = (r, h)"
        using Cons.prems(2) True rep by (simp add: Let_def)
      then show ?thesis using rows Cons.IH by (cases q) auto
    qed (use Cons.prems True in \<open>auto simp: Let_def\<close>)
  qed
qed

subsection \<open>The event of the use case\<close>

definition left_event :: "string \<Rightarrow> uuid \<Rightarrow> uuid \<Rightarrow> outbox_row \<Rightarrow> bool" where
  "left_event t sp i row \<longleftrightarrow> ev_eventType row = ''MemberLeft'' \<and> ev_aggregateType row = ''Membership''
     \<and> ev_aggregateId row = i \<and> ev_tenantId row = t \<and> ev_dispatchedAt row = None
     \<and> string_field (ev_payload row) ''sharedProfileId'' = Some sp
     \<and> string_field (ev_payload row) ''actorMembershipId'' = Some i"

lemma leave_tx_writes:
  assumes "transitionOwnMembership_tx p i ''MemberLeft'' ''MemberLeft'' leave g = (Ok m, h)"
  shows "\<exists>row. outboxEvents h = outboxEvents g @ [row] \<and> left_event (pr_tenantId p) (m_sharedProfileId m) i row
    \<and> m_id m = i \<and> m_status m = LEFT"
proof -
  from assms obtain m0 d where m0: "findMembershipById i g = Some m0" and d: "leave (toMembershipState m0) (clock g) = Ok d"
    and h: "outboxEvents h = outboxEvents g @ [outbox_row_of (new_id g) (clock g) (pr_tenantId p)
        \<lparr>ne_eventType = ''MemberLeft'', ne_aggregateType = ''Membership'', ne_aggregateId = i, ne_schemaVersion = None,
         ne_actorMembershipId = Some (m_id m0), ne_payload = (''sharedProfileId'', JStr (m_sharedProfileId m0)) # status_field d\<rparr>]"
    and m: "findMembershipById i h = Some m" and rows: "memberships h = memberships (applyDelta i d g)"
    unfolding transitionOwnMembership_tx_def Let_def
    by (auto simp: use_case_Ok applyDelta_def new_id_def split: if_splits)
  have id: "m_id m0 = i" using m0 found_member by blast
  have "List.find (\<lambda>a. m_id a = i) (update_where (\<lambda>a. m_id a = i) (delta_row d) (memberships g)) = Some (delta_row d m0)"
    using m0 by (simp add: find_update_where_same findMembershipById_def)
  then have m': "m = delta_row d m0" using m rows by (simp add: findMembershipById_def applyDelta_def)
  have "d_status d = Some LEFT" using d by (auto simp: leave_Ok)
  then show ?thesis using h id m'
    by (auto simp: left_event_def outbox_row_of_def string_field_def status_field_def delta_row_def jstr_or_null_def)
qed

lemma leave_writes_event:
  assumes "leaveProfile p i g = (Ok m, g1)"
  shows "\<exists>row. outboxEvents (tenant_view (pr_tenantId p) g1) = outboxEvents (tenant_view (pr_tenantId p) g) @ [row]
     \<and> left_event (pr_tenantId p) (m_sharedProfileId m) i row \<and> m_id m = i \<and> m_status m = LEFT"
  by (rule leave_tx_writes [where p = p]) (rule withTenant_Ok(1) [OF assms [unfolded leaveProfile_def]])

subsection \<open>The handlers commit\<close>

lemma withTenant_returns:
  assumes "t \<noteq> []" and "f (tenant_view t g) = (Ok v, h)" and "all_rows (\<lambda>u. u = t) h"
  shows "\<exists>g'. withTenant t f g = (Ok v, g') \<and> tenant_view t g' = h"
proof -
  have w: "withTenant t f g = (Ok v, overlay (project (\<lambda>u. u \<noteq> t) g) h)"
    using assms by (simp add: withTenant_def tenant_view_def)
  from view_after [OF w] assms(2) show ?thesis using w by auto
qed

lemma leave_needs_tenant: "leaveProfile p i g = (Ok m, g1) \<Longrightarrow> pr_tenantId p \<noteq> []"
  by (auto simp: leaveProfile_def withTenant_def)

lemma audit_rows: "all_rows (\<lambda>u. u = t) g \<Longrightarrow> all_rows (\<lambda>u. u = t) (audit_write t r g)"
  unfolding audit_write_def rows_used_id by (simp add: all_rows_def)

lemma audit_commits:
  assumes "env_tenantId e \<noteq> []"
  shows "\<exists>h. audit_handle e g = (Ok (), h) \<and> tenant_view (env_tenantId e) h
      = audit_write (env_tenantId e) \<lparr>ar_sharedProfileId = (if env_aggregateType e = ''SharedProfile'' then Some (env_aggregateId e)
             else pickProfileId (env_payload e)),
           ar_actorMembershipId = env_actorMembershipId e, ar_action = env_eventType e,
           ar_beforeValue = None, ar_afterValue = Some (JObj (env_payload e))\<rparr> (tenant_view (env_tenantId e) g)"
  unfolding audit_handle_def
  by (rule withTenant_returns [OF assms refl]) (rule audit_rows [OF tenant_rows_view])

lemma createResponsibilities_frame:
  "createResponsibilities t d ss g = (r, h) \<Longrightarrow> sharedDebts h = sharedDebts g \<and> auditEntries h = auditEntries g"
  by (induction ss arbitrary: g) (auto split: if_splits)

lemma replace_frame:
  "replaceResponsibilities t d ss g = (r, h) \<Longrightarrow> sharedDebts h = sharedDebts g \<and> auditEntries h = auditEntries g"
  unfolding replaceResponsibilities_def by (drule createResponsibilities_frame) simp

lemma reassign_frame:
  "reassign_loop t m ds k g = (r, h) \<Longrightarrow> sharedDebts h = sharedDebts g \<and> auditEntries h = auditEntries g"
proof (induction ds arbitrary: k g)
  case Nil
  then show ?case by simp
next
  case (Cons d ds)
  show ?case using Cons.prems
    by (auto simp: Let_def and_then_def then_do_def split: if_splits result.splits prod.splits
        dest!: Cons.IH replace_frame)
qed

text \<open>
  What a departure does to a debt: the others stay responsible, in their order, and carry all of it;
  a debt for which nobody else was responsible is left without anybody.
\<close>

definition passed_on :: "uuid \<Rightarrow> uuid \<Rightarrow> db \<Rightarrow> db \<Rightarrow> bool" where
  "passed_on leaver d g h \<longleftrightarrow>
     map rs_membershipId (debt_shares d h) = filter (\<lambda>i. i \<noteq> leaver) (map rs_membershipId (debt_shares d g))
     \<and> (if set (map rs_membershipId (debt_shares d g)) \<subseteq> {leaver} then debt_shares d h = []
        else share_sum (debt_shares d h) = 10000)"

lemma passed_onI:
  assumes "map rs_membershipId (debt_shares d h) = filter (\<lambda>i. i \<noteq> leaver) (map rs_membershipId (debt_shares d g))"
    and "debt_shares d h = [] \<or> share_sum (debt_shares d h) = 10000"
  shows "passed_on leaver d g h"
proof -
  have "debt_shares d h = [] \<longleftrightarrow> set (map rs_membershipId (debt_shares d g)) \<subseteq> {leaver}"
    using arg_cong [OF assms(1), of "\<lambda>xs. xs = []"] by (auto simp: filter_empty_conv)
  with assms show ?thesis by (auto simp: passed_on_def)
qed

lemma debt_commits:
  assumes "env_tenantId e \<noteq> []" and "pickProfileId (env_payload e) = Some sp" and "sp \<noteq> []"
    and ok: "elements_ok (tenant_view (env_tenantId e) g)"
  obtains h where "debt_handle e g = (Ok (), h)"
    and "auditEntries (tenant_view (env_tenantId e) h) = auditEntries (tenant_view (env_tenantId e) g)"
    and "debtsForProfile sp (tenant_view (env_tenantId e) h) = debtsForProfile sp (tenant_view (env_tenantId e) g)"
    and "list_all (\<lambda>d. passed_on (env_aggregateId e) (debt_id d) (tenant_view (env_tenantId e) g) (tenant_view (env_tenantId e) h))
      (debtsForProfile sp (tenant_view (env_tenantId e) g))"
proof -
  let ?t = "env_tenantId e" and ?m = "env_aggregateId e"
  obtain q k where tx: "reassignForLeftMember_tx ?t sp ?m (tenant_view ?t g) = (q, k)" by (meson surj_pair)
  note facts = reassign_facts [OF ok tx, THEN conjunct1] reassign_facts [OF ok tx, THEN conjunct2, THEN conjunct1]
  note loop = tx [unfolded reassignForLeftMember_tx_def]
  obtain n where n: "q = Ok n" using facts(1) by (cases q) simp_all
  have "all_rows (\<lambda>u. u = ?t) k" by (rule reassign_rows [OF tenant_rows_view loop])
  from withTenant_returns [where f = "reassignForLeftMember_tx ?t sp ?m" and g = g, OF assms(1) tx [unfolded n] this]
  obtain h where
    h: "reassignForLeftMember ?t sp ?m g = (Ok n, h)" "tenant_view ?t h = k"
    unfolding reassignForLeftMember_def by (elim exE conjE) simp
  have same: "debtsForProfile sp k = debtsForProfile sp (tenant_view ?t g)"
    using reassign_frame [OF loop] by (simp add: debtsForProfile_def)
  show thesis
  proof (rule that [of h])
    show "debt_handle e g = (Ok (), h)" using assms(2,3) h(1) by (simp add: debt_handle_def discard_def)
    show "auditEntries (tenant_view ?t h) = auditEntries (tenant_view ?t g)" using reassign_frame [OF loop] h(2) by simp
    show "debtsForProfile sp (tenant_view ?t h) = debtsForProfile sp (tenant_view ?t g)" unfolding h(2) by (rule same)
    show "list_all (\<lambda>d. passed_on ?m (debt_id d) (tenant_view ?t g) (tenant_view ?t h)) (debtsForProfile sp (tenant_view ?t g))"
      unfolding h(2) using facts(2) by (rule list.pred_mono_strong) (blast intro: passed_onI)
  qed
qed

subsection \<open>Properties\<close>



end
