(* ===== verification/RateLimit.thy ===== *)
theory RateLimit
  imports Errors
begin

section \<open>Rate limiting\<close>

text \<open>
  \<open>src/apps/api/src/common/throttling\<close>: the fixed-window limiter over Redis and the guard
  at the GraphQL boundary. Redis' INCR and EXPIRE are arguments; \<open>None\<close> is a rejected promise or
  the time-out of \<open>withTimeout\<close>, after which the increment may or may not have happened.
\<close>

subsection \<open>The limiter\<close>

record rate_limit_decision =
  rd_allowed :: bool
  rd_remaining :: int
  rd_retryAfterSeconds :: int

record rate_limit_rule =
  rl_bucket :: string
  rl_limit :: int
  rl_windowSeconds :: int

type_synonym 'r redis_incr = "string \<Rightarrow> 'r \<Rightarrow> int option \<times> 'r"
type_synonym 'r redis_expire = "string \<Rightarrow> int \<Rightarrow> 'r \<Rightarrow> unit option \<times> 'r"

definition incrementWithExpiry :: "'r redis_incr \<Rightarrow> 'r redis_expire \<Rightarrow> string \<Rightarrow> int \<Rightarrow> 'r \<Rightarrow> int option \<times> 'r" where
  "incrementWithExpiry incr expire key windowSeconds r =
     (case incr key r of
        (None, r1) \<Rightarrow> (None, r1)
      | (Some hits, r1) \<Rightarrow>
          if hits = 1 then (case expire key (windowSeconds + 1) r1 of
              (None, r2) \<Rightarrow> (None, r2) | (Some u, r2) \<Rightarrow> (Some hits, r2))
          else (Some hits, r1))"

definition nowSeconds :: "instant \<Rightarrow> int" where
  "nowSeconds now = now div 1000"

definition window_of :: "rate_limit_rule \<Rightarrow> instant \<Rightarrow> int" where
  "window_of rule now = nowSeconds now div rl_windowSeconds rule"

definition window_key :: "rate_limit_rule \<Rightarrow> string \<Rightarrow> int \<Rightarrow> string" where
  "window_key rule principalKey window =
     ''rl:'' @ rl_bucket rule @ '':'' @ principalKey @ '':'' @ show_int window"

definition rate_check :: "'r redis_incr \<Rightarrow> 'r redis_expire \<Rightarrow> rate_limit_rule \<Rightarrow> string \<Rightarrow> instant \<Rightarrow> 'r
    \<Rightarrow> rate_limit_decision \<times> 'r" where
  "rate_check incr expire rule principalKey now r =
     (let window = window_of rule now;
          key = window_key rule principalKey window;
          retry = (window + 1) * rl_windowSeconds rule - nowSeconds now
      in case incrementWithExpiry incr expire key (rl_windowSeconds rule) r of
           (Some hits, r1) \<Rightarrow>
             (if rl_limit rule < hits then \<lparr>rd_allowed = False, rd_remaining = 0, rd_retryAfterSeconds = retry\<rparr>
              else \<lparr>rd_allowed = True, rd_remaining = rl_limit rule - hits, rd_retryAfterSeconds = retry\<rparr>, r1)
         | (None, r1) \<Rightarrow> (\<lparr>rd_allowed = True, rd_remaining = rl_limit rule, rd_retryAfterSeconds = retry\<rparr>, r1))"

subsection \<open>The guard\<close>

text \<open>The value of \<open>Number(raw)\<close> for a set, non-empty variable; the fallback otherwise.\<close>

definition intFromEnv :: "js_number option \<Rightarrow> int \<Rightarrow> int" where
  "intFromEnv parsed fallback =
     (case parsed of Some (IntegerNum n) \<Rightarrow> if 0 < n then n else fallback | _ \<Rightarrow> fallback)"

definition mutationRule :: "js_number option \<Rightarrow> rate_limit_rule" where
  "mutationRule env = \<lparr>rl_bucket = ''mutation'', rl_limit = intFromEnv env 120, rl_windowSeconds = 60\<rparr>"

definition coachingRule :: "js_number option \<Rightarrow> rate_limit_rule" where
  "coachingRule env = \<lparr>rl_bucket = ''coaching'', rl_limit = intFromEnv env 10, rl_windowSeconds = 60\<rparr>"

definition COACHING_FIELD :: string where
  "COACHING_FIELD = ''coachingInsights''"

text \<open>\<open>info\<close>: the names of the parent type and of the field, when there is one.\<close>

definition ruleFor :: "rate_limit_rule \<Rightarrow> rate_limit_rule \<Rightarrow> (string \<times> string) option \<Rightarrow> rate_limit_rule option" where
  "ruleFor mutation coaching info =
     (case info of
        None \<Rightarrow> None
      | Some (parentType, fieldName) \<Rightarrow>
          if parentType = ''Mutation'' then Some mutation
          else if parentType = ''Query'' \<and> fieldName = COACHING_FIELD then Some coaching
          else None)"

text \<open>
  The principal as the guard names it, and the guard: \<open>Inl\<close> the error extensions it throws,
  \<open>Inr\<close> that the request may proceed.
\<close>

definition principal_key :: "(string \<times> uuid) option \<Rightarrow> string" where
  "principal_key p = (case p of None \<Rightarrow> ''anonymous'' | Some (tenantId, userId) \<Rightarrow> tenantId @ '':'' @ userId)"

definition rate_guard :: "'r redis_incr \<Rightarrow> 'r redis_expire \<Rightarrow> rate_limit_rule \<Rightarrow> rate_limit_rule \<Rightarrow> bool
    \<Rightarrow> (string \<times> string) option \<Rightarrow> (string \<times> uuid) option \<Rightarrow> instant \<Rightarrow> 'r \<Rightarrow> (gql_error + bool) \<times> 'r" where
  "rate_guard incr expire mutation coaching isGraphql info caller now r =
     (if \<not> isGraphql then (Inr True, r)
      else case ruleFor mutation coaching info of
        None \<Rightarrow> (Inr True, r)
      | Some rule \<Rightarrow>
          (case rate_check incr expire rule (principal_key caller) now r of
             (decision, r1) \<Rightarrow>
               if \<not> rd_allowed decision
               then (Inl \<lparr>gql_extension_code = TransportCode RATE_LIMITED,
                       gql_extension_details = Some [(''retryAfterSeconds'', JNum (rd_retryAfterSeconds decision)),
                         (''bucket'', JStr (rl_bucket rule))]\<rparr>, r1)
               else (Inr True, r1)))"

subsection \<open>The promise of the counters\<close>

text \<open>
  What Redis documents, while a key lives: INCR answers one more than the counter (0 when absent), which
  it stores, and EXPIRE leaves counters alone. The first hit of a window sets an expiry one second
  after the length of the window, so a key lives as long as its window does. The contract speaks of that
  span only: EXPIRE has no effect in it whatever its number of seconds is, so a time to live that is too
  short would not be noticed here.
\<close>

definition counter_contract :: "'r redis_incr \<Rightarrow> 'r redis_expire \<Rightarrow> ('r \<Rightarrow> string \<Rightarrow> int) \<Rightarrow> bool" where
  "counter_contract incr expire counter \<longleftrightarrow>
     (\<forall>k r. \<exists>r'. incr k r = (Some (counter r k + 1), r') \<and> counter r' = (counter r)(k := counter r k + 1))
     \<and> (\<forall>k ttl r. \<exists>r'. expire k ttl r = (Some (), r') \<and> counter r' = counter r)"

lemma increment_counts:
  assumes "counter_contract incr expire counter"
  obtains r' where "incrementWithExpiry incr expire k w r = (Some (counter r k + 1), r')"
    and "counter r' = (counter r)(k := counter r k + 1)"
proof -
  obtain r1 where r1: "incr k r = (Some (counter r k + 1), r1)" "counter r1 = (counter r)(k := counter r k + 1)"
    using assms unfolding counter_contract_def by blast
  obtain r2 where r2: "expire k (w + 1) r1 = (Some (), r2)" "counter r2 = counter r1"
    using assms unfolding counter_contract_def by blast
  show thesis
    by (rule that [of "if counter r k + 1 = 1 then r2 else r1"]) (use r1 r2 in \<open>simp_all add: incrementWithExpiry_def\<close>)
qed

lemma show_int_inj: "show_int a = show_int b \<longleftrightarrow> a = b"
  by (metis option.inject parse_show_int)

lemma window_key_inj: "window_key rule p a = window_key rule p b \<longleftrightarrow> a = b"
  by (simp add: window_key_def show_int_inj)

lemma rate_check_counts:
  assumes "counter_contract incr expire counter"
  obtains d r' where "rate_check incr expire rule p now r = (d, r')"
    and "rd_allowed d \<longleftrightarrow> counter r (window_key rule p (window_of rule now)) < rl_limit rule"
    and "rd_remaining d = max 0 (rl_limit rule - counter r (window_key rule p (window_of rule now)) - 1)"
    and "rd_retryAfterSeconds d = (window_of rule now + 1) * rl_windowSeconds rule - nowSeconds now"
    and "counter r' = (counter r)(window_key rule p (window_of rule now) := counter r (window_key rule p (window_of rule now)) + 1)"
proof -
  let ?k = "window_key rule p (window_of rule now)"
  obtain r' where r': "incrementWithExpiry incr expire ?k (rl_windowSeconds rule) r = (Some (counter r ?k + 1), r')"
    "counter r' = (counter r)(?k := counter r ?k + 1)" by (rule increment_counts [OF assms])
  show thesis
    by (rule that [of "fst (rate_check incr expire rule p now r)" r'])
      (simp_all add: rate_check_def Let_def r')
qed

text \<open>The requests of one principal under one rule, at the given times.\<close>

fun rate_checks :: "'r redis_incr \<Rightarrow> 'r redis_expire \<Rightarrow> rate_limit_rule \<Rightarrow> string \<Rightarrow> instant list \<Rightarrow> 'r
    \<Rightarrow> rate_limit_decision list \<times> 'r" where
  "rate_checks incr expire rule p [] r = ([], r)"
| "rate_checks incr expire rule p (t # ts) r =
     (case rate_check incr expire rule p t r of (d, r1) \<Rightarrow>
      case rate_checks incr expire rule p ts r1 of (ds, r2) \<Rightarrow> (d # ds, r2))"

definition allowed_in :: "rate_limit_rule \<Rightarrow> int \<Rightarrow> instant list \<Rightarrow> rate_limit_decision list \<Rightarrow> int" where
  "allowed_in rule w ts ds = int (length (filter (\<lambda>(t, d). window_of rule t = w \<and> rd_allowed d) (zip ts ds)))"

definition requests_in :: "rate_limit_rule \<Rightarrow> int \<Rightarrow> instant list \<Rightarrow> int" where
  "requests_in rule w ts = int (length (filter (\<lambda>t. window_of rule t = w) ts))"

lemma rate_checks_count:
  assumes "counter_contract incr expire counter" and "rate_checks incr expire rule p ts r = (ds, r')"
  shows "allowed_in rule w ts ds = min (requests_in rule w ts) (max 0 (rl_limit rule - counter r (window_key rule p w)))
    \<and> length ds = length ts"
  using assms(2)
proof (induction ts arbitrary: r ds)
  case Nil
  then show ?case by (simp add: allowed_in_def requests_in_def)
next
  case (Cons t ts)
  let ?k = "window_key rule p (window_of rule t)"
  obtain d r1 where d: "rate_check incr expire rule p t r = (d, r1)"
    "rd_allowed d \<longleftrightarrow> counter r ?k < rl_limit rule" "counter r1 = (counter r)(?k := counter r ?k + 1)"
    by (rule rate_check_counts [OF assms(1)])
  obtain es where es: "rate_checks incr expire rule p ts r1 = (es, r')" "ds = d # es"
    using Cons.prems d(1) by (auto split: prod.splits)
  note ih = Cons.IH [OF es(1)]
  show ?case
  proof (cases "window_of rule t = w")
    case True
    then have "counter r1 (window_key rule p w) = counter r (window_key rule p w) + 1" using d(3) by simp
    with ih True d(2) show ?thesis by (auto simp: allowed_in_def requests_in_def es(2))
  next
    case False
    then have "counter r1 (window_key rule p w) = counter r (window_key rule p w)" using d(3) by (simp add: window_key_inj)
    with ih False show ?thesis by (simp add: allowed_in_def requests_in_def es(2))
  qed
qed

lemma fails_open:
  assumes "fst (incr (window_key rule p (window_of rule now)) r) = None"
  shows "rd_allowed (fst (rate_check incr expire rule p now r))"
  using assms by (simp add: rate_check_def Let_def incrementWithExpiry_def case_prod_unfold split: option.splits)

lemma retry_bounds:
  assumes "0 < rl_windowSeconds rule"
  shows "0 < (window_of rule now + 1) * rl_windowSeconds rule - nowSeconds now"
    and "(window_of rule now + 1) * rl_windowSeconds rule - nowSeconds now \<le> rl_windowSeconds rule"
proof -
  let ?n = "nowSeconds now" and ?w = "window_of rule now" and ?W = "rl_windowSeconds rule"
  have "?n = ?w * ?W + ?n mod ?W" by (simp add: window_of_def)
  moreover have "(?w + 1) * ?W = ?w * ?W + ?W" by (simp add: distrib_right)
  moreover have "0 \<le> ?n mod ?W" "?n mod ?W < ?W" using assms by simp_all
  ultimately show "0 < (?w + 1) * ?W - ?n" and "(?w + 1) * ?W - ?n \<le> ?W" by linarith+
qed

subsection \<open>Properties\<close>

text \<open>
  C22: the limit of a window. If the counters keep their promise and start at 0, then over any sequence of
  requests of a principal, at any times, exactly as many requests of each window are allowed as there
  are, but at most the limit; and whatever Redis does, the decision on each request advises to wait for
  more than no time and at most one window, and a failing counter lets the request pass.
\<close>

theorem rate_limit_holds:
  assumes "counter_contract incr expire counter" and "counter r (window_key rule p w) = 0"
    and "0 \<le> rl_limit rule" and "0 < rl_windowSeconds rule" and "rate_checks incr expire rule p ts r = (ds, r')"
  shows "allowed_in rule w ts ds = min (requests_in rule w ts) (rl_limit rule)
    \<and> 0 < rd_retryAfterSeconds (fst (rate_check incr' expire' rule p now r''))
    \<and> rd_retryAfterSeconds (fst (rate_check incr' expire' rule p now r'')) \<le> rl_windowSeconds rule
    \<and> (fst (incr' (window_key rule p (window_of rule now)) r'') = None
        \<longrightarrow> rd_allowed (fst (rate_check incr' expire' rule p now r'')))"
proof -
  have "rd_retryAfterSeconds (fst (rate_check incr' expire' rule p now r''))
      = (window_of rule now + 1) * rl_windowSeconds rule - nowSeconds now"
    by (auto simp: rate_check_def Let_def split: option.splits prod.splits)
  then show ?thesis
    using rate_checks_count [OF assms(1,5), of w] assms(2,3) retry_bounds [OF assms(4), of now]
      fails_open [of incr' rule p now r'' expire'] by simp
qed

text \<open>Counters as a function.\<close>

definition map_incr :: "(string \<Rightarrow> int) redis_incr" where
  "map_incr k r = (Some (r k + 1), r(k := r k + 1))"

definition map_expire :: "(string \<Rightarrow> int) redis_expire" where
  "map_expire k ttl r = (Some (), r)"

lemma map_counters: "counter_contract map_incr map_expire (\<lambda>r. r)"
  by (simp add: counter_contract_def map_incr_def map_expire_def)

theorem rate_limit_holds_witness:
  "allowed_in (coachingRule (Some (IntegerNum 2))) 0 [0, 59999, 1000, 60000]
     (fst (rate_checks map_incr map_expire (coachingRule (Some (IntegerNum 2))) ''t:u'' [0, 59999, 1000, 60000] (\<lambda>_. 0))) = 2"
proof -
  obtain ds r' where d: "rate_checks map_incr map_expire (coachingRule (Some (IntegerNum 2))) ''t:u'' [0, 59999, 1000, 60000] (\<lambda>_. 0) = (ds, r')"
    by (meson surj_pair)
  from rate_limit_holds [OF map_counters _ _ _ d, of 0, THEN conjunct1]
  have "allowed_in (coachingRule (Some (IntegerNum 2))) 0 [0, 59999, 1000, 60000] ds = 2"
    by (simp add: coachingRule_def intFromEnv_def requests_in_def window_of_def nowSeconds_def)
  then show ?thesis unfolding d by simp
qed

end
