(* ===== verification/Pagination.thy ===== *)
theory Pagination
  imports Prelude
begin

section \<open>Cursor pagination\<close>

text \<open>
  \<open>src/apps/api/src/common/graphql/pagination.ts\<close>: opaque cursors, the page size, and the two
  ways to take a page. \<open>Buffer\<close>'s base64url codec is written out over the bytes of a string; its
  decoder skips characters of no base64 alphabet. Texts are UTF-8 bytes, so the conversion between
  bytes and text is the identity on identifiers (a decoded cursor that is not valid UTF-8 equals no
  identifier either way).
\<close>

subsection \<open>The codec\<close>

definition b64_alphabet :: string where
  "b64_alphabet = ''ABCDEFGHIJKLMNOPQRSTUVWXYZabcdefghijklmnopqrstuvwxyz0123456789-_''"

fun b64_groups :: "nat list \<Rightarrow> nat list" where
  "b64_groups (a # b # c # r) =
     a div 4 # (a mod 4 * 16 + b div 16) # (b mod 16 * 4 + c div 64) # c mod 64 # b64_groups r"
| "b64_groups [a, b] = [a div 4, a mod 4 * 16 + b div 16, b mod 16 * 4]"
| "b64_groups [a] = [a div 4, a mod 4 * 16]"
| "b64_groups [] = []"

fun b64_bytes :: "nat list \<Rightarrow> nat list" where
  "b64_bytes (a # b # c # d # r) =
     (a * 4 + b div 16) # (b mod 16 * 16 + c div 4) # (c mod 4 * 64 + d) # b64_bytes r"
| "b64_bytes [a, b, c] = [a * 4 + b div 16, b mod 16 * 16 + c div 4]"
| "b64_bytes [a, b] = [a * 4 + b div 16]"
| "b64_bytes [a] = []"
| "b64_bytes [] = []"

text \<open>The value of a character, \<open>+\<close> and \<open>/\<close> of the other alphabet included.\<close>

definition b64_value :: "char \<Rightarrow> nat option" where
  "b64_value c =
     (let n = (of_char c :: nat) in
      if 65 \<le> n \<and> n \<le> 90 then Some (n - 65)
      else if 97 \<le> n \<and> n \<le> 122 then Some (n - 71)
      else if 48 \<le> n \<and> n \<le> 57 then Some (n + 4)
      else if n = 45 \<or> n = 43 then Some 62
      else if n = 95 \<or> n = 47 then Some 63
      else None)"

definition encodeCursor :: "uuid \<Rightarrow> string" where
  "encodeCursor i = map (\<lambda>n. b64_alphabet ! n) (b64_groups (map of_char i))"

definition decodeCursor :: "string option \<Rightarrow> uuid option" where
  "decodeCursor cursor =
     (case cursor of
        None \<Rightarrow> None
      | Some c \<Rightarrow>
          if c = [] then None
          else let i = map char_of (b64_bytes (List.map_filter b64_value c))
               in if 0 < length i then Some i else None)"

subsection \<open>Pages\<close>

definition DEFAULT_PAGE_SIZE :: int where
  "DEFAULT_PAGE_SIZE = 50"

definition MAX_PAGE_SIZE :: int where
  "MAX_PAGE_SIZE = 100"

record page_args =
  pg_first :: "js_number option"
  pg_after :: "string option"

definition clampPageSize :: "js_number option \<Rightarrow> int" where
  "clampPageSize requested =
     (case requested of
        Some (IntegerNum n) \<Rightarrow> if n < 1 then DEFAULT_PAGE_SIZE else min n MAX_PAGE_SIZE
      | _ \<Rightarrow> DEFAULT_PAGE_SIZE)"

text \<open>\<open>findIndex\<close>, -1 when there is none.\<close>

fun findIndex :: "('a \<Rightarrow> bool) \<Rightarrow> 'a list \<Rightarrow> int" where
  "findIndex p [] = -1"
| "findIndex p (x # xs) = (if p x then 0 else let i = findIndex p xs in if i = -1 then -1 else i + 1)"

definition pageSlice :: "('a \<Rightarrow> uuid) \<Rightarrow> 'a list \<Rightarrow> page_args \<Rightarrow> 'a list" where
  "pageSlice key items args =
     (let start = (case decodeCursor (pg_after args) of
            None \<Rightarrow> 0 | Some afterId \<Rightarrow> findIndex (\<lambda>i. key i = afterId) items + 1)
      in take (nat (clampPageSize (pg_first args))) (drop (nat start) items))"

text \<open>The arguments for the database, and what \<open>findMany\<close> does with them on ordered rows.\<close>

record prisma_page =
  page_take :: int
  page_cursor :: "uuid option"

definition prismaPage :: "page_args \<Rightarrow> prisma_page" where
  "prismaPage args = \<lparr>page_take = clampPageSize (pg_first args), page_cursor = decodeCursor (pg_after args)\<rparr>"

definition findPage :: "('a \<Rightarrow> uuid) \<Rightarrow> prisma_page \<Rightarrow> 'a list \<Rightarrow> 'a list" where
  "findPage key page rows =
     (case page_cursor page of
        None \<Rightarrow> take (nat (page_take page)) rows
      | Some c \<Rightarrow> take (nat (page_take page)) (drop 1 (dropWhile (\<lambda>r. key r \<noteq> c) rows)))"

subsection \<open>Cursors round-trip\<close>

lemma packed: "(y :: nat) < k \<Longrightarrow> (x * k + y) div k = x" "(y :: nat) < k \<Longrightarrow> (x * k + y) mod k = y"
  by simp_all

lemma parts_small:
  fixes a b c :: nat
  assumes "a < 256" and "b < 256" and "c < 256"
  shows "a div 4 < 64" and "b div 16 < 16" and "c div 64 < 4" and "a mod 4 * 16 + b div 16 < 64"
    and "b mod 16 * 4 + c div 64 < 64"
proof -
  show b: "b div 16 < 16" and c: "c div 64 < 4" and "a div 4 < 64"
    using assms by (auto intro!: less_mult_imp_div_less)
  have "a mod 4 \<le> 3" "b mod 16 \<le> 15" using pos_mod_bound less_Suc_eq_le by auto
  then show "a mod 4 * 16 + b div 16 < 64" and "b mod 16 * 4 + c div 64 < 64" using b c by linarith+
qed

lemma groups_bytes: "list_all (\<lambda>n. n < 256) bs \<Longrightarrow> b64_bytes (b64_groups bs) = bs"
proof (induction bs rule: b64_groups.induct)
  case (1 a b c r)
  then have "a < 256" "b < 256" "c < 256" by simp_all
  note p = parts_small [OF this]
  from 1 show ?case by (simp add: packed [OF p(2)] packed [OF p(3)] mod_less [OF p(2)] mod_less [OF p(3)])
next
  case (2 a b)
  then have "a < 256" "b < 256" "b < 256" by simp_all
  note p = parts_small [OF this]
  show ?case by (simp add: packed [OF p(2)] mod_less [OF p(2)])
qed simp_all

lemma groups_small: "list_all (\<lambda>n. n < 256) bs \<Longrightarrow> n \<in> set (b64_groups bs) \<Longrightarrow> n < 64"
proof (induction bs rule: b64_groups.induct)
  case (1 a b c r)
  then have "a < 256" "b < 256" "c < 256" by simp_all
  from parts_small [OF this] 1 show ?case by auto
next
  case (2 a b)
  then have "a < 256" "b < 256" "0 < (256::nat)" by simp_all
  from parts_small [OF this] 2 show ?case by auto
next
  case (3 a)
  then have "a < 256" "0 < (256::nat)" "0 < (256::nat)" by simp_all
  from parts_small [OF this] 3 show ?case by auto
qed simp

lemma alphabet_value: "n < 64 \<Longrightarrow> b64_value (b64_alphabet ! n) = Some n"
proof -
  assume n: "n < 64"
  have "map b64_value b64_alphabet = map Some [0..<64]"
    by (simp add: b64_alphabet_def b64_value_def upt_rec)
  moreover have "length b64_alphabet = 64" by (simp add: b64_alphabet_def)
  ultimately show ?thesis using n nth_map [of n b64_alphabet b64_value] by simp
qed

lemma decode_encode: "decodeCursor (Some (encodeCursor i)) = (if i = [] then None else Some i)"
proof -
  let ?bs = "map of_char i :: nat list"
  have small: "list_all (\<lambda>n. n < 256) ?bs" by (simp add: list_all_iff)
  have "List.map_filter b64_value (map (\<lambda>n. b64_alphabet ! n) ns) = ns" if "list_all (\<lambda>n. n < 64) ns" for ns
    using that by (induction ns) (simp_all add: alphabet_value List.map_filter_simps)
  moreover have "list_all (\<lambda>n. n < 64) (b64_groups ?bs)" using groups_small [OF small] by (simp add: list_all_iff)
  ultimately have "map char_of (b64_bytes (List.map_filter b64_value (encodeCursor i))) = i"
    using groups_bytes [OF small] by (simp add: encodeCursor_def comp_def)
  moreover have "encodeCursor i = [] \<longleftrightarrow> i = []"
    by (cases "?bs" rule: b64_groups.cases) (auto simp: encodeCursor_def)
  ultimately show ?thesis by (simp add: decodeCursor_def Let_def)
qed

subsection \<open>Walking the pages\<close>

text \<open>
  A client that asks page after page, each after the last item of the one before, until a page is
  empty. The fuel bounds the number of requests; \<open>None\<close> when it runs out.
\<close>

fun walk :: "('a \<Rightarrow> uuid) \<Rightarrow> (page_args \<Rightarrow> 'a list) \<Rightarrow> js_number option \<Rightarrow> nat \<Rightarrow> string option \<Rightarrow> 'a list list option" where
  "walk key request wanted 0 after = None"
| "walk key request wanted (Suc n) after =
     (let page = request \<lparr>pg_first = wanted, pg_after = after\<rparr> in
      if page = [] then Some []
      else map_option ((#) page) (walk key request wanted n (Some (encodeCursor (key (last page))))))"

lemma clamp_bounds: "1 \<le> clampPageSize f" "clampPageSize f \<le> 100"
  by (auto simp: clampPageSize_def DEFAULT_PAGE_SIZE_def MAX_PAGE_SIZE_def split: option.splits js_number.splits)

lemma findIndex_at: "key x \<notin> key ` set xs \<Longrightarrow> findIndex (\<lambda>i. key i = key x) (xs @ x # ys) = int (length xs)"
  by (induction xs) (auto simp: image_iff Let_def)

definition pages_after :: "('a \<Rightarrow> uuid) \<Rightarrow> (page_args \<Rightarrow> 'a list) \<Rightarrow> 'a list \<Rightarrow> bool" where
  "pages_after key request items \<longleftrightarrow>
     (\<forall>f. request \<lparr>pg_first = f, pg_after = None\<rparr> = take (nat (clampPageSize f)) items)
     \<and> (\<forall>f xs x ys. items = xs @ x # ys \<longrightarrow>
          request \<lparr>pg_first = f, pg_after = Some (encodeCursor (key x))\<rparr> = take (nat (clampPageSize f)) ys)"

lemma pageSlice_pages:
  assumes "distinct (map key items)" and "[] \<notin> key ` set items"
  shows "pages_after key (pageSlice key items) items"
proof -
  have "pageSlice key items \<lparr>pg_first = f, pg_after = Some (encodeCursor (key x))\<rparr> = take (nat (clampPageSize f)) ys"
    if s: "items = xs @ x # ys" for f xs x ys
  proof -
    have "key x \<noteq> []" using assms(2) s by (metis image_eqI in_set_conv_decomp)
    moreover have "key x \<notin> key ` set xs" using assms(1) s by auto
    ultimately show ?thesis
      using findIndex_at [of key x xs ys] by (simp add: pageSlice_def decode_encode s nat_add_distrib)
  qed
  moreover have "pageSlice key items \<lparr>pg_first = f, pg_after = None\<rparr> = take (nat (clampPageSize f)) items" for f
    by (simp add: pageSlice_def decodeCursor_def)
  ultimately show ?thesis unfolding pages_after_def by blast
qed

lemma findPage_pages:
  assumes "distinct (map key items)" and "[] \<notin> key ` set items"
  shows "pages_after key (\<lambda>args. findPage key (prismaPage args) items) items"
proof -
  have "findPage key (prismaPage \<lparr>pg_first = f, pg_after = Some (encodeCursor (key x))\<rparr>) items = take (nat (clampPageSize f)) ys"
    if s: "items = xs @ x # ys" for f xs x ys
  proof -
    have "key x \<noteq> []" using assms(2) s by (metis image_eqI in_set_conv_decomp)
    moreover have "key y \<noteq> key x" if "y \<in> set xs" for y using assms(1) that unfolding s by (auto simp: image_iff)
    ultimately show ?thesis
      by (simp add: findPage_def prismaPage_def decode_encode s dropWhile_append2)
  qed
  moreover have "findPage key (prismaPage \<lparr>pg_first = f, pg_after = None\<rparr>) items = take (nat (clampPageSize f)) items" for f
    by (simp add: findPage_def prismaPage_def decodeCursor_def)
  ultimately show ?thesis unfolding pages_after_def by blast
qed

text \<open>From any item on, enough requests return the rest in pages of the page size.\<close>

lemma walk_from:
  assumes p: "pages_after key request items"
    and "items = xs @ ys" and "xs = [] \<Longrightarrow> after = None"
    and "\<And>us x. xs = us @ [x] \<Longrightarrow> after = Some (encodeCursor (key x))" and "length ys < n"
  shows "\<exists>pages. walk key request f n after = Some pages \<and> concat pages = ys
    \<and> list_all (\<lambda>page. page \<noteq> [] \<and> length page \<le> nat (clampPageSize f)) pages"
  using assms(2-)
proof (induction n arbitrary: xs ys after)
  case 0
  then show ?case by simp
next
  case (Suc n)
  let ?k = "nat (clampPageSize f)"
  have k: "0 < ?k" using clamp_bounds(1) [of f] by simp
  have page: "request \<lparr>pg_first = f, pg_after = after\<rparr> = take ?k ys"
  proof (cases xs rule: rev_cases)
    case Nil
    then show ?thesis using p Suc.prems(1,2) by (simp add: pages_after_def)
  next
    case (snoc us x)
    have "items = us @ x # ys" using Suc.prems(1) snoc by simp
    then show ?thesis using p Suc.prems(3) [OF snoc] unfolding pages_after_def by blast
  qed
  show ?case
  proof (cases "ys = []")
    case True
    then show ?thesis by (intro exI [of _ "[]"]) (simp add: page)
  next
    case False
    then have ne: "take ?k ys \<noteq> []" using k by simp
    then obtain us x where t: "take ?k ys = us @ [x]" using rev_exhaust by blast
    have "\<exists>pages. walk key request f n (Some (encodeCursor (key x))) = Some pages \<and> concat pages = drop ?k ys
      \<and> list_all (\<lambda>page. page \<noteq> [] \<and> length page \<le> ?k) pages"
    proof (rule Suc.IH [of "(xs @ us) @ [x]"])
      show "items = ((xs @ us) @ [x]) @ drop ?k ys"
        using Suc.prems(1) t append_take_drop_id [of ?k ys] by (metis append_assoc)
      show "length (drop ?k ys) < n" using Suc.prems(4) False k by (cases ys) auto
    qed auto
    then obtain pages where pages: "walk key request f n (Some (encodeCursor (key x))) = Some pages"
      "concat pages = drop ?k ys" "list_all (\<lambda>page. page \<noteq> [] \<and> length page \<le> ?k) pages" by blast
    moreover have "last (take ?k ys) = x" using t by simp
    ultimately have "walk key request f (Suc n) after = Some (take ?k ys # pages)" using ne by (simp add: page Let_def)
    then show ?thesis using pages(2,3) ne by (intro exI [of _ "take ?k ys # pages"]) simp
  qed
qed

subsection \<open>Properties\<close>

text \<open>
  C24: walking the pages ends and covers the list. For items with distinct, non-empty identifiers and any
  requested page size, a client that follows the cursors needs at most one request more than there are
  items; the pages it gets are the list, each item once and in order, none of them empty and none
  longer than 100. This holds of the pages of a list in memory and of those taken by the database.
\<close>

theorem pages_cover:
  assumes "distinct (map key items)" and "[] \<notin> key ` set items"
    and "request = pageSlice key items \<or> request = (\<lambda>args. findPage key (prismaPage args) items)"
  shows "\<exists>pages. walk key request f (Suc (length items)) None = Some pages \<and> concat pages = items
    \<and> list_all (\<lambda>page. page \<noteq> [] \<and> length page \<le> 100) pages"
proof -
  have "pages_after key request items" using assms pageSlice_pages findPage_pages by blast
  from walk_from [OF this, of "[]" items None "Suc (length items)" f]
  obtain pages where p: "walk key request f (Suc (length items)) None = Some pages" "concat pages = items"
    "list_all (\<lambda>page. page \<noteq> [] \<and> length page \<le> nat (clampPageSize f)) pages" by auto
  have "nat (clampPageSize f) \<le> 100" using clamp_bounds(2) [of f] by simp
  then have "list_all (\<lambda>page. page \<noteq> [] \<and> length page \<le> 100) pages" using p(3) by (auto simp: list_all_iff)
  with p show ?thesis by blast
qed

theorem pages_cover_witness:
  "\<exists>pages. walk id (pageSlice id [''a'', ''b'', ''c'']) (Some (IntegerNum 2)) 4 None = Some pages
     \<and> concat pages = [''a'', ''b'', ''c'']"
proof -
  have "distinct (map id [''a'', ''b'', ''c''])" "[] \<notin> id ` set [''a'', ''b'', ''c'']" by simp_all
  from pages_cover [OF this disjI1 [OF refl], of "Some (IntegerNum 2)"] show ?thesis
    by (simp only: list.size) (auto simp: eval_nat_numeral)
qed

end
