(* ===== verification/ProfilesRead.thy ===== *)
theory ProfilesRead
  imports Money GovernanceRuns
begin

section \<open>Reading profiles\<close>

text \<open>
  \<open>src/apps/api/src/modules/profiles/interface\<close>: the object types of \<open>dto/profile.types.ts\<close>, the mappers
  of \<open>dto/profile.mapper.ts\<close> and the queries of \<open>profiles.read.ts\<close>. A query runs in a scoped
  transaction like a use case; all but \<open>me\<close> leave the database alone. A row that the code takes for
  granted (\<open>user!\<close>) and does not find throws, and so does money in something that is not a currency.
\<close>

subsection \<open>Results over lists\<close>

fun map_results :: "('a \<Rightarrow> 'b result) \<Rightarrow> 'a list \<Rightarrow> 'b list result" where
  "map_results f [] = Ok []"
| "map_results f (x # xs) =
     (case f x of
        Ok y \<Rightarrow> (case map_results f xs of Ok ys \<Rightarrow> Ok (y # ys) | Err e \<Rightarrow> Err e | Thrown t \<Rightarrow> Thrown t)
      | Err e \<Rightarrow> Err e | Thrown t \<Rightarrow> Thrown t)"

fun result_bind :: "'a result \<Rightarrow> ('a \<Rightarrow> 'b result) \<Rightarrow> 'b result" where
  "result_bind (Ok v) k = k v"
| "result_bind (Err e) k = Err e"
| "result_bind (Thrown t) k = Thrown t"

lemma map_results_cases:
  assumes "\<And>x. x \<in> set xs \<Longrightarrow> f x = (if P x then Ok (h x) else Thrown t)"
  shows "map_results f xs = (if list_all P xs then Ok (map h xs) else Thrown t)"
  using assms by (induction xs) auto

lemma map_results_pure: "(\<And>x. x \<in> set xs \<Longrightarrow> f x = Ok (h x)) \<Longrightarrow> map_results f xs = Ok (map h xs)"
  by (induction xs) auto

text \<open>A query as a transaction body: its answer, and the database as it was.\<close>

definition reading :: "(db \<Rightarrow> 'a result) \<Rightarrow> db \<Rightarrow> 'a result \<times> db" where
  "reading q g = (q g, g)"

subsection \<open>Object types\<close>

definition fromCents :: "cents \<Rightarrow> string \<Rightarrow> money result" where
  "fromCents n cur = money_of (BigintCents n) cur"

record account_dto =
  ad_id :: uuid
  ad_profileType :: profile_type
  ad_type :: account_type
  ad_name :: string
  ad_balance :: money
  ad_currency :: string

record personal_profile_dto =
  pd_id :: uuid
  pd_accounts :: "account_dto list"
  pd_userId :: uuid

record user_dto =
  ud_id :: uuid
  ud_displayName :: string
  ud_personalProfile :: "personal_profile_dto option"

record membership_dto =
  md_id :: uuid
  md_user :: user_dto
  md_role :: member_role
  md_status :: membership_status
  md_invitationExpiresAt :: "instant option"
  md_declaredIncome :: money
  md_version :: int
  md_sharedProfileId :: uuid
  md_currency :: string

record shared_profile_dto =
  sd_id :: uuid
  sd_name :: string
  sd_baseCurrency :: string
  sd_periodLength :: period_length
  sd_status :: profile_status
  sd_owner :: "membership_dto option"
  sd_members :: "membership_dto list"

subsection \<open>Mappers\<close>

definition mapUserPublic :: "user_row \<Rightarrow> user_dto" where
  "mapUserPublic user = \<lparr>ud_id = u_id user, ud_displayName = u_displayName user, ud_personalProfile = None\<rparr>"

definition mapUserSelf :: "user_row \<Rightarrow> personal_profile_dto \<Rightarrow> user_dto" where
  "mapUserSelf user personalProfile = (mapUserPublic user)\<lparr>ud_personalProfile := Some personalProfile\<rparr>"

text \<open>The user is a value that may be missing; reading its fields then throws.\<close>

definition mapMembership :: "membership_row \<Rightarrow> user_row option \<Rightarrow> string \<Rightarrow> membership_dto result" where
  "mapMembership row user cur =
     result_bind (asserted user) (\<lambda>u.
     result_bind (fromCents (m_declaredIncomeCents row) cur) (\<lambda>income.
       Ok \<lparr>md_id = m_id row, md_user = mapUserPublic u, md_role = m_role row, md_status = m_status row,
           md_invitationExpiresAt = (if m_status row = INVITED then Some (m_invitationExpiresAt row) else None),
           md_declaredIncome = income, md_version = m_version row,
           md_sharedProfileId = m_sharedProfileId row, md_currency = cur\<rparr>))"

definition mapSharedProfile :: "shared_profile_row \<Rightarrow> membership_row list \<Rightarrow> (uuid \<Rightarrow> user_row option)
    \<Rightarrow> shared_profile_dto result" where
  "mapSharedProfile profile members usersById =
     result_bind (map_results (\<lambda>m. mapMembership m (usersById (m_userId m)) (sp_baseCurrency profile)) members) (\<lambda>mapped.
       Ok \<lparr>sd_id = sp_id profile, sd_name = sp_name profile, sd_baseCurrency = sp_baseCurrency profile,
           sd_periodLength = sp_periodLength profile, sd_status = sp_status profile,
           sd_owner = List.find (\<lambda>m. md_role m = OWNER \<and> md_status m = ACTIVE) mapped,
           sd_members = mapped\<rparr>)"

subsection \<open>Queries\<close>

definition findUser :: "uuid \<Rightarrow> db \<Rightarrow> user_row option" where
  "findUser i g = List.find (\<lambda>u. u_id u = i) (users g)"

definition currency_or_default :: "shared_profile_row option \<Rightarrow> string" where
  "currency_or_default profile = (case profile of None \<Rightarrow> ''USD'' | Some p \<Rightarrow> sp_baseCurrency p)"

text \<open>\<open>loadUsers\<close>: one query for the users named, as a \<open>Map\<close> from identifiers.\<close>

definition loadUsers :: "uuid list \<Rightarrow> db \<Rightarrow> uuid \<Rightarrow> user_row option" where
  "loadUsers userIds g = map_of (rev (map (\<lambda>u. (u_id u, u)) (filter (\<lambda>u. u_id u \<in> set userIds) (users g))))"

definition me_tx :: "(uuid \<Rightarrow> bool) \<Rightarrow> tenant_principal \<Rightarrow> db \<Rightarrow> user_dto result \<times> db" where
  "me_tx held p g =
     (case findUser (pr_userId p) g of
        None \<Rightarrow> (Thrown GenericError, g)
      | Some user \<Rightarrow>
          then_do (findOrCreatePersonalProfile held (pr_tenantId p) (pr_userId p) g) (\<lambda>personal g1.
            (Ok (mapUserSelf user \<lparr>pd_id = pp_id personal, pd_accounts = [], pd_userId = pp_userId personal\<rparr>), g1)))"

definition me :: "tenant_principal \<Rightarrow> db \<Rightarrow> user_dto result \<times> db" where
  "me p = (\<lambda>g. withTenant (pr_tenantId p) (me_tx (held_elsewhere (pr_tenantId p) g) p) g)"

definition sharedProfile_tx :: "tenant_principal \<Rightarrow> uuid \<Rightarrow> db \<Rightarrow> shared_profile_dto option result" where
  "sharedProfile_tx p i g =
     (case findSharedProfile i g of
        None \<Rightarrow> Ok None
      | Some profile \<Rightarrow>
          let members = listByProfile i g in
          if \<not> list_ex (\<lambda>m. m_userId m = pr_userId p \<and> m_status m = ACTIVE) members then Ok None
          else result_map Some (mapSharedProfile profile members (loadUsers (map m_userId members) g)))"

definition sharedProfile :: "tenant_principal \<Rightarrow> uuid \<Rightarrow> db \<Rightarrow> shared_profile_dto option result \<times> db" where
  "sharedProfile p i = withTenant (pr_tenantId p) (reading (sharedProfile_tx p i))"

definition membershipById_tx :: "uuid \<Rightarrow> db \<Rightarrow> membership_dto result" where
  "membershipById_tx i g =
     (case findMembershipById i g of
        None \<Rightarrow> Thrown GenericError
      | Some row \<Rightarrow> mapMembership row (findUser (m_userId row) g)
          (currency_or_default (findSharedProfile (m_sharedProfileId row) g)))"

definition membershipById :: "tenant_principal \<Rightarrow> uuid \<Rightarrow> db \<Rightarrow> membership_dto result \<times> db" where
  "membershipById p i = withTenant (pr_tenantId p) (reading (membershipById_tx i))"

definition myMemberships_tx :: "tenant_principal \<Rightarrow> db \<Rightarrow> membership_dto list result" where
  "myMemberships_tx p g =
     (let rows = filter (\<lambda>m. m_userId m = pr_userId p \<and> m_status m \<in> {INVITED, ACTIVE}) (memberships g) in
      case findUser (pr_userId p) g of
        None \<Rightarrow> Ok []
      | Some self \<Rightarrow>
          let profiles = filter (\<lambda>sp. sp_id sp \<in> set (map m_sharedProfileId rows)) (sharedProfiles g);
              currencyByProfile = map_of (rev (map (\<lambda>sp. (sp_id sp, sp_baseCurrency sp)) profiles))
          in map_results (\<lambda>r. mapMembership r (Some self)
               (case currencyByProfile (m_sharedProfileId r) of None \<Rightarrow> ''USD'' | Some c \<Rightarrow> c)) rows)"

definition myMemberships :: "tenant_principal \<Rightarrow> db \<Rightarrow> membership_dto list result \<times> db" where
  "myMemberships p = withTenant (pr_tenantId p) (reading (myMemberships_tx p))"

subsection \<open>Queries inside a transaction\<close>

lemma reading_view:
  "t \<noteq> [] \<Longrightarrow> fst (withTenant t (reading q) g) = q (tenant_view t g)"
  using tenant_rows_view [of t g]
  by (cases "q (tenant_view t g)") (simp_all add: withTenant_def reading_def tenant_view_def [symmetric])

subsection \<open>What the keys and the stored currencies give a query\<close>

text \<open>
  \<open>readable\<close>: user identifiers are unique (the primary key of the schema) and every profile's currency
  is in the normal form in which validated input is stored. That the user of a membership exists in the
  tenant is not part of it: nothing checks the identifier that an invitation gives.
\<close>

definition readable :: "db \<Rightarrow> bool" where
  "readable g \<longleftrightarrow> distinct (map u_id (users g)) \<and> list_all (\<lambda>p. wf_currency (sp_baseCurrency p)) (sharedProfiles g)"

definition has_user :: "db \<Rightarrow> membership_row \<Rightarrow> bool" where
  "has_user g m \<longleftrightarrow> list_ex (\<lambda>u. u_id u = m_userId m) (users g)"

lemma has_user_find: "has_user g m \<longleftrightarrow> findUser (m_userId m) g \<noteq> None"
  by (auto simp: has_user_def findUser_def list_ex_iff find_None_iff)

lemma fromCents_wf [simp]: "wf_currency c \<Longrightarrow> fromCents n c = Ok \<lparr>amountCents = n, currency = c\<rparr>"
  by (simp add: fromCents_def money_of_def cents_of_def)

lemma USD_wf [simp]: "wf_currency ''USD''"
  by code_simp

lemma readable_currency: "readable g \<Longrightarrow> wf_currency (currency_or_default (findSharedProfile i g))"
  by (auto simp: currency_or_default_def readable_def list_all_iff split: option.splits dest: found_profile)

lemma find_filter: "(\<And>x. P x \<Longrightarrow> Q x) \<Longrightarrow> List.find P (filter Q xs) = List.find P xs"
  by (induction xs) auto

lemma loadUsers_find:
  assumes "distinct (map u_id (users g))" and "i \<in> set ids"
  shows "loadUsers ids g i = findUser i g"
proof -
  have "map_of (rev (map (\<lambda>u. (u_id u, u)) us)) i = List.find (\<lambda>u. u_id u = i) us"
    if "distinct (map u_id us)" for us :: "user_row list"
  proof -
    have "distinct (map fst (map (\<lambda>u. (u_id u, u)) us))" using that by (simp add: comp_def)
    then have "map_of (rev (map (\<lambda>u. (u_id u, u)) us)) i = map_of (map (\<lambda>u. (u_id u, u)) us) i"
      by (subst map_of_inject_set [THEN iffD2]) (simp_all add: rev_map [symmetric] comp_def)
    also have "\<dots> = List.find (\<lambda>u. u_id u = i) us" by (induction us) auto
    finally show ?thesis .
  qed
  from this [of "filter (\<lambda>u. u_id u \<in> set ids) (users g)"] assms
  have "loadUsers ids g i = List.find (\<lambda>u. u_id u = i) (filter (\<lambda>u. u_id u \<in> set ids) (users g))"
    by (simp add: loadUsers_def distinct_map_filter)
  also have "\<dots> = findUser i g"
    unfolding findUser_def by (rule find_filter) (use assms(2) in simp)
  finally show ?thesis .
qed

definition shown_membership :: "membership_row \<Rightarrow> user_row \<Rightarrow> string \<Rightarrow> membership_dto" where
  "shown_membership row u cur =
     \<lparr>md_id = m_id row, md_user = mapUserPublic u, md_role = m_role row, md_status = m_status row,
      md_invitationExpiresAt = (if m_status row = INVITED then Some (m_invitationExpiresAt row) else None),
      md_declaredIncome = \<lparr>amountCents = m_declaredIncomeCents row, currency = cur\<rparr>, md_version = m_version row,
      md_sharedProfileId = m_sharedProfileId row, md_currency = cur\<rparr>"

lemma mapMembership_wf:
  "wf_currency cur \<Longrightarrow> mapMembership row (Some u) cur = Ok (shown_membership row u cur)"
  by (simp add: mapMembership_def asserted_def shown_membership_def)

definition show_member :: "db \<Rightarrow> string \<Rightarrow> membership_row \<Rightarrow> membership_dto" where
  "show_member g cur m = shown_membership m (the (findUser (m_userId m) g)) cur"

lemma mapMembership_cases:
  "wf_currency cur \<Longrightarrow> mapMembership m (findUser (m_userId m) g) cur
     = (if has_user g m then Ok (show_member g cur m) else Thrown TypeError)"
  by (auto simp: has_user_find mapMembership_wf show_member_def) (simp add: mapMembership_def asserted_def)

lemma show_member_fields [simp]:
  "md_id (show_member g cur m) = m_id m" "md_role (show_member g cur m) = m_role m"
  "md_status (show_member g cur m) = m_status m" "ud_personalProfile (md_user (show_member g cur m)) = None"
  "amountCents (md_declaredIncome (show_member g cur m)) = m_declaredIncomeCents m"
  "md_sharedProfileId (show_member g cur m) = m_sharedProfileId m" "md_currency (show_member g cur m) = cur"
  by (simp_all add: show_member_def shown_membership_def mapUserPublic_def)

definition sees_profile :: "tenant_principal \<Rightarrow> uuid \<Rightarrow> db \<Rightarrow> bool" where
  "sees_profile p i g \<longleftrightarrow> findSharedProfile i g \<noteq> None
     \<and> list_ex (\<lambda>m. m_userId m = pr_userId p \<and> m_status m = ACTIVE) (listByProfile i g)"

lemma sharedProfile_eq:
  assumes "readable g"
  shows "sharedProfile_tx p i g =
    (if \<not> sees_profile p i g then Ok None
     else if list_all (has_user g) (listByProfile i g)
     then let pr = the (findSharedProfile i g);
              shown = map (show_member g (sp_baseCurrency pr)) (listByProfile i g)
          in Ok (Some \<lparr>sd_id = i, sd_name = sp_name pr, sd_baseCurrency = sp_baseCurrency pr,
               sd_periodLength = sp_periodLength pr, sd_status = sp_status pr,
               sd_owner = List.find (\<lambda>m. md_role m = OWNER \<and> md_status m = ACTIVE) shown, sd_members = shown\<rparr>)
     else Thrown TypeError)"
proof (cases "findSharedProfile i g")
  case None
  then show ?thesis by (simp add: sharedProfile_tx_def sees_profile_def)
next
  case (Some pr)
  let ?ms = "listByProfile i g" and ?show = "show_member g (sp_baseCurrency pr)"
  have cur: "wf_currency (sp_baseCurrency pr)" and id: "sp_id pr = i"
    using found_profile [OF Some] assms by (auto simp: readable_def list_all_iff)
  have "mapMembership m (loadUsers (map m_userId ?ms) g (m_userId m)) (sp_baseCurrency pr)
      = (if has_user g m then Ok (?show m) else Thrown TypeError)" if "m \<in> set ?ms" for m
  proof -
    have "loadUsers (map m_userId ?ms) g (m_userId m) = findUser (m_userId m) g"
      by (rule loadUsers_find) (use assms that in \<open>simp_all add: readable_def\<close>)
    then show ?thesis using mapMembership_cases [OF cur] by simp
  qed
  from map_results_cases [OF this]
  have "map_results (\<lambda>m. mapMembership m (loadUsers (map m_userId ?ms) g (m_userId m)) (sp_baseCurrency pr)) ?ms
      = (if list_all (has_user g) ?ms then Ok (map ?show ?ms) else Thrown TypeError)" .
  then show ?thesis using Some id by (simp add: sharedProfile_tx_def sees_profile_def mapSharedProfile_def Let_def)
qed

lemma find_filter_single: "filter P xs = [x] \<Longrightarrow> (\<And>y. Q y \<Longrightarrow> P y) \<Longrightarrow> Q x \<Longrightarrow> List.find Q xs = Some x"
  by (induction xs) (auto split: if_splits simp: filter_empty_conv find_None_iff)

lemma me_own:
  assumes "me_tx held p g = (Ok d, h)"
  shows "ud_id d = pr_userId p \<and> (\<exists>pp. ud_personalProfile d = Some pp \<and> pd_userId pp = pr_userId p \<and> pd_accounts pp = [])"
proof -
  obtain u where u: "findUser (pr_userId p) g = Some u"
    using assms by (cases "findUser (pr_userId p) g") (auto simp: me_tx_def)
  with assms obtain pp k where pp: "findOrCreatePersonalProfile held (pr_tenantId p) (pr_userId p) g = (Ok pp, k)"
    by (auto simp: me_tx_def then_do_Ok)
  then have "pp_userId pp = pr_userId p"
    by (auto simp: findOrCreatePersonalProfile_def Let_def find_Some_iff split: option.splits if_splits)
  moreover have "u_id u = pr_userId p" using u by (auto simp: findUser_def find_Some_iff)
  ultimately show ?thesis using assms u pp by (auto simp: me_tx_def mapUserSelf_def mapUserPublic_def)
qed

text \<open>Who sees a profile, and what, in a database that governance keeps in order.\<close>

lemma profile_answer:
  assumes gov: "governed (tenant_view (pr_tenantId p) g)" and read: "readable (tenant_view (pr_tenantId p) g)"
    and t: "pr_tenantId p \<noteq> []"
  defines "v \<equiv> tenant_view (pr_tenantId p) g"
  shows "if \<not> list_ex (\<lambda>m. m_userId m = pr_userId p \<and> m_status m = ACTIVE) (listByProfile i v)
    then fst (sharedProfile p i g) = Ok None
    else if \<not> list_all (has_user v) (listByProfile i v) then fst (sharedProfile p i g) = Thrown TypeError
    else \<exists>d o' pr. fst (sharedProfile p i g) = Ok (Some d)
      \<and> map md_id (sd_members d) = map m_id (listByProfile i v)
      \<and> sd_owner d = Some o' \<and> findSharedProfile i v = Some pr \<and> sp_ownerMembershipId pr = Some (md_id o') \<and> md_status o' = ACTIVE
      \<and> list_all (\<lambda>m. ud_personalProfile (md_user m) = None) (sd_members d)"
proof (cases "findSharedProfile i v")
  case None
  then have "i \<notin> sp_id ` set (sharedProfiles v)" by (auto simp: findSharedProfile_def find_None_iff)
  moreover have "\<forall>m \<in> set (memberships v). m_sharedProfileId m \<in> sp_id ` set (sharedProfiles v)"
    using gov by (simp add: v_def governed_def keys_ok_def)
  ultimately have "listByProfile i v = []" by (auto simp: listByProfile_def filter_empty_conv)
  then show ?thesis
    using t by (simp add: sharedProfile_def reading_view sharedProfile_eq read [folded v_def] sees_profile_def flip: v_def)
next
  case (Some pr)
  obtain m where m: "filter (\<lambda>q. m_role q = OWNER) (listByProfile i v) = [m]"
      "sp_ownerMembershipId pr = Some (m_id m)" "m_status m = ACTIVE"
    using single_owner [OF gov, of pr] found_profile [OF Some] unfolding v_def by metis
  let ?show = "show_member v (sp_baseCurrency pr)"
  have r: "m_role m = OWNER" using m(1) by (metis (mono_tags) filter_eq_ConsD)
  have "List.find (\<lambda>q. md_role q = OWNER \<and> md_status q = ACTIVE) (map ?show (listByProfile i v)) = Some (?show m)"
    by (rule find_filter_single [where P = "\<lambda>q. md_role q = OWNER"])
      (simp_all add: filter_map comp_def m r)
  with Some m t show ?thesis
    by (simp add: sharedProfile_def reading_view sharedProfile_eq read [folded v_def] sees_profile_def Let_def comp_def list_all_iff flip: v_def)
qed

end
