(* ===== verification/ContributionsRead.thy ===== *)
theory ContributionsRead
  imports ProfilesRead LedgerRuns Pagination
begin

section \<open>Reading contributions\<close>

text \<open>
  \<open>src/apps/api/src/modules/contributions/interface/contributions.read.ts\<close> and the object types of
  \<open>dto/contribution.types.ts\<close>: plans, records, pool totals, standings. Every figure comes from the
  analytics core. A period identifier given by the caller is looked up as it is; with none (or an
  empty one) the open period of the profile is taken.
\<close>

subsection \<open>Object types\<close>

record standing_dto =
  st_expected :: money
  st_actual :: money
  st_variance :: money
  st_state :: standing_state

record period_dto =
  pdto_id :: uuid
  pdto_startDate :: instant
  pdto_endDate :: instant
  pdto_status :: period_status

record allocation_dto =
  al_id :: uuid
  al_membership :: membership_dto
  al_percentageBp :: int

record plan_dto =
  pl_id :: uuid
  pl_version :: int
  pl_effectiveFromPeriodId :: "uuid option"
  pl_allocations :: "allocation_dto list"

record record_dto =
  rd_id :: uuid
  rd_membership :: membership_dto
  rd_amount :: money
  rd_recordedAt :: instant

subsection \<open>Helpers\<close>

definition findPlan :: "uuid \<Rightarrow> db \<Rightarrow> plan_row option" where
  "findPlan i g = List.find (\<lambda>p. plan_id p = i) (contributionPlans g)"

definition findRecord :: "uuid \<Rightarrow> db \<Rightarrow> record_row option" where
  "findRecord i g = List.find (\<lambda>r. rec_id r = i) (contributionRecords g)"

definition findPeriod :: "uuid \<Rightarrow> db \<Rightarrow> period_row option" where
  "findPeriod i g = List.find (\<lambda>p. per_id p = i) (contributionPeriods g)"

text \<open>A missing membership is read as if it were there, which throws.\<close>

definition membershipDto :: "uuid \<Rightarrow> string \<Rightarrow> db \<Rightarrow> membership_dto result" where
  "membershipDto membershipId cur g =
     result_bind (asserted (findMembershipById membershipId g)) (\<lambda>row.
       mapMembership row (findUser (m_userId row) g) cur)"

definition period_chosen :: "uuid \<Rightarrow> uuid option \<Rightarrow> db \<Rightarrow> period_row option" where
  "period_chosen sp periodId g =
     (case periodId of
        None \<Rightarrow> openPeriodOf sp g
      | Some i \<Rightarrow> if i = [] then openPeriodOf sp g else findPeriod i g)"

text \<open>The same lines compute it here and in the coaching service.\<close>

definition live_snapshot :: "uuid \<Rightarrow> db \<Rightarrow> member_snapshot list" where
  "live_snapshot sp g =
     (let allocations = (case currentPlan sp g of None \<Rightarrow> [] | Some plan \<Rightarrow> listAllocations (plan_id plan) g);
          bp = map_of (rev (map (\<lambda>a. (alloc_membershipId a, alloc_percentageBp a)) allocations))
      in map (\<lambda>m. \<lparr>snap_id = m_id m, incomeCents = m_declaredIncomeCents m,
             percentageBp = (case bp (m_id m) of None \<Rightarrow> 0 | Some b \<Rightarrow> b)\<rparr>) (activeMemberships sp g))"

definition snapshotFor :: "uuid \<Rightarrow> uuid option \<Rightarrow> db \<Rightarrow> member_snapshot list result" where
  "snapshotFor sp periodId g =
     (case period_chosen sp periodId g of
        Some period \<Rightarrow> snapshotMembers period g
      | None \<Rightarrow> Ok (live_snapshot sp g))"

definition assemblePlan :: "plan_row \<Rightarrow> db \<Rightarrow> plan_dto result" where
  "assemblePlan plan g =
     (let cur = currency_or_default (findSharedProfile (plan_sharedProfileId plan) g) in
      result_bind (map_results (\<lambda>a. result_map (\<lambda>member.
            \<lparr>al_id = alloc_id a, al_membership = member, al_percentageBp = alloc_percentageBp a\<rparr>)
            (membershipDto (alloc_membershipId a) cur g)) (listAllocations (plan_id plan) g)) (\<lambda>allocations.
        Ok \<lparr>pl_id = plan_id plan, pl_version = plan_version plan,
            pl_effectiveFromPeriodId = plan_effectiveFromPeriodId plan, pl_allocations = allocations\<rparr>))"

definition record_shown :: "string \<Rightarrow> record_row \<Rightarrow> db \<Rightarrow> record_dto result" where
  "record_shown cur r g =
     result_bind (membershipDto (rec_membershipId r) cur g) (\<lambda>member.
     result_bind (fromCents (rec_amount r) cur) (\<lambda>amount.
       Ok \<lparr>rd_id = rec_id r, rd_membership = member, rd_amount = amount, rd_recordedAt = rec_recordedAt r\<rparr>))"

subsection \<open>Queries\<close>

definition planDto_tx :: "uuid \<Rightarrow> db \<Rightarrow> plan_dto result" where
  "planDto_tx planId g =
     (case findPlan planId g of None \<Rightarrow> Thrown GenericError | Some plan \<Rightarrow> assemblePlan plan g)"

definition planDto :: "tenant_principal \<Rightarrow> uuid \<Rightarrow> db \<Rightarrow> plan_dto result \<times> db" where
  "planDto p planId = withTenant (pr_tenantId p) (reading (planDto_tx planId))"

definition contributions_membershipById_tx :: "uuid \<Rightarrow> db \<Rightarrow> membership_dto result" where
  "contributions_membershipById_tx membershipId g =
     (case findMembershipById membershipId g of
        None \<Rightarrow> Thrown GenericError
      | Some row \<Rightarrow> membershipDto membershipId (currency_or_default (findSharedProfile (m_sharedProfileId row) g)) g)"

definition contributions_membershipById :: "tenant_principal \<Rightarrow> uuid \<Rightarrow> db \<Rightarrow> membership_dto result \<times> db" where
  "contributions_membershipById p membershipId =
     withTenant (pr_tenantId p) (reading (contributions_membershipById_tx membershipId))"

definition recordDto_tx :: "uuid \<Rightarrow> db \<Rightarrow> record_dto result" where
  "recordDto_tx recordId g =
     (case findRecord recordId g of
        None \<Rightarrow> Thrown GenericError
      | Some r \<Rightarrow> record_shown (currency_or_default (findSharedProfile (rec_sharedProfileId r) g)) r g)"

definition recordDto :: "tenant_principal \<Rightarrow> uuid \<Rightarrow> db \<Rightarrow> record_dto result \<times> db" where
  "recordDto p recordId = withTenant (pr_tenantId p) (reading (recordDto_tx recordId))"

text \<open>
  The order of the listing is by \<open>recordedAt\<close> and then by \<open>id\<close>, both descending. A cursor names a
  record of the listing; another one gives the empty page.
\<close>

definition newest_first :: "record_row list \<Rightarrow> record_row list" where
  "newest_first rows = rev (sort_key rec_recordedAt (sort_key rec_id rows))"

definition recordsForProfile_tx :: "uuid \<Rightarrow> string \<Rightarrow> page_args \<Rightarrow> uuid option \<Rightarrow> db \<Rightarrow> record_dto list result" where
  "recordsForProfile_tx sp cur page periodId g =
     (let rows = findPage rec_id (prismaPage page) (newest_first
            (filter (\<lambda>r. rec_sharedProfileId r = sp
               \<and> (case periodId of None \<Rightarrow> True | Some i \<Rightarrow> i = [] \<or> rec_periodId r = i)) (contributionRecords g)))
      in map_results (\<lambda>r. record_shown cur r g) rows)"

definition recordsForProfile :: "tenant_principal \<Rightarrow> uuid \<Rightarrow> string \<Rightarrow> page_args \<Rightarrow> uuid option \<Rightarrow> db
    \<Rightarrow> record_dto list result \<times> db" where
  "recordsForProfile p sp cur page periodId =
     withTenant (pr_tenantId p) (reading (recordsForProfile_tx sp cur page periodId))"

definition poolTotal_tx :: "uuid \<Rightarrow> string \<Rightarrow> uuid option \<Rightarrow> db \<Rightarrow> money result" where
  "poolTotal_tx sp cur periodId g =
     result_bind (snapshotFor sp periodId g) (\<lambda>members.
     result_bind (poolExpectedTotalCents members) (\<lambda>tot. fromCents tot cur))"

definition poolTotal :: "tenant_principal \<Rightarrow> uuid \<Rightarrow> string \<Rightarrow> uuid option \<Rightarrow> db \<Rightarrow> money result \<times> db" where
  "poolTotal p sp cur periodId = withTenant (pr_tenantId p) (reading (poolTotal_tx sp cur periodId))"

definition poolTotalByProfileId_tx :: "uuid \<Rightarrow> db \<Rightarrow> money option result" where
  "poolTotalByProfileId_tx sp g =
     (case findSharedProfile sp g of
        None \<Rightarrow> Ok None
      | Some profile \<Rightarrow> result_map Some (poolTotal_tx (sp_id profile) (sp_baseCurrency profile) None g))"

definition poolTotalByProfileId :: "tenant_principal \<Rightarrow> uuid \<Rightarrow> db \<Rightarrow> money option result \<times> db" where
  "poolTotalByProfileId p sp = withTenant (pr_tenantId p) (reading (poolTotalByProfileId_tx sp))"

definition currentPeriod_tx :: "uuid \<Rightarrow> db \<Rightarrow> period_dto option result" where
  "currentPeriod_tx sp g = Ok (map_option (\<lambda>period.
     \<lparr>pdto_id = per_id period, pdto_startDate = per_startDate period, pdto_endDate = per_endDate period,
      pdto_status = per_status period\<rparr>) (openPeriodOf sp g))"

definition currentPeriod :: "tenant_principal \<Rightarrow> uuid \<Rightarrow> db \<Rightarrow> period_dto option result \<times> db" where
  "currentPeriod p sp = withTenant (pr_tenantId p) (reading (currentPeriod_tx sp))"

definition standing_shown :: "string \<Rightarrow> contribution_standing \<Rightarrow> standing_dto result" where
  "standing_shown cur st =
     result_bind (fromCents (expectedCents st) cur) (\<lambda>e.
     result_bind (fromCents (actualCents st) cur) (\<lambda>a.
     result_bind (fromCents (varianceCents st) cur) (\<lambda>v.
       Ok \<lparr>st_expected = e, st_actual = a, st_variance = v, st_state = standing_of st\<rparr>)))"

definition standing_tx :: "membership_dto \<Rightarrow> uuid option \<Rightarrow> db \<Rightarrow> standing_dto option result" where
  "standing_tx membership periodId g =
     (if md_sharedProfileId membership = [] then Ok None
      else case period_chosen (md_sharedProfileId membership) periodId g of
          None \<Rightarrow> Ok None
        | Some period \<Rightarrow>
            result_bind (snapshotMembers period g) (\<lambda>members.
            case List.find (\<lambda>m. snap_id m = md_id membership) members of
              None \<Rightarrow> Ok None
            | Some mine \<Rightarrow>
                let actual = actualForMember (per_id period) (md_id membership) g in
                result_bind (expectedContributionCents (incomeCents mine) (percentageBp mine)) (\<lambda>expected.
                  result_map Some (standing_shown (md_currency membership) (computeStanding expected actual)))))"

definition standing :: "tenant_principal \<Rightarrow> membership_dto \<Rightarrow> uuid option \<Rightarrow> db \<Rightarrow> standing_dto option result \<times> db" where
  "standing p membership periodId = withTenant (pr_tenantId p) (reading (standing_tx membership periodId))"

text \<open>Two transactions, one after the other.\<close>

definition standingByMembershipId :: "tenant_principal \<Rightarrow> uuid \<Rightarrow> db \<Rightarrow> standing_dto option result \<times> db" where
  "standingByMembershipId p membershipId g =
     then_do (contributions_membershipById p membershipId g) (\<lambda>membership g1. standing p membership None g1)"

definition allocationPercentageBp_tx :: "membership_dto \<Rightarrow> db \<Rightarrow> int option result" where
  "allocationPercentageBp_tx membership g =
     (if md_sharedProfileId membership = [] then Ok None
      else case currentPlan (md_sharedProfileId membership) g of
          None \<Rightarrow> Ok None
        | Some plan \<Rightarrow> Ok (map_option alloc_percentageBp (allocationFor (plan_id plan) (md_id membership) g)))"

definition allocationPercentageBp :: "tenant_principal \<Rightarrow> membership_dto \<Rightarrow> db \<Rightarrow> int option result \<times> db" where
  "allocationPercentageBp p membership = withTenant (pr_tenantId p) (reading (allocationPercentageBp_tx membership))"

end
