(* ===== verification/Coaching.thy ===== *)
theory Coaching
  imports ContributionsRead
begin

section \<open>Coaching\<close>

text \<open>
  \<open>src/apps/api/src/modules/ai-coaching\<close>: the read model (\<open>application/coaching-read.service.ts\<close>), its
  projection (\<open>domain/coaching-projection.ts\<close>) and the client of the language model
  (\<open>infrastructure/openrouter.client.ts\<close>). The network is a parameter, and so is the engine's
  \<open>JSON.parse\<close>: any answer, any failure. Numbers in an answer are taken to be integers; they only
  ever become text.
\<close>

subsection \<open>The read model\<close>

record coaching_member =
  cm_membershipId :: uuid
  cm_expectedCents :: cents
  cm_actualCents :: cents
  cm_state :: standing_state

record coaching_read_model =
  crm_sharedProfileId :: uuid
  crm_baseCurrency :: string
  crm_poolExpectedCents :: cents
  crm_poolActualCents :: cents
  crm_members :: "coaching_member list"

definition liveSnapshot :: "uuid \<Rightarrow> db \<Rightarrow> member_snapshot list" where
  "liveSnapshot sp g =
     (let members = activeMemberships sp g;
          allocations = (case currentPlan sp g of None \<Rightarrow> [] | Some plan \<Rightarrow> listAllocations (plan_id plan) g);
          bp = map_of (rev (map (\<lambda>a. (alloc_membershipId a, alloc_percentageBp a)) allocations))
      in map (\<lambda>m. \<lparr>snap_id = m_id m, incomeCents = m_declaredIncomeCents m,
             percentageBp = (case bp (m_id m) of None \<Rightarrow> 0 | Some b \<Rightarrow> b)\<rparr>) members)"

text \<open>The loop over the snapshot, with what it has pushed and added up.\<close>

fun coaching_loop :: "period_row option \<Rightarrow> db \<Rightarrow> member_snapshot list \<Rightarrow> coaching_member list \<Rightarrow> cents \<Rightarrow> cents
    \<Rightarrow> (coaching_member list \<times> cents \<times> cents) result" where
  "coaching_loop period g [] members expected actual = Ok (members, expected, actual)"
| "coaching_loop period g (m # ms) members expected actual =
     (case expectedContributionCents (incomeCents m) (percentageBp m) of
        Ok e \<Rightarrow>
          let a = (case period of None \<Rightarrow> 0 | Some p \<Rightarrow> actualForMember (per_id p) (snap_id m) g)
          in coaching_loop period g ms
               (members @ [\<lparr>cm_membershipId = snap_id m, cm_expectedCents = e, cm_actualCents = a,
                            cm_state = standing_of (computeStanding e a)\<rparr>]) (expected + e) (actual + a)
      | Err er \<Rightarrow> Err er | Thrown x \<Rightarrow> Thrown x)"

definition readModel_tx :: "tenant_principal \<Rightarrow> uuid \<Rightarrow> db \<Rightarrow> coaching_read_model result" where
  "readModel_tx p sp g =
     (case findByProfileAndUser sp (pr_userId p) g of
        None \<Rightarrow> Err (forbidden (Some [(''sharedProfileId'', JStr sp)]))
      | Some m \<Rightarrow>
          if m_status m \<noteq> ACTIVE then Err (forbidden (Some [(''sharedProfileId'', JStr sp)]))
          else case findSharedProfile sp g of
              None \<Rightarrow> Err (notFound None)
            | Some profile \<Rightarrow>
                let period = openPeriodOf sp g in
                result_bind (case period of Some q \<Rightarrow> snapshotMembers q g | None \<Rightarrow> Ok (liveSnapshot sp g)) (\<lambda>snapshot.
                result_bind (coaching_loop period g snapshot [] 0 0) (\<lambda>(members, expected, actual).
                  Ok \<lparr>crm_sharedProfileId = sp, crm_baseCurrency = sp_baseCurrency profile,
                      crm_poolExpectedCents = expected, crm_poolActualCents = actual, crm_members = members\<rparr>)))"

definition readModel :: "tenant_principal \<Rightarrow> uuid \<Rightarrow> db \<Rightarrow> coaching_read_model result \<times> db" where
  "readModel p sp = withTenant (pr_tenantId p) (reading (readModel_tx p sp))"

subsection \<open>The projection\<close>

record coaching_suggestion =
  sg_title :: string
  sg_detail :: string
  sg_suggestedMutation :: "string option"

record coaching_insight =
  ci_summary :: string
  ci_suggestions :: "coaching_suggestion list"

fun state_json :: "standing_state \<Rightarrow> json" where
  "state_json ON_TRACK = JStr ''ON_TRACK''"
| "state_json AHEAD = JStr ''AHEAD''"
| "state_json BEHIND = JStr ''BEHIND''"

definition redactForPrompt :: "coaching_read_model \<Rightarrow> json" where
  "redactForPrompt model = JObj
     [(''currency'', JStr (crm_baseCurrency model)),
      (''poolExpected'', JStr (show_int (crm_poolExpectedCents model))),
      (''poolActual'', JStr (show_int (crm_poolActualCents model))),
      (''members'', JArr (map (\<lambda>(i, m). JObj
         [(''member'', JStr (''member_'' @ show_nat (i + 1))),
          (''expected'', JStr (show_int (cm_expectedCents m))),
          (''actual'', JStr (show_int (cm_actualCents m))),
          (''state'', state_json (cm_state m))]) (zip [0..<length (crm_members model)] (crm_members model))))]"

definition buildFallbackInsight :: "coaching_read_model \<Rightarrow> coaching_insight" where
  "buildFallbackInsight model =
     (let behind = length (filter (\<lambda>m. cm_state m = BEHIND) (crm_members model));
          shortfall = crm_poolExpectedCents model - crm_poolActualCents model;
          s1 = (if behind > 0
                then [\<lparr>sg_title = ''Members are behind on contributions'',
                       sg_detail = show_nat behind @ '' member(s) are below their expected contribution this period.'',
                       sg_suggestedMutation = Some ''recordContribution''\<rparr>] else []);
          s2 = (if shortfall > 0
                then s1 @ [\<lparr>sg_title = ''Pool is under its expected total'',
                       sg_detail = ''The pool is short by '' @ show_int shortfall
                         @ '' minor units versus the expected total.'',
                       sg_suggestedMutation = None\<rparr>] else s1);
          s3 = (if s2 = []
                then [\<lparr>sg_title = ''On track'',
                       sg_detail = ''Contributions are meeting expectations this period.'',
                       sg_suggestedMutation = None\<rparr>] else s2)
      in \<lparr>ci_summary = (if shortfall > 0 then ''This profile is currently below its expected contribution pool.''
            else ''This profile is on track with its contribution plan.''), ci_suggestions = s3\<rparr>)"

subsection \<open>The client\<close>

text \<open>\<open>String(v)\<close> of a JSON value; a null inside an array prints as nothing.\<close>

fun js_String :: "json \<Rightarrow> string" and js_join :: "json list \<Rightarrow> string" where
  "js_String JNull = ''null''"
| "js_String (JBool b) = (if b then ''true'' else ''false'')"
| "js_String (JNum n) = show_int n"
| "js_String (JStr s) = s"
| "js_String (JArr vs) = js_join vs"
| "js_String (JObj fs) = ''[object Object]''"
| "js_join [] = ''''"
| "js_join [v] = (if v = JNull then '''' else js_String v)"
| "js_join (v # w # vs) = (if v = JNull then '''' else js_String v) @ '','' @ js_join (w # vs)"

fun js_truthy :: "json \<Rightarrow> bool" where
  "js_truthy JNull = False"
| "js_truthy (JBool b) = b"
| "js_truthy (JNum n) = (n \<noteq> 0)"
| "js_truthy (JStr s) = (s \<noteq> [])"
| "js_truthy (JArr vs) = True"
| "js_truthy (JObj fs) = True"

text \<open>
  Reading a property: undefined where there is none. Of null it throws, which every caller catches with
  the outcome of undefined.
\<close>

fun js_field :: "json \<Rightarrow> string \<Rightarrow> json option" where
  "js_field (JObj fs) k = map_of fs k"
| "js_field (JArr (v # vs)) k = (if k = ''0'' then Some v else None)"
| "js_field v k = None"

text \<open>\<open>String(s.title ?? '')\<close>.\<close>

definition text_or_empty :: "json option \<Rightarrow> string" where
  "text_or_empty v = (case v of None \<Rightarrow> '''' | Some JNull \<Rightarrow> '''' | Some w \<Rightarrow> js_String w)"

definition suggestion_of :: "json \<Rightarrow> coaching_suggestion" where
  "suggestion_of v =
     \<lparr>sg_title = text_or_empty (js_field v ''title''), sg_detail = text_or_empty (js_field v ''detail''),
      sg_suggestedMutation = (case js_field v ''suggestedMutation'' of Some (JStr m) \<Rightarrow> Some m | _ \<Rightarrow> None)\<rparr>"

fun is_object :: "json \<Rightarrow> bool" where
  "is_object (JObj _) = True"
| "is_object (JArr _) = True"
| "is_object _ = False"

definition parseInsight :: "(string \<Rightarrow> json option) \<Rightarrow> string \<Rightarrow> coaching_insight option" where
  "parseInsight json_parse content =
     (case json_parse content of
        None \<Rightarrow> None
      | Some obj \<Rightarrow>
          (case (js_field obj ''summary'', js_field obj ''suggestions'') of
             (Some (JStr summary), Some (JArr suggestions)) \<Rightarrow>
               Some \<lparr>ci_summary = summary, ci_suggestions = map suggestion_of (filter is_object suggestions)\<rparr>
           | _ \<Rightarrow> None))"

text \<open>
  \<open>data.choices?.[0]?.message?.content\<close>; anything missing on the way is undefined, and a null
  answer, whose property throws, ends in the same fallback.
\<close>

definition answer_content :: "json \<Rightarrow> json option" where
  "answer_content data =
     Option.bind (js_field data ''choices'') (\<lambda>choices.
     Option.bind (js_field choices ''0'') (\<lambda>choice.
     Option.bind (js_field choice ''message'') (\<lambda>message. js_field message ''content'')))"

text \<open>
  \<open>fetch\<close> of the redacted payload: no response (a network failure or the timeout), or whether it
  is OK, with its body if that is JSON.
\<close>

type_synonym llm = "json \<Rightarrow> (bool \<times> json option) option"

definition coachingInsight :: "string option \<Rightarrow> llm \<Rightarrow> (string \<Rightarrow> json option) \<Rightarrow> coaching_read_model \<Rightarrow> coaching_insight" where
  "coachingInsight apiKey fetch json_parse model =
     (let fallback = buildFallbackInsight model in
      if apiKey = None \<or> apiKey = Some [] then fallback
      else case fetch (redactForPrompt model) of
          None \<Rightarrow> fallback
        | Some (False, _) \<Rightarrow> fallback
        | Some (True, None) \<Rightarrow> fallback
        | Some (True, Some data) \<Rightarrow>
            (case answer_content data of
               None \<Rightarrow> fallback
             | Some content \<Rightarrow>
                 if \<not> js_truthy content then fallback
                 else case parseInsight json_parse (js_String content) of None \<Rightarrow> fallback | Some insight \<Rightarrow> insight))"

subsection \<open>What the loop computes\<close>

lemma liveSnapshot_same: "liveSnapshot = live_snapshot"
  by (intro ext) (simp add: liveSnapshot_def live_snapshot_def Let_def)

lemma live_snapshot_valid:
  assumes "plans_ok g"
  shows "valid_bps (live_snapshot sp g) \<and> distinct (map snap_id (live_snapshot sp g))"
proof -
  define as where "as = (case currentPlan sp g of None \<Rightarrow> [] | Some plan \<Rightarrow> listAllocations (plan_id plan) g)"
  have as: "set as \<subseteq> set (contributionAllocations g)"
    by (auto simp: as_def listAllocations_def split: option.splits)
  have "0 \<le> b \<and> b \<le> 10000"
    if "map_of (rev (map (\<lambda>a. (alloc_membershipId a, alloc_percentageBp a)) as)) i = Some b" for i b
    using map_of_SomeD [OF that] as assms by (auto simp: plans_ok_def)
  moreover have "distinct (map m_id (activeMemberships sp g))"
    using assms by (simp add: plans_ok_def activeMemberships_def distinct_map_filter)
  ultimately show ?thesis
    by (auto simp: live_snapshot_def Let_def as_def [symmetric] valid_bps_def list_all_iff comp_def split: option.splits)
qed

definition actual_of :: "period_row option \<Rightarrow> db \<Rightarrow> uuid \<Rightarrow> cents" where
  "actual_of period g i = (case period of None \<Rightarrow> 0 | Some p \<Rightarrow> actualForMember (per_id p) i g)"

definition coached :: "period_row option \<Rightarrow> db \<Rightarrow> member_snapshot \<Rightarrow> coaching_member" where
  "coached period g m =
     \<lparr>cm_membershipId = snap_id m, cm_expectedCents = expected_cents m, cm_actualCents = actual_of period g (snap_id m),
      cm_state = standing_of (computeStanding (expected_cents m) (actual_of period g (snap_id m)))\<rparr>"

lemma coached_fields [simp]:
  "cm_membershipId (coached q g m) = snap_id m" "cm_expectedCents (coached q g m) = expected_cents m"
  "cm_actualCents (coached q g m) = actual_of q g (snap_id m)"
  by (simp_all add: coached_def)

lemma coaching_loop_eq:
  "valid_bps ms \<Longrightarrow> coaching_loop q g ms acc e a =
     Ok (acc @ map (coached q g) ms, e + sum_list (map expected_cents ms),
         a + sum_list (map (\<lambda>m. actual_of q g (snap_id m)) ms))"
  by (induction ms arbitrary: acc e a)
    (auto simp: valid_bps_def expectedContributionCents_valid expected_cents_def coached_def actual_of_def Let_def)

text \<open>The snapshot both channels start from.\<close>

lemma snapshot_of_profile:
  assumes "books_ok g"
  obtains ms where "snapshotFor sp None g = Ok ms" "valid_bps ms" "distinct (map snap_id ms)"
    "(case openPeriodOf sp g of Some q \<Rightarrow> snapshotMembers q g | None \<Rightarrow> Ok (liveSnapshot sp g)) = Ok ms"
proof (cases "openPeriodOf sp g")
  case None
  have "plans_ok g" using assms by (simp add: books_ok_def ledger_ok_def)
  from live_snapshot_valid [OF this, of sp] None show thesis
    by (intro that [of "live_snapshot sp g"]) (simp_all add: snapshotFor_def period_chosen_def liveSnapshot_same)
next
  case (Some q)
  have l: "plans_ok g" "periods_wf g" using assms by (simp_all add: books_ok_def ledger_ok_def)
  have "q \<in> set (contributionPeriods g)"
  proof -
    have "periods_of sp g \<noteq> []" and "q = last (periods_of sp g)"
      using Some l(2) by (simp_all add: openPeriodOf_last split: if_splits)
    then have "q \<in> set (periods_of sp g)" by simp
    then show ?thesis by (simp add: periods_of_def)
  qed
  then have "snapshots_ok g q" using l(2) by (simp add: periods_wf_def list_all_iff)
  from snapshot_valid [OF l(1) this] obtain ms
    where "snapshotMembers q g = Ok ms" "valid_bps ms" "distinct (map snap_id ms)" by metis
  with Some show thesis by (intro that [of ms]) (simp_all add: snapshotFor_def period_chosen_def)
qed

lemma readModel_eq:
  assumes "books_ok g" and "sees_profile p sp g"
  obtains ms pr where "snapshotFor sp None g = Ok ms" "valid_bps ms" "distinct (map snap_id ms)"
    "findSharedProfile sp g = Some pr"
    "readModel_tx p sp g = Ok \<lparr>crm_sharedProfileId = sp, crm_baseCurrency = sp_baseCurrency pr,
       crm_poolExpectedCents = sum_list (map expected_cents ms),
       crm_poolActualCents = sum_list (map (\<lambda>m. actual_of (openPeriodOf sp g) g (snap_id m)) ms),
       crm_members = map (coached (openPeriodOf sp g) g) ms\<rparr>"
proof -
  obtain pr where pr: "findSharedProfile sp g = Some pr" using assms(2) by (auto simp: sees_profile_def)
  obtain m where m: "m \<in> set (memberships g)" "m_sharedProfileId m = sp" "m_userId m = pr_userId p" "m_status m = ACTIVE"
    using assms(2) by (auto simp: sees_profile_def list_ex_iff listByProfile_def)
  have d: "distinct (map (\<lambda>m. (m_sharedProfileId m, m_userId m)) (memberships g))"
    using assms(1) by (simp add: books_ok_def ledger_ok_def plans_ok_def)
  have "findByProfileAndUser sp (pr_userId p) g = Some m"
    using find_unique [OF d m(1)] m(2,3) by (simp add: findByProfileAndUser_def)
  moreover obtain ms where "snapshotFor sp None g = Ok ms" "valid_bps ms" "distinct (map snap_id ms)"
    "(case openPeriodOf sp g of Some q \<Rightarrow> snapshotMembers q g | None \<Rightarrow> Ok (liveSnapshot sp g)) = Ok ms"
    by (rule snapshot_of_profile [OF assms(1)])
  ultimately show thesis
    using pr m(4) by (intro that [of ms pr]) (simp_all add: readModel_tx_def coaching_loop_eq Let_def)
qed

text \<open>The standing of a member of the snapshot, as the query shows it.\<close>

lemma standing_of_snapshot:
  assumes "snapshotFor sp None g = Ok ms" and "valid_bps ms" and "distinct (map snap_id ms)" and "m \<in> set ms"
    and "openPeriodOf sp g = Some q" and d: "md_id d = snap_id m" "md_sharedProfileId d = sp" "wf_currency (md_currency d)"
    and "sp \<noteq> []"
  shows "standing_tx d None g = Ok (Some
    \<lparr>st_expected = \<lparr>amountCents = expected_cents m, currency = md_currency d\<rparr>,
     st_actual = \<lparr>amountCents = actual_of (Some q) g (snap_id m), currency = md_currency d\<rparr>,
     st_variance = \<lparr>amountCents = actual_of (Some q) g (snap_id m) - expected_cents m, currency = md_currency d\<rparr>,
     st_state = cm_state (coached (Some q) g m)\<rparr>)"
proof -
  have ms: "snapshotMembers q g = Ok ms" using assms(1,5) by (simp add: snapshotFor_def period_chosen_def)
  have f: "List.find (\<lambda>x. snap_id x = snap_id m) ms = Some m" by (rule find_unique [OF assms(3,4)])
  have e: "expectedContributionCents (incomeCents m) (percentageBp m) = Ok (expected_cents m)"
    using assms(2,4) by (simp add: valid_bps_def list_all_iff expectedContributionCents_valid expected_cents_def)
  show ?thesis
    using assms(5,9) d
    by (simp add: standing_tx_def period_chosen_def ms f e standing_shown_def computeStanding_def actual_of_def
        coached_def Let_def)
qed

subsection \<open>A database for the witnesses\<close>

text \<open>The channels agree on every tenant's books.\<close>

lemma figures_agree:
  assumes b: "books_ok (tenant_view (pr_tenantId p) g)" and "readable (tenant_view (pr_tenantId p) g)"
    and "sees_profile p sp (tenant_view (pr_tenantId p) g)" and "pr_tenantId p \<noteq> []" and "sp \<noteq> []"
  shows "\<exists>model. fst (readModel p sp g) = Ok model
    \<and> fst (poolTotal p sp (crm_baseCurrency model) None g)
        = Ok \<lparr>amountCents = crm_poolExpectedCents model, currency = crm_baseCurrency model\<rparr>
    \<and> crm_poolExpectedCents model = sum_list (map cm_expectedCents (crm_members model))
    \<and> crm_poolActualCents model = sum_list (map cm_actualCents (crm_members model))
    \<and> (\<forall>c \<in> set (crm_members model). \<forall>d. md_id d = cm_membershipId c \<and> md_sharedProfileId d = sp
          \<and> md_currency d = crm_baseCurrency model \<longrightarrow>
          fst (standing p d None g) = Ok (if openPeriodOf sp (tenant_view (pr_tenantId p) g) = None then None else Some
            \<lparr>st_expected = \<lparr>amountCents = cm_expectedCents c, currency = crm_baseCurrency model\<rparr>,
             st_actual = \<lparr>amountCents = cm_actualCents c, currency = crm_baseCurrency model\<rparr>,
             st_variance = \<lparr>amountCents = cm_actualCents c - cm_expectedCents c, currency = crm_baseCurrency model\<rparr>,
             st_state = cm_state c\<rparr>))"
proof -
  let ?v = "tenant_view (pr_tenantId p) g"
  from b assms(3) obtain ms pr where ms: "snapshotFor sp None ?v = Ok ms" "valid_bps ms" "distinct (map snap_id ms)"
    and pr: "findSharedProfile sp ?v = Some pr"
    and model: "readModel_tx p sp ?v = Ok \<lparr>crm_sharedProfileId = sp, crm_baseCurrency = sp_baseCurrency pr,
       crm_poolExpectedCents = sum_list (map expected_cents ms),
       crm_poolActualCents = sum_list (map (\<lambda>m. actual_of (openPeriodOf sp ?v) ?v (snap_id m)) ms),
       crm_members = map (coached (openPeriodOf sp ?v) ?v) ms\<rparr>"
    by (rule readModel_eq)
  have cur: "wf_currency (sp_baseCurrency pr)"
    using readable_currency [OF assms(2), of sp] pr by (simp add: currency_or_default_def)
  have pool: "poolTotal_tx sp (sp_baseCurrency pr) None ?v
      = Ok \<lparr>amountCents = sum_list (map expected_cents ms), currency = sp_baseCurrency pr\<rparr>"
    using ms cur by (simp add: poolTotal_tx_def poolExpectedTotalCents_def add_expected_valid)
  have none: "openPeriodOf sp ?v = None \<Longrightarrow> md_sharedProfileId d = sp \<Longrightarrow> standing_tx d None ?v = Ok None" for d
    by (simp add: standing_tx_def period_chosen_def)
  show ?thesis
    using assms(4,5) model pool none standing_of_snapshot [OF ms] cur
    by (cases "openPeriodOf sp ?v") (auto simp: readModel_def poolTotal_def standing_def reading_view comp_def)
qed

definition demo_model :: "uuid \<Rightarrow> uuid \<Rightarrow> coaching_read_model" where
  "demo_model sp i = \<lparr>crm_sharedProfileId = sp, crm_baseCurrency = ''EUR'', crm_poolExpectedCents = 700, crm_poolActualCents = 250,
     crm_members = [\<lparr>cm_membershipId = i, cm_expectedCents = 700, cm_actualCents = 250, cm_state = BEHIND\<rparr>]\<rparr>"

subsection \<open>Properties\<close>

text \<open>
  C21: advice is impersonal and always comes. What is sent to the language model, and the insight that
  comes back, depend only on the currency and the figures, not on who the members are or which profile
  it is; and whatever the network does, an insight with the rule-based text is there when no answer can
  be used.
\<close>

theorem coaching_advice:
  assumes "crm_baseCurrency a = crm_baseCurrency b"
    and "crm_poolExpectedCents a = crm_poolExpectedCents b" and "crm_poolActualCents a = crm_poolActualCents b"
    and "map (\<lambda>m. (cm_expectedCents m, cm_actualCents m, cm_state m)) (crm_members a)
       = map (\<lambda>m. (cm_expectedCents m, cm_actualCents m, cm_state m)) (crm_members b)"
  shows "redactForPrompt a = redactForPrompt b
    \<and> coachingInsight key fetch json_parse a = coachingInsight key fetch json_parse b
    \<and> (fetch (redactForPrompt a) = None \<longrightarrow> coachingInsight key fetch json_parse a = buildFallbackInsight b)
    \<and> ci_suggestions (buildFallbackInsight a) \<noteq> []"
proof -
  let ?figures = "map (\<lambda>m. (cm_expectedCents m, cm_actualCents m, cm_state m))"
  have len: "length (crm_members a) = length (crm_members b)" by (rule map_eq_imp_length_eq [OF assms(4)])
  have shown: "map (\<lambda>(i, m). JObj [(''member'', JStr (''member_'' @ show_nat (i + 1))),
        (''expected'', JStr (show_int (cm_expectedCents m))), (''actual'', JStr (show_int (cm_actualCents m))),
        (''state'', state_json (cm_state m))]) (zip is ms)
      = map (\<lambda>(i, e, c, q). JObj [(''member'', JStr (''member_'' @ show_nat (i + 1))),
        (''expected'', JStr (show_int e)), (''actual'', JStr (show_int c)), (''state'', state_json q)])
        (zip is (?figures ms))" for "is" ms
    by (simp add: zip_map2 case_prod_unfold comp_def)
  have "redactForPrompt a = redactForPrompt b"
    unfolding redactForPrompt_def shown assms len ..
  moreover have "map (snd \<circ> snd) (?figures (crm_members a)) = map (snd \<circ> snd) (?figures (crm_members b))"
    by (simp only: assms(4))
  then have states: "map cm_state (crm_members a) = map cm_state (crm_members b)" by (simp add: comp_def)
  have behind: "length (filter (\<lambda>m. cm_state m = BEHIND) ms) = length (filter (\<lambda>q. q = BEHIND) (map cm_state ms))"
    for ms :: "coaching_member list" by (simp add: filter_map comp_def)
  have "length (filter (\<lambda>m. cm_state m = BEHIND) (crm_members a))
      = length (filter (\<lambda>m. cm_state m = BEHIND) (crm_members b))"
    unfolding behind states ..
  then have "buildFallbackInsight a = buildFallbackInsight b"
    using assms(2,3) by (simp add: buildFallbackInsight_def)
  moreover have "ci_suggestions (buildFallbackInsight a) \<noteq> []"
    by (simp add: buildFallbackInsight_def Let_def)
  ultimately show ?thesis by (simp add: coachingInsight_def Let_def)
qed

theorem coaching_advice_witness:
  "redactForPrompt (demo_model ''p'' ''a'') = redactForPrompt (demo_model ''q'' ''b'')
    \<and> ci_suggestions (buildFallbackInsight (demo_model ''p'' ''a'')) \<noteq> []"
proof -
  have same: "crm_baseCurrency (demo_model ''p'' ''a'') = crm_baseCurrency (demo_model ''q'' ''b'')"
    "crm_poolExpectedCents (demo_model ''p'' ''a'') = crm_poolExpectedCents (demo_model ''q'' ''b'')"
    "crm_poolActualCents (demo_model ''p'' ''a'') = crm_poolActualCents (demo_model ''q'' ''b'')"
    "map (\<lambda>m. (cm_expectedCents m, cm_actualCents m, cm_state m)) (crm_members (demo_model ''p'' ''a''))
       = map (\<lambda>m. (cm_expectedCents m, cm_actualCents m, cm_state m)) (crm_members (demo_model ''q'' ''b''))"
    by (simp_all add: demo_model_def)
  show ?thesis
    using coaching_advice [OF same, where key = None and fetch = "\<lambda>_. None" and json_parse = "\<lambda>_. None"] by simp
qed

end
