(* ===== verification/ElementsRead.thy ===== *)
theory ElementsRead
  imports ProfilesRead ElementsRuns Pagination
begin

section \<open>Reading shared elements\<close>

text \<open>
  \<open>src/apps/api/src/modules/shared-elements/interface/shared-elements.read.ts\<close> and the object types of
  \<open>dto/shared-element.types.ts\<close>: the lists of a profile's goals, debts, investments and budgets and the
  single entities that shape the results of mutations. A responsibility whose member or user is gone has
  no membership.
\<close>

subsection \<open>Object types\<close>

record goal_dto =
  gd_id :: uuid
  gd_name :: string
  gd_targetAmount :: money
  gd_fundedAmount :: money
  gd_version :: int

record responsibility_dto =
  rp_id :: uuid
  rp_membership :: "membership_dto option"
  rp_percentageBp :: int

record debt_dto =
  dd_id :: uuid
  dd_kind :: shared_debt_kind
  dd_name :: string
  dd_outstandingBalance :: money
  dd_responsibilities :: "responsibility_dto list"
  dd_version :: int

record investment_dto =
  id_id :: uuid
  id_name :: string
  id_currentValue :: money
  id_valueAsOf :: instant
  id_version :: int

record budget_dto =
  bd_id :: uuid
  bd_category :: string
  bd_limit :: money
  bd_spent :: money
  bd_remaining :: money
  bd_periodId :: uuid
  bd_version :: int

subsection \<open>Mappers\<close>

definition mapGoal :: "string \<Rightarrow> goal_row \<Rightarrow> goal_dto result" where
  "mapGoal cur g =
     result_bind (fromCents (goal_targetAmount g) cur) (\<lambda>target.
     result_bind (fromCents (goal_fundedAmount g) cur) (\<lambda>funded.
       Ok \<lparr>gd_id = goal_id g, gd_name = goal_name g, gd_targetAmount = target, gd_fundedAmount = funded,
           gd_version = goal_version g\<rparr>))"

definition mapInvestment :: "string \<Rightarrow> investment_row \<Rightarrow> investment_dto result" where
  "mapInvestment cur i =
     result_bind (fromCents (inv_currentValue i) cur) (\<lambda>v.
       Ok \<lparr>id_id = inv_id i, id_name = inv_name i, id_currentValue = v, id_valueAsOf = inv_valueAsOf i,
           id_version = inv_version i\<rparr>)"

definition mapBudget :: "string \<Rightarrow> budget_row \<Rightarrow> budget_dto result" where
  "mapBudget cur b =
     result_bind (fromCents (bud_limit b) cur) (\<lambda>limit.
     result_bind (fromCents (bud_spent b) cur) (\<lambda>spent.
     result_bind (fromCents (remainingCents (bud_limit b) (bud_spent b)) cur) (\<lambda>remaining.
       Ok \<lparr>bd_id = bud_id b, bd_category = bud_category b, bd_limit = limit, bd_spent = spent,
           bd_remaining = remaining, bd_periodId = bud_periodId b, bd_version = bud_version b\<rparr>)))"

definition responsibility_shown :: "string \<Rightarrow> db \<Rightarrow> responsibility_row \<Rightarrow> responsibility_dto result" where
  "responsibility_shown cur g r =
     (case findMembershipById (resp_membershipId r) g of
        None \<Rightarrow> Ok \<lparr>rp_id = resp_id r, rp_membership = None, rp_percentageBp = resp_percentageBp r\<rparr>
      | Some member \<Rightarrow>
          (case findUser (m_userId member) g of
             None \<Rightarrow> Ok \<lparr>rp_id = resp_id r, rp_membership = None, rp_percentageBp = resp_percentageBp r\<rparr>
           | Some user \<Rightarrow> result_map (\<lambda>d.
               \<lparr>rp_id = resp_id r, rp_membership = Some d, rp_percentageBp = resp_percentageBp r\<rparr>)
               (mapMembership member (Some user) cur)))"

definition assembleDebt :: "string \<Rightarrow> db \<Rightarrow> debt_row \<Rightarrow> debt_dto result" where
  "assembleDebt cur g debt =
     result_bind (fromCents (debt_outstandingBalance debt) cur) (\<lambda>balance.
     result_bind (map_results (responsibility_shown cur g) (listResponsibilities (debt_id debt) g)) (\<lambda>rs.
       Ok \<lparr>dd_id = debt_id debt, dd_kind = debt_kind debt, dd_name = debt_name debt, dd_outstandingBalance = balance,
           dd_responsibilities = rs, dd_version = debt_version debt\<rparr>))"

definition currencyOf :: "uuid \<Rightarrow> db \<Rightarrow> string" where
  "currencyOf sp g = currency_or_default (findSharedProfile sp g)"

subsection \<open>Lists\<close>

text \<open>By identifier, a page at a time; a cursor names a goal of the profile.\<close>

definition goalsForProfile_tx :: "uuid \<Rightarrow> string \<Rightarrow> page_args \<Rightarrow> db \<Rightarrow> goal_dto list result" where
  "goalsForProfile_tx sp cur page g =
     map_results (mapGoal cur) (findPage goal_id (prismaPage page)
       (sort_key goal_id (filter (\<lambda>r. goal_sharedProfileId r = sp) (sharedGoals g))))"

definition goalsForProfile :: "tenant_principal \<Rightarrow> uuid \<Rightarrow> string \<Rightarrow> page_args \<Rightarrow> db \<Rightarrow> goal_dto list result \<times> db" where
  "goalsForProfile p sp cur page = withTenant (pr_tenantId p) (reading (goalsForProfile_tx sp cur page))"

definition read_debtsForProfile_tx :: "uuid \<Rightarrow> string \<Rightarrow> db \<Rightarrow> debt_dto list result" where
  "read_debtsForProfile_tx sp cur g = map_results (assembleDebt cur g) (debtsForProfile sp g)"

definition read_debtsForProfile :: "tenant_principal \<Rightarrow> uuid \<Rightarrow> string \<Rightarrow> db \<Rightarrow> debt_dto list result \<times> db" where
  "read_debtsForProfile p sp cur = withTenant (pr_tenantId p) (reading (read_debtsForProfile_tx sp cur))"

definition investmentsForProfile_tx :: "uuid \<Rightarrow> string \<Rightarrow> db \<Rightarrow> investment_dto list result" where
  "investmentsForProfile_tx sp cur g =
     map_results (mapInvestment cur) (filter (\<lambda>r. inv_sharedProfileId r = sp) (sharedInvestments g))"

definition investmentsForProfile :: "tenant_principal \<Rightarrow> uuid \<Rightarrow> string \<Rightarrow> db \<Rightarrow> investment_dto list result \<times> db" where
  "investmentsForProfile p sp cur = withTenant (pr_tenantId p) (reading (investmentsForProfile_tx sp cur))"

definition budgetsForProfile_tx :: "uuid \<Rightarrow> string \<Rightarrow> db \<Rightarrow> budget_dto list result" where
  "budgetsForProfile_tx sp cur g =
     map_results (mapBudget cur) (filter (\<lambda>r. bud_sharedProfileId r = sp) (sharedBudgets g))"

definition budgetsForProfile :: "tenant_principal \<Rightarrow> uuid \<Rightarrow> string \<Rightarrow> db \<Rightarrow> budget_dto list result \<times> db" where
  "budgetsForProfile p sp cur = withTenant (pr_tenantId p) (reading (budgetsForProfile_tx sp cur))"

subsection \<open>Single entities\<close>

definition goalById_tx :: "uuid \<Rightarrow> db \<Rightarrow> goal_dto result" where
  "goalById_tx i g = (case findGoal i g of
      None \<Rightarrow> Thrown GenericError | Some r \<Rightarrow> mapGoal (currencyOf (goal_sharedProfileId r) g) r)"

definition goalById :: "tenant_principal \<Rightarrow> uuid \<Rightarrow> db \<Rightarrow> goal_dto result \<times> db" where
  "goalById p i = withTenant (pr_tenantId p) (reading (goalById_tx i))"

definition debtById_tx :: "uuid \<Rightarrow> db \<Rightarrow> debt_dto result" where
  "debtById_tx i g = (case findDebt i g of
      None \<Rightarrow> Thrown GenericError | Some r \<Rightarrow> assembleDebt (currencyOf (debt_sharedProfileId r) g) g r)"

definition debtById :: "tenant_principal \<Rightarrow> uuid \<Rightarrow> db \<Rightarrow> debt_dto result \<times> db" where
  "debtById p i = withTenant (pr_tenantId p) (reading (debtById_tx i))"

definition investmentById_tx :: "uuid \<Rightarrow> db \<Rightarrow> investment_dto result" where
  "investmentById_tx i g = (case findInvestment i g of
      None \<Rightarrow> Thrown GenericError | Some r \<Rightarrow> mapInvestment (currencyOf (inv_sharedProfileId r) g) r)"

definition investmentById :: "tenant_principal \<Rightarrow> uuid \<Rightarrow> db \<Rightarrow> investment_dto result \<times> db" where
  "investmentById p i = withTenant (pr_tenantId p) (reading (investmentById_tx i))"

definition budgetById_tx :: "uuid \<Rightarrow> db \<Rightarrow> budget_dto result" where
  "budgetById_tx i g = (case findBudget i g of
      None \<Rightarrow> Thrown GenericError | Some r \<Rightarrow> mapBudget (currencyOf (bud_sharedProfileId r) g) r)"

definition budgetById :: "tenant_principal \<Rightarrow> uuid \<Rightarrow> db \<Rightarrow> budget_dto result \<times> db" where
  "budgetById p i = withTenant (pr_tenantId p) (reading (budgetById_tx i))"

end
