(* ===== verification/PubSub.thy ===== *)
theory PubSub
  imports Prelude "HOL-Library.Sublist"
begin

section \<open>Publish and subscribe\<close>

text \<open>
  \<open>src/apps/api/src/common/pubsub/pubsub.service.ts\<close>: the in-process bus behind the GraphQL
  subscriptions. A subscription is the closure of one \<open>asyncIterator\<close> call: the queue of what
  it has not handed out, the promise that waits for the next value (named by a number), and whether it
  is closed. The bus is the list of all subscriptions ever made; a channel's set of listeners are the
  open ones with its trigger, in the order of subscription. The effect of an operation on promises is
  its output.
\<close>

subsection \<open>The bus\<close>

record 'a subscription =
  sub_trigger :: string
  sub_queue :: "'a list"
  sub_pending :: "nat option"
  sub_closed :: bool

type_synonym 'a bus = "'a subscription list"

text \<open>What a promise settles to.\<close>

datatype 'a settled = NextValue 'a | NextDone

record 'a settlement =
  se_subscriber :: nat
  se_promise :: nat
  se_outcome :: "'a settled"

text \<open>The listener of one subscription; an open one either settles its waiting promise or queues.\<close>

definition hear :: "'a \<Rightarrow> nat \<Rightarrow> 'a subscription \<Rightarrow> 'a subscription \<times> 'a settlement list" where
  "hear v i q =
     (if sub_closed q then (q, [])
      else case sub_pending q of
          Some n \<Rightarrow> (q\<lparr>sub_pending := None\<rparr>, [\<lparr>se_subscriber = i, se_promise = n, se_outcome = NextValue v\<rparr>])
        | None \<Rightarrow> (q\<lparr>sub_queue := sub_queue q @ [v]\<rparr>, []))"

fun publish_from :: "string \<Rightarrow> 'a \<Rightarrow> nat \<Rightarrow> 'a bus \<Rightarrow> 'a bus \<times> 'a settlement list" where
  "publish_from trigger v i [] = ([], [])"
| "publish_from trigger v i (q # qs) =
     (let (q', out) = (if sub_trigger q = trigger then hear v i q else (q, []));
          (qs', out') = publish_from trigger v (Suc i) qs
      in (q' # qs', out @ out'))"

definition bus_publish :: "string \<Rightarrow> 'a \<Rightarrow> 'a bus \<Rightarrow> 'a bus \<times> 'a settlement list" where
  "bus_publish trigger v b = publish_from trigger v 0 b"

definition asyncIterator :: "string \<Rightarrow> 'a bus \<Rightarrow> nat \<times> 'a bus" where
  "asyncIterator trigger b =
     (length b, b @ [\<lparr>sub_trigger = trigger, sub_queue = [], sub_pending = None, sub_closed = False\<rparr>])"

text \<open>\<open>next\<close> as promise \<open>n\<close>: a promise that already waits is replaced.\<close>

definition bus_next :: "nat \<Rightarrow> nat \<Rightarrow> 'a bus \<Rightarrow> 'a bus \<times> 'a settlement list" where
  "bus_next i n b =
     (case sub_queue (b ! i) of
        v # vs \<Rightarrow> (b[i := (b ! i)\<lparr>sub_queue := vs\<rparr>], [\<lparr>se_subscriber = i, se_promise = n, se_outcome = NextValue v\<rparr>])
      | [] \<Rightarrow>
          if sub_closed (b ! i) then (b, [\<lparr>se_subscriber = i, se_promise = n, se_outcome = NextDone\<rparr>])
          else (b[i := (b ! i)\<lparr>sub_pending := Some n\<rparr>], []))"

text \<open>\<open>return\<close> and \<open>throw\<close> detach alike; what waits or is queued stays as it is.\<close>

definition bus_detach :: "nat \<Rightarrow> 'a bus \<Rightarrow> 'a bus" where
  "bus_detach i b = b[i := (b ! i)\<lparr>sub_closed := True\<rparr>]"

subsection \<open>Runs\<close>

datatype 'a bus_op = Publish string 'a | Subscribe string | Next nat nat | Detach nat

fun bus_step :: "'a bus_op \<Rightarrow> 'a bus \<Rightarrow> 'a bus \<times> 'a settlement list" where
  "bus_step (Publish t v) b = bus_publish t v b"
| "bus_step (Subscribe t) b = (snd (asyncIterator t b), [])"
| "bus_step (Next i n) b = (if i < length b then bus_next i n b else (b, []))"
| "bus_step (Detach i) b = (if i < length b then bus_detach i b else b, [])"

fun bus_run :: "'a bus_op list \<Rightarrow> 'a bus \<times> 'a settlement list \<Rightarrow> 'a bus \<times> 'a settlement list" where
  "bus_run [] s = s"
| "bus_run (x # xs) (b, out) = (case bus_step x b of (b', out') \<Rightarrow> bus_run xs (b', out @ out'))"

text \<open>What subscriber \<open>i\<close> was handed, and what was published to it from its subscription on.\<close>

definition handed :: "nat \<Rightarrow> 'a settlement list \<Rightarrow> 'a list" where
  "handed i out = List.map_filter (\<lambda>x. case se_outcome x of NextValue v \<Rightarrow> if se_subscriber x = i then Some v else None
      | NextDone \<Rightarrow> None) out"

fun after_subscribe :: "nat \<Rightarrow> 'a bus_op list \<Rightarrow> (string \<times> 'a bus_op list) option" where
  "after_subscribe i [] = None"
| "after_subscribe 0 (Subscribe t # xs) = Some (t, xs)"
| "after_subscribe (Suc i) (Subscribe t # xs) = after_subscribe i xs"
| "after_subscribe i (x # xs) = after_subscribe i xs"

fun published :: "string \<Rightarrow> 'a bus_op list \<Rightarrow> 'a list" where
  "published t [] = []"
| "published t (Publish u v # xs) = (if u = t then v # published t xs else published t xs)"
| "published t (x # xs) = published t xs"

definition meant_for :: "nat \<Rightarrow> 'a bus_op list \<Rightarrow> 'a list" where
  "meant_for i ops = (case after_subscribe i ops of None \<Rightarrow> [] | Some (t, xs) \<Rightarrow> published t xs)"

subsection \<open>One operation at a time\<close>

lemma handed_simps [simp]:
  "handed i [] = []" "handed i (xs @ ys) = handed i xs @ handed i ys"
  "handed i [\<lparr>se_subscriber = j, se_promise = n, se_outcome = NextValue v\<rparr>] = (if j = i then [v] else [])"
  "handed i [\<lparr>se_subscriber = j, se_promise = n, se_outcome = NextDone\<rparr>] = []"
  by (simp_all add: handed_def List.map_filter_def)

lemma bus_run_snoc: "bus_run (xs @ [x]) s = (case bus_run xs s of (b, out) \<Rightarrow> case bus_step x b of (b', out') \<Rightarrow> (b', out @ out'))"
proof (induction xs arbitrary: s)
  case Nil
  then show ?case by (cases s) auto
next
  case (Cons y ys)
  then show ?case by (cases s) (auto split: prod.splits)
qed

definition hears :: "string \<Rightarrow> 'a subscription \<Rightarrow> bool" where
  "hears t q \<longleftrightarrow> sub_trigger q = t \<and> \<not> sub_closed q"

lemma publish_from_Cons:
  "fst (publish_from t v k (q # qs)) = (if sub_trigger q = t then fst (hear v k q) else q) # fst (publish_from t v (Suc k) qs)"
  "snd (publish_from t v k (q # qs)) = (if sub_trigger q = t then snd (hear v k q) else []) @ snd (publish_from t v (Suc k) qs)"
  by (simp_all add: Let_def case_prod_unfold)

lemma publish_from_length [simp]: "length (fst (publish_from t v k qs)) = length qs"
proof (induction qs arbitrary: k)
  case (Cons q qs)
  then show ?case by (simp only: publish_from_Cons list.size)
qed simp

lemma publish_from_nth:
  "i < length qs \<Longrightarrow> fst (publish_from t v k qs) ! i =
     (if hears t (qs ! i)
      then if sub_pending (qs ! i) = None then (qs ! i)\<lparr>sub_queue := sub_queue (qs ! i) @ [v]\<rparr>
           else (qs ! i)\<lparr>sub_pending := None\<rparr>
      else qs ! i)"
proof (induction qs arbitrary: i k)
  case (Cons q qs)
  show ?case
  proof (cases i)
    case 0
    then show ?thesis
      unfolding publish_from_Cons by (auto simp: hear_def hears_def split: option.splits)
  next
    case (Suc j)
    then show ?thesis
      using Cons.prems Cons.IH [of j "Suc k"] unfolding publish_from_Cons by simp
  qed
qed simp

lemma handed_hear: "handed i (snd (hear v j q)) = (if j = i \<and> \<not> sub_closed q \<and> sub_pending q \<noteq> None then [v] else [])"
  by (auto simp: hear_def split: option.splits)

lemma publish_from_handed:
  "handed i (snd (publish_from t v k qs)) =
     (if k \<le> i \<and> i < k + length qs \<and> hears t (qs ! (i - k)) \<and> sub_pending (qs ! (i - k)) \<noteq> None then [v] else [])"
proof (induction qs arbitrary: k)
  case (Cons q qs)
  show ?case
    unfolding publish_from_Cons using Cons.IH [of "Suc k"]
    by (cases "i = k") (auto simp: handed_hear hears_def nth_Cons' Suc_diff_Suc)
qed simp

text \<open>How the bus and the values meant for a subscriber grow together.\<close>

fun opens :: "'a bus_op list \<Rightarrow> nat" where
  "opens [] = 0"
| "opens (Subscribe t # xs) = Suc (opens xs)"
| "opens (x # xs) = opens xs"

lemma opens_snoc [simp]: "opens (xs @ [x]) = opens xs + (case x of Subscribe t \<Rightarrow> 1 | _ \<Rightarrow> 0)"
  by (induction xs rule: opens.induct) (auto split: bus_op.splits)

lemma after_subscribe_snoc:
  "after_subscribe i (xs @ [x]) =
     (case after_subscribe i xs of
        Some (t, ys) \<Rightarrow> Some (t, ys @ [x])
      | None \<Rightarrow> (case x of Subscribe t \<Rightarrow> if i = opens xs then Some (t, []) else None | _ \<Rightarrow> None))"
proof (induction i xs rule: after_subscribe.induct)
  case (1 i)
  then show ?case by (cases i; cases x) simp_all
qed (auto split: bus_op.splits option.splits)

lemma after_subscribe_unknown: "opens xs \<le> i \<Longrightarrow> after_subscribe i xs = None"
  by (induction i xs rule: after_subscribe.induct) auto

lemma published_snoc: "published t (xs @ [x]) = published t xs @ (case x of Publish u v \<Rightarrow> if u = t then [v] else [] | _ \<Rightarrow> [])"
  by (induction t xs rule: published.induct) (auto split: bus_op.splits)

subsection \<open>The bus as a set of queues\<close>

text \<open>
  The specification: each subscription is the sequence of the values published to its trigger since it
  was made, split into what it was handed and what is queued; a closed one has stopped listening.
\<close>

definition sub_ok :: "nat \<Rightarrow> 'a bus_op list \<Rightarrow> 'a settlement list \<Rightarrow> 'a subscription \<Rightarrow> bool" where
  "sub_ok i ops out q \<longleftrightarrow> (\<exists>ys. after_subscribe i ops = Some (sub_trigger q, ys)
     \<and> (sub_pending q \<noteq> None \<longrightarrow> sub_queue q = [])
     \<and> prefix (handed i out @ sub_queue q) (published (sub_trigger q) ys)
     \<and> (\<not> sub_closed q \<longrightarrow> handed i out @ sub_queue q = published (sub_trigger q) ys))"

definition bus_ok :: "'a bus_op list \<Rightarrow> 'a bus \<Rightarrow> 'a settlement list \<Rightarrow> bool" where
  "bus_ok ops b out \<longleftrightarrow> length b = opens ops \<and> (\<forall>i < length b. sub_ok i ops out (b ! i))
     \<and> (\<forall>i \<ge> length b. handed i out = [])"

text \<open>An operation that publishes nothing and adds no subscription.\<close>

lemma sub_ok_silent:
  assumes "sub_ok i ops out q" and "\<And>t v. x \<noteq> Publish t v" and "handed i out' @ sub_queue q' = sub_queue q"
    and "sub_trigger q' = sub_trigger q" and "sub_pending q' \<noteq> None \<longrightarrow> sub_queue q' = []"
    and "sub_closed q \<longrightarrow> sub_closed q'"
  shows "sub_ok i (ops @ [x]) (out @ out') q'"
proof -
  obtain ys where ys: "after_subscribe i ops = Some (sub_trigger q, ys)"
    "prefix (handed i out @ sub_queue q) (published (sub_trigger q) ys)"
    "\<not> sub_closed q \<longrightarrow> handed i out @ sub_queue q = published (sub_trigger q) ys"
    using assms(1) by (auto simp: sub_ok_def)
  have "published (sub_trigger q) (ys @ [x]) = published (sub_trigger q) ys"
    using assms(2) by (cases x) (auto simp: published_snoc)
  then show ?thesis
    using assms(3-6) ys by (auto simp: sub_ok_def after_subscribe_snoc)
qed

lemma sub_ok_pending: "sub_ok i ops out q \<Longrightarrow> sub_pending q \<noteq> None \<longrightarrow> sub_queue q = []"
  by (auto simp: sub_ok_def)

lemma sub_ok_publish:
  assumes "sub_ok i ops out q" and "handed i out' = (if hears t q \<and> sub_pending q \<noteq> None then [v] else [])"
  shows "sub_ok i (ops @ [Publish t v]) (out @ out')
    (if hears t q then if sub_pending q = None then q\<lparr>sub_queue := sub_queue q @ [v]\<rparr> else q\<lparr>sub_pending := None\<rparr> else q)"
proof -
  obtain ys where ys: "after_subscribe i ops = Some (sub_trigger q, ys)" "sub_pending q \<noteq> None \<longrightarrow> sub_queue q = []"
    "prefix (handed i out @ sub_queue q) (published (sub_trigger q) ys)"
    "\<not> sub_closed q \<longrightarrow> handed i out @ sub_queue q = published (sub_trigger q) ys"
    using assms(1) by (auto simp: sub_ok_def)
  have pub: "published (sub_trigger q) (ys @ [Publish t v]) = published (sub_trigger q) ys @ (if t = sub_trigger q then [v] else [])"
    by (simp add: published_snoc)
  show ?thesis
  proof (cases "hears t q")
    case True
    then have "handed i out @ sub_queue q = published (sub_trigger q) ys" "sub_trigger q = t" "\<not> sub_closed q"
      using ys(4) by (simp_all add: hears_def)
    then show ?thesis
      using True ys(1,2) pub assms(2)
      by (cases "sub_pending q") (simp_all add: sub_ok_def after_subscribe_snoc)
  next
    case False
    then show ?thesis
      using ys pub assms(2) by (auto simp: sub_ok_def after_subscribe_snoc hears_def)
  qed
qed

lemma bus_ok_step:
  assumes "bus_ok ops b out" and step: "bus_step x b = (b', out')"
  shows "bus_ok (ops @ [x]) b' (out @ out')"
proof (cases x)
  case (Publish t v)
  have b': "b' = fst (publish_from t v 0 b)" and out': "out' = snd (publish_from t v 0 b)"
    using step by (simp_all add: Publish bus_publish_def)
  have "sub_ok i (ops @ [x]) (out @ out') (b' ! i)" if "i < length b" for i
    using sub_ok_publish [of i ops out "b ! i" out' t v] assms(1) that
    by (simp add: bus_ok_def b' out' Publish publish_from_nth publish_from_handed)
  then show ?thesis
    using assms(1) by (auto simp: bus_ok_def b' out' Publish publish_from_handed)
next
  case (Subscribe t)
  have s: "b' = b @ [\<lparr>sub_trigger = t, sub_queue = [], sub_pending = None, sub_closed = False\<rparr>]" "out' = []"
    using step by (simp_all add: Subscribe asyncIterator_def)
  have "sub_ok i (ops @ [x]) (out @ out') (b' ! i)" if "i < length b" for i
  proof -
    have ok: "sub_ok i ops out (b ! i)" using assms(1) that by (simp add: bus_ok_def)
    with sub_ok_silent [OF ok, of x "[]" "b ! i"] sub_ok_pending [OF ok] that show ?thesis by (simp add: s Subscribe nth_append)
  qed
  moreover have "sub_ok (length b) (ops @ [x]) (out @ out') (b' ! length b)"
  proof -
    have "b' ! length b = \<lparr>sub_trigger = t, sub_queue = [], sub_pending = None, sub_closed = False\<rparr>" by (simp add: s)
    then show ?thesis
      using assms(1) after_subscribe_unknown [of ops "length b"]
      by (simp add: bus_ok_def sub_ok_def s(2) Subscribe after_subscribe_snoc)
  qed
  ultimately have "\<forall>i < length b'. sub_ok i (ops @ [x]) (out @ out') (b' ! i)"
    by (auto simp: s(1) less_Suc_eq simp del: nth_append_length)
  with assms(1) show ?thesis by (simp add: bus_ok_def s Subscribe)
next
  case (Next j n)
  have "sub_ok i (ops @ [x]) (out @ out') (b' ! i)" if "i < length b" for i
  proof -
    have ok: "sub_ok i ops out (b ! i)" using assms(1) that by (simp add: bus_ok_def)
    show ?thesis
      by (rule sub_ok_silent [OF ok])
        (use step that sub_ok_pending [OF ok] in \<open>auto simp: Next bus_next_def nth_list_update split: list.splits if_splits\<close>)
  qed
  moreover have "length b' = length b" using step by (auto simp: Next bus_next_def split: list.splits if_splits)
  moreover have "handed i out' = []" if "length b \<le> i" for i
    using step that by (auto simp: Next bus_next_def split: list.splits if_splits)
  ultimately show ?thesis using assms(1) by (auto simp: bus_ok_def Next)
next
  case (Detach j)
  have "sub_ok i (ops @ [x]) (out @ out') (b' ! i)" if "i < length b" for i
  proof -
    have ok: "sub_ok i ops out (b ! i)" using assms(1) that by (simp add: bus_ok_def)
    show ?thesis
      by (rule sub_ok_silent [OF ok])
        (use step that sub_ok_pending [OF ok] in \<open>auto simp: Detach bus_detach_def nth_list_update split: if_splits\<close>)
  qed
  then show ?thesis using assms(1) step by (auto simp: bus_ok_def Detach bus_detach_def split: if_splits)
qed

lemma bus_run_ok: "bus_run ops ([], []) = (b, out) \<Longrightarrow> bus_ok ops b out"
proof (induction ops arbitrary: b out rule: rev_induct)
  case Nil
  then show ?case by (simp add: bus_ok_def)
next
  case (snoc x xs)
  then show ?case by (auto simp: bus_run_snoc split: prod.splits intro: bus_ok_step)
qed

subsection \<open>Properties\<close>

text \<open>
  C23: subscribers hear everything once and in order. After any sequence of operations, what an open
  subscription has been handed, followed by its queue, is exactly the values published to its trigger
  since it subscribed; a closed one has a prefix of them; and a subscription with a value in its queue
  never keeps a promise waiting.
\<close>

theorem bus_delivers:
  assumes "bus_run ops ([], []) = (b, out)" and "i < length b"
  shows "prefix (handed i out @ sub_queue (b ! i)) (meant_for i ops)
    \<and> (sub_closed (b ! i) \<or> handed i out @ sub_queue (b ! i) = meant_for i ops)
    \<and> (sub_queue (b ! i) = [] \<or> sub_pending (b ! i) = None)"
  using bus_run_ok [OF assms(1)] assms(2) by (auto simp: bus_ok_def sub_ok_def meant_for_def)

theorem bus_delivers_witness:
  "\<exists>b out. bus_run [Subscribe ''a'', Publish ''a'' (1 :: int), Publish ''b'' 2, Next 0 7, Next 0 8, Publish ''a'' 3] ([], []) = (b, out)
     \<and> handed 0 out = [1, 3]"
proof -
  let ?ops = "[Subscribe ''a'', Publish ''a'' (1 :: int), Publish ''b'' 2, Next 0 7, Next 0 8, Publish ''a'' 3]"
  obtain b out where r: "bus_run ?ops ([], []) = (b, out)" by fastforce
  have h: "handed 0 out = [1, 3]" if "handed 0 out @ sub_queue (b ! 0) = meant_for 0 ?ops" "sub_queue (b ! 0) = []"
    using that by (simp add: meant_for_def)
  have b: "0 < length b" "sub_queue (b ! 0) = []" "\<not> sub_closed (b ! 0)"
    using r by (auto simp: bus_publish_def hear_def bus_next_def asyncIterator_def)
  have "handed 0 out @ sub_queue (b ! 0) = meant_for 0 ?ops"
    using bus_delivers [OF r b(1), THEN conjunct2, THEN conjunct1] b(3) by (simp only: simp_thms)
  from h [OF this b(2)] r show ?thesis by (intro exI conjI)
qed

end
