(* ===== verification/Gateway.thy ===== *)
theory Gateway
  imports Coaching ElementsRead PubSub Accounts Cache
begin

section \<open>The GraphQL gateway\<close>

text \<open>
  What stands around every resolver: the request context (\<open>common/graphql/graphql-context.ts\<close>), the
  answer with its error code (\<open>unwrap\<close> of a failed result, \<open>formatError\<close> in \<open>app.module.ts\<close>), the
  input shapes that the validation pipe of \<open>main.ts\<close> checks against the input classes, and the side
  effects of a contribution (\<open>contribution-events.ts\<close>). The state behind the API is the database, the
  cache and the bus of the subscriptions.
\<close>

subsection \<open>Context\<close>

text \<open>A header is absent, a value or several values.\<close>

datatype header = OneValue string | ManyValues "string list"

type_synonym http_request = "string \<Rightarrow> header option"

definition headerValue :: "http_request \<Rightarrow> string \<Rightarrow> string option" where
  "headerValue req name =
     (case req name of
        None \<Rightarrow> None
      | Some (OneValue v) \<Rightarrow> Some v
      | Some (ManyValues vs) \<Rightarrow> (case vs of [] \<Rightarrow> None | v # _ \<Rightarrow> Some v))"

text \<open>An absent or empty header leaves the request without a principal.\<close>

definition present :: "string option \<Rightarrow> string option" where
  "present v = (case v of Some (c # cs) \<Rightarrow> Some (c # cs) | _ \<Rightarrow> None)"

definition principalFromRequest :: "http_request \<Rightarrow> tenant_principal option" where
  "principalFromRequest req =
     (case (present (headerValue req ''x-tenant-id''), present (headerValue req ''x-user-id''),
            present (headerValue req ''x-auth-subject'')) of
        (Some t, Some u, Some a) \<Rightarrow> Some \<lparr>pr_tenantId = t, pr_userId = u, pr_authSubject = a\<rparr>
      | _ \<Rightarrow> None)"

record gql_context =
  ctx_principal :: "tenant_principal option"
  ctx_membership :: "request_membership option"

definition buildGraphQLContext :: "http_request \<Rightarrow> gql_context" where
  "buildGraphQLContext req = \<lparr>ctx_principal = principalFromRequest req, ctx_membership = None\<rparr>"

subsection \<open>Answers\<close>

datatype 'a answer = Data 'a | Rejected gql_error

text \<open>
  What Apollo reports for a value that left a resolver: its own code for a \<open>GraphQLError\<close>, the code
  of a \<open>DomainError\<close> through \<open>formatError\<close>, and otherwise the internal error.
\<close>

fun formatError :: "raised \<Rightarrow> gql_error" where
  "formatError (RaisedDomain e) = toGraphQLError (RaisedDomain e)"
| "formatError (RaisedGraphQL g) = g"
| "formatError (RaisedOther x) =
     \<lparr>gql_extension_code = TransportCode INTERNAL_SERVER_ERROR, gql_extension_details = None\<rparr>"

text \<open>The resolvers' \<open>unwrap\<close>: a failure is thrown as the GraphQL error it maps to.\<close>

fun unwrapped :: "'a result \<Rightarrow> 'a answer" where
  "unwrapped (Ok v) = Data v"
| "unwrapped (Err e) = Rejected (formatError (RaisedGraphQL (toGraphQLError (RaisedDomain e))))"
| "unwrapped (Thrown x) = Rejected (formatError (RaisedOther x))"

definition unauthenticated :: gql_error where
  "unauthenticated = \<lparr>gql_extension_code = TransportCode UNAUTHENTICATED, gql_extension_details = None\<rparr>"

definition principalOf :: "gql_context \<Rightarrow> tenant_principal answer" where
  "principalOf ctx = (case ctx_principal ctx of None \<Rightarrow> Rejected (formatError (RaisedGraphQL unauthenticated)) | Some p \<Rightarrow> Data p)"

text \<open>A null where the schema promises a value is an internal error.\<close>

definition non_null :: "'a option \<Rightarrow> 'a answer" where
  "non_null v = (case v of None \<Rightarrow> Rejected (formatError (RaisedOther TypeError)) | Some a \<Rightarrow> Data a)"

subsection \<open>The state and steps of a resolver\<close>

datatype live_update = PoolTotalChanged money | ContributionStandingChanged standing_dto

record 'c world =
  w_db :: db
  w_cache :: 'c
  w_bus :: "live_update bus"
  w_settled :: "live_update settlement list"

definition ask :: "'a answer \<Rightarrow> 'c world \<Rightarrow> ('a \<Rightarrow> 'b answer \<times> 'c world) \<Rightarrow> 'b answer \<times> 'c world" where
  "ask a w k = (case a of Data v \<Rightarrow> k v | Rejected e \<Rightarrow> (Rejected e, w))"

text \<open>\<open>unwrap(await ...)\<close> and \<open>await\<close> of a service method.\<close>

definition call :: "(db \<Rightarrow> 'a result \<times> db) \<Rightarrow> 'c world \<Rightarrow> ('a \<Rightarrow> 'c world \<Rightarrow> 'b answer \<times> 'c world) \<Rightarrow> 'b answer \<times> 'c world" where
  "call f w k = (case f (w_db w) of (r, g) \<Rightarrow> ask (unwrapped r) (w\<lparr>w_db := g\<rparr>) (\<lambda>v. k v (w\<lparr>w_db := g\<rparr>)))"

definition return_data :: "'a \<Rightarrow> 'c world \<Rightarrow> 'a answer \<times> 'c world" where
  "return_data v w = (Data v, w)"

subsection \<open>Live updates\<close>

definition poolTrigger :: "uuid \<Rightarrow> string" where
  "poolTrigger profileId = ''poolTotalChanged:'' @ profileId"

definition standingTrigger :: "uuid \<Rightarrow> string" where
  "standingTrigger profileId = ''contributionStandingChanged:'' @ profileId"

definition world_publish :: "string \<Rightarrow> live_update \<Rightarrow> 'c world \<Rightarrow> 'c world" where
  "world_publish trigger v w =
     (case bus_publish trigger v (w_bus w) of (b, out) \<Rightarrow> w\<lparr>w_bus := b, w_settled := w_settled w @ out\<rparr>)"

definition invalidate :: "'c redis_ops \<Rightarrow> string \<Rightarrow> uuid \<Rightarrow> 'c world \<Rightarrow> 'c world" where
  "invalidate R tenantId profileId w = w\<lparr>w_cache := invalidateProfile R tenantId profileId (w_cache w)\<rparr>"

definition publishPool :: "uuid \<Rightarrow> money \<Rightarrow> 'c world \<Rightarrow> 'c world" where
  "publishPool profileId pool w = world_publish (poolTrigger profileId) (PoolTotalChanged pool) w"

definition publishStanding :: "uuid \<Rightarrow> standing_dto \<Rightarrow> 'c world \<Rightarrow> 'c world" where
  "publishStanding profileId st w = world_publish (standingTrigger profileId) (ContributionStandingChanged st) w"

definition poolIterator :: "uuid \<Rightarrow> 'c world \<Rightarrow> nat \<times> 'c world" where
  "poolIterator profileId w =
     (case asyncIterator (poolTrigger profileId) (w_bus w) of (i, b) \<Rightarrow> (i, w\<lparr>w_bus := b\<rparr>))"

definition standingIterator :: "uuid \<Rightarrow> 'c world \<Rightarrow> nat \<times> 'c world" where
  "standingIterator profileId w =
     (case asyncIterator (standingTrigger profileId) (w_bus w) of (i, b) \<Rightarrow> (i, w\<lparr>w_bus := b\<rparr>))"

definition onContributionRecorded :: "'c redis_ops \<Rightarrow> string \<Rightarrow> uuid \<Rightarrow> money \<Rightarrow> standing_dto option \<Rightarrow> 'c world \<Rightarrow> 'c world" where
  "onContributionRecorded R tenantId profileId pool st w =
     (let w1 = invalidate R tenantId profileId w;
          w2 = publishPool profileId pool w1
      in case st of None \<Rightarrow> w2 | Some q \<Rightarrow> publishStanding profileId q w2)"

definition onAllocationSet :: "'c redis_ops \<Rightarrow> string \<Rightarrow> uuid \<Rightarrow> money \<Rightarrow> 'c world \<Rightarrow> 'c world" where
  "onAllocationSet R tenantId profileId pool w = publishPool profileId pool (invalidate R tenantId profileId w)"

definition onRedistributed :: "'c redis_ops \<Rightarrow> string \<Rightarrow> uuid \<Rightarrow> money \<Rightarrow> 'c world \<Rightarrow> 'c world" where
  "onRedistributed R tenantId profileId pool w = publishPool profileId pool (invalidate R tenantId profileId w)"

subsection \<open>Input shapes\<close>

definition is_letter :: "char \<Rightarrow> bool" where
  "is_letter c \<longleftrightarrow> (let n = (of_char c :: nat) in 65 \<le> n \<and> n \<le> 90 \<or> 97 \<le> n \<and> n \<le> 122)"

text \<open>\<open>/^[A-Za-z]{3}$/\<close>.\<close>

definition alpha3 :: "string \<Rightarrow> bool" where
  "alpha3 c \<longleftrightarrow> length c = 3 \<and> list_all is_letter c"

definition named :: "string \<Rightarrow> bool" where
  "named n \<longleftrightarrow> 1 \<le> length n \<and> length n \<le> 120"

definition valid_CreateSharedProfileInput :: "create_shared_profile_input \<Rightarrow> bool" where
  "valid_CreateSharedProfileInput i \<longleftrightarrow> named (in_name i) \<and> alpha3 (in_baseCurrency i)"

definition valid_InviteMemberInput :: "invite_member_input \<Rightarrow> bool" where
  "valid_InviteMemberInput i \<longleftrightarrow> iv_role i \<in> {ADMIN, CONTRIBUTOR, VIEWER}"

definition valid_CreatePersonalAccountInput :: "create_personal_account_input \<Rightarrow> bool" where
  "valid_CreatePersonalAccountInput i \<longleftrightarrow> named (cpa_name i) \<and> alpha3 (cpa_currency i)"

text \<open>\<open>@Min(0) @Max(10000)\<close> on a GraphQL \<open>Int\<close>.\<close>

definition valid_percentage :: "js_number \<Rightarrow> bool" where
  "valid_percentage bp = (case bp of IntegerNum n \<Rightarrow> 0 \<le> n \<and> n \<le> 10000 | NonIntegerNum _ \<Rightarrow> False)"

definition bad_input :: gql_error where
  "bad_input = \<lparr>gql_extension_code = TransportCode BAD_USER_INPUT, gql_extension_details = None\<rparr>"

definition checked :: "bool \<Rightarrow> 'c world \<Rightarrow> 'a answer \<times> 'c world \<Rightarrow> 'a answer \<times> 'c world" where
  "checked ok w k = (if ok then k else (Rejected bad_input, w))"

lemma upper_letter: "is_letter c \<Longrightarrow> is_upper_letter (upper_char c)"
  by (auto simp: is_letter_def is_upper_letter_def upper_char_def Let_def of_char_of)

lemma alpha3_wf: "alpha3 c \<Longrightarrow> wf_currency (toUpperCase c)"
  by (auto simp: alpha3_def wf_currency_def toUpperCase_def list_all_iff upper_letter)

end
