(* ===== verification/Telemetry.thy ===== *)
theory Telemetry
  imports Gateway
begin

section \<open>Telemetry of operations\<close>

text \<open>
  \<open>src/apps/api/src/common/observability\<close>: the interceptor around every resolver and the keys of its
  signals. The signals of OpenTelemetry and of the logger are recorded in lists; the clock readings at
  the start and the end are arguments.
\<close>

datatype operation_outcome = OutcomeOk | OutcomeError

text \<open>\<open>ATTR\<close>: the keys, here the fields, that spans, metrics and log lines share.\<close>

record operation_attributes =
  at_operationType :: string
  at_field :: string
  at_outcome :: operation_outcome

record operation_span =
  os_name :: string
  os_operationType :: string
  os_field :: string
  os_tenantId :: string
  os_error :: bool
  os_ended :: bool

record operation_log =
  ol_operationType :: string
  ol_field :: string
  ol_tenantId :: string
  ol_durationMs :: int
  ol_outcome :: operation_outcome

record signals =
  sg_spans :: "operation_span list"
  sg_operations :: "operation_attributes list"
  sg_durations :: "(int \<times> operation_attributes) list"
  sg_logs :: "operation_log list"

text \<open>Where a resolver stands: not in GraphQL, or a field of the named parent type.\<close>

datatype execution_context = OtherTransport | NoInfo | GraphQLField string string

definition operation_type :: "string \<Rightarrow> string" where
  "operation_type parent = (if parent = ''Query'' then ''query'' else ''mutation'')"

definition tenant_attribute :: "gql_context \<Rightarrow> string" where
  "tenant_attribute ctx = (case ctx_principal ctx of None \<Rightarrow> ''anonymous'' | Some p \<Rightarrow> pr_tenantId p)"

definition finish :: "string \<Rightarrow> string \<Rightarrow> string \<Rightarrow> int \<Rightarrow> operation_outcome \<Rightarrow> signals \<Rightarrow> signals" where
  "finish operationType field tenantId durationMs outcome t =
     (let attributes = \<lparr>at_operationType = operationType, at_field = field, at_outcome = outcome\<rparr>
      in t\<lparr>sg_operations := sg_operations t @ [attributes],
           sg_durations := sg_durations t @ [(durationMs, attributes)],
           sg_spans := sg_spans t @ [\<lparr>os_name = ''graphql.'' @ operationType @ '' '' @ field, os_operationType = operationType,
             os_field = field, os_tenantId = tenantId, os_error = (outcome = OutcomeError), os_ended = True\<rparr>],
           sg_logs := sg_logs t @ [\<lparr>ol_operationType = operationType, ol_field = field, ol_tenantId = tenantId,
             ol_durationMs = durationMs, ol_outcome = outcome\<rparr>]\<rparr>)"

definition intercept :: "execution_context \<Rightarrow> gql_context \<Rightarrow> int \<Rightarrow> int \<Rightarrow> ('w \<Rightarrow> 'a answer \<times> 'w) \<Rightarrow> 'w \<Rightarrow> signals
    \<Rightarrow> ('a answer \<times> 'w) \<times> signals" where
  "intercept place ctx startedAt endedAt handle w t =
     (case place of
        OtherTransport \<Rightarrow> (handle w, t)
      | NoInfo \<Rightarrow> (handle w, t)
      | GraphQLField parent field \<Rightarrow>
          if parent \<noteq> ''Query'' \<and> parent \<noteq> ''Mutation'' then (handle w, t)
          else (case handle w of
                  (a, w') \<Rightarrow>
                    ((a, w'), finish (operation_type parent) field (tenant_attribute ctx) (endedAt - startedAt)
                       (case a of Data _ \<Rightarrow> OutcomeOk | Rejected _ \<Rightarrow> OutcomeError) t)))"

subsection \<open>What the signals say\<close>

text \<open>The interceptor changes neither the answer nor the state.\<close>

lemma intercept_transparent: "fst (intercept place ctx s e handle w t) = handle w"
  by (simp add: intercept_def split: execution_context.splits prod.splits)

text \<open>
  A query or mutation leaves exactly one closed span, one count, one duration and one log line, which
  agree on type, field and outcome; the outcome is an error exactly for a rejected request. Nothing
  else leaves a signal.
\<close>

lemma finish_new: "finish operationType field tenantId d outcome t \<noteq> t"
proof
  assume "finish operationType field tenantId d outcome t = t"
  from arg_cong [OF this, of "\<lambda>u. length (sg_logs u)"] show False by (simp add: finish_def Let_def)
qed

lemma intercept_signals:
  assumes "intercept place ctx st en handle w t = ((a, w'), u)"
  shows "u = t \<or> (\<exists>sp at d l. sg_spans u = sg_spans t @ [sp] \<and> sg_operations u = sg_operations t @ [at]
      \<and> sg_durations u = sg_durations t @ [(d, at)] \<and> sg_logs u = sg_logs t @ [l]
      \<and> os_ended sp \<and> (os_error sp \<longleftrightarrow> (\<exists>e. a = Rejected e)) \<and> (at_outcome at = OutcomeError \<longleftrightarrow> os_error sp)
      \<and> ol_outcome l = at_outcome at \<and> os_field sp = at_field at \<and> ol_field l = at_field at \<and> os_tenantId sp = ol_tenantId l)"
    and "u \<noteq> t \<longleftrightarrow> (\<exists>field. place = GraphQLField ''Query'' field \<or> place = GraphQLField ''Mutation'' field)"
proof -
  show "u = t \<or> (\<exists>sp at d l. sg_spans u = sg_spans t @ [sp] \<and> sg_operations u = sg_operations t @ [at]
      \<and> sg_durations u = sg_durations t @ [(d, at)] \<and> sg_logs u = sg_logs t @ [l]
      \<and> os_ended sp \<and> (os_error sp \<longleftrightarrow> (\<exists>e. a = Rejected e)) \<and> (at_outcome at = OutcomeError \<longleftrightarrow> os_error sp)
      \<and> ol_outcome l = at_outcome at \<and> os_field sp = at_field at \<and> ol_field l = at_field at \<and> os_tenantId sp = ol_tenantId l)"
    using assms
    by (cases a; auto simp: intercept_def finish_def Let_def split: execution_context.splits if_splits prod.splits)
  show "u \<noteq> t \<longleftrightarrow> (\<exists>field. place = GraphQLField ''Query'' field \<or> place = GraphQLField ''Mutation'' field)"
    using assms finish_new [of _ _ _ _ _ t] finish_new [of _ _ _ _ _ t, symmetric]
    by (auto simp: intercept_def split: execution_context.splits if_splits prod.splits)
qed

end
