(* ===== verification/Resolvers.thy ===== *)
theory Resolvers
  imports Gateway
begin

section \<open>The resolvers\<close>

text \<open>
  The operations of the API as the resolver classes compose them: find the principal, run the use case,
  unwrap its result, read the answer back in transactions of their own, and tell the subscribers. The
  files are \<open>profiles.resolver.ts\<close>, \<open>contributions.resolver.ts\<close>, \<open>shared-elements.resolver.ts\<close>,
  \<open>accounts.resolver.ts\<close> and \<open>coaching.resolver.ts\<close> of the modules' \<open>interface\<close> directories. Where the
  input class has constraints, the validation pipe runs before the resolver. At the end the mutations
  and queries are one datatype of requests with one function that answers them.
\<close>

definition with_principal :: "gql_context \<Rightarrow> 'c world \<Rightarrow> (tenant_principal \<Rightarrow> 'a answer \<times> 'c world) \<Rightarrow> 'a answer \<times> 'c world" where
  "with_principal ctx w k = ask (principalOf ctx) w k"

subsection \<open>Profiles\<close>

definition resolve_me :: "gql_context \<Rightarrow> 'c world \<Rightarrow> user_dto answer \<times> 'c world" where
  "resolve_me ctx w = with_principal ctx w (\<lambda>p. call (me p) w return_data)"

definition resolve_sharedProfile :: "gql_context \<Rightarrow> uuid \<Rightarrow> 'c world \<Rightarrow> shared_profile_dto option answer \<times> 'c world" where
  "resolve_sharedProfile ctx i w = with_principal ctx w (\<lambda>p. call (sharedProfile p i) w return_data)"

definition resolve_myMemberships :: "gql_context \<Rightarrow> 'c world \<Rightarrow> membership_dto list answer \<times> 'c world" where
  "resolve_myMemberships ctx w = with_principal ctx w (\<lambda>p. call (myMemberships p) w return_data)"

definition resolve_members :: "shared_profile_dto \<Rightarrow> page_args \<Rightarrow> membership_dto list" where
  "resolve_members profile page = pageSlice md_id (sd_members profile) page"

definition shown_profile :: "tenant_principal \<Rightarrow> uuid \<Rightarrow> 'c world \<Rightarrow> shared_profile_dto answer \<times> 'c world" where
  "shown_profile p i w = call (sharedProfile p i) w (\<lambda>d w1. ask (non_null d) w1 (\<lambda>v. return_data v w1))"

definition resolve_createSharedProfile :: "gql_context \<Rightarrow> create_shared_profile_input \<Rightarrow> 'c world
    \<Rightarrow> shared_profile_dto answer \<times> 'c world" where
  "resolve_createSharedProfile ctx i w = checked (valid_CreateSharedProfileInput i) w
     (with_principal ctx w (\<lambda>p. call (createSharedProfile p i) w (\<lambda>created w1. shown_profile p (sp_id created) w1)))"

definition resolve_inviteMember :: "gql_context \<Rightarrow> invite_member_input \<Rightarrow> 'c world \<Rightarrow> membership_dto answer \<times> 'c world" where
  "resolve_inviteMember ctx i w = checked (valid_InviteMemberInput i) w
     (with_principal ctx w (\<lambda>p. call (inviteMember p i) w (\<lambda>m w1. call (membershipById p (m_id m)) w1 return_data)))"

definition resolve_acceptInvitation :: "gql_context \<Rightarrow> uuid \<Rightarrow> 'c world \<Rightarrow> membership_dto answer \<times> 'c world" where
  "resolve_acceptInvitation ctx i w = with_principal ctx w (\<lambda>p.
     call (acceptInvitation p i) w (\<lambda>m w1. call (membershipById p (m_id m)) w1 return_data))"

definition resolve_declineInvitation :: "gql_context \<Rightarrow> uuid \<Rightarrow> 'c world \<Rightarrow> membership_dto answer \<times> 'c world" where
  "resolve_declineInvitation ctx i w = with_principal ctx w (\<lambda>p.
     call (declineInvitation p i) w (\<lambda>m w1. call (membershipById p (m_id m)) w1 return_data))"

definition resolve_changeMemberRole :: "gql_context \<Rightarrow> uuid \<Rightarrow> member_role \<Rightarrow> int \<Rightarrow> 'c world
    \<Rightarrow> membership_dto answer \<times> 'c world" where
  "resolve_changeMemberRole ctx i role expectedVersion w = with_principal ctx w (\<lambda>p.
     call (changeMemberRole p i role expectedVersion) w (\<lambda>m w1. call (membershipById p (m_id m)) w1 return_data))"

definition resolve_leaveProfile :: "gql_context \<Rightarrow> uuid \<Rightarrow> 'c world \<Rightarrow> membership_dto answer \<times> 'c world" where
  "resolve_leaveProfile ctx i w = with_principal ctx w (\<lambda>p.
     call (leaveProfile p i) w (\<lambda>m w1. call (membershipById p (m_id m)) w1 return_data))"

definition resolve_nominateOwner :: "gql_context \<Rightarrow> uuid \<Rightarrow> uuid \<Rightarrow> 'c world \<Rightarrow> membership_dto answer \<times> 'c world" where
  "resolve_nominateOwner ctx sp nominee w = with_principal ctx w (\<lambda>p.
     call (nominateOwner_uc p sp nominee) w (\<lambda>m w1. call (membershipById p (m_id m)) w1 return_data))"

definition resolve_acceptOwnership :: "gql_context \<Rightarrow> uuid \<Rightarrow> 'c world \<Rightarrow> shared_profile_dto answer \<times> 'c world" where
  "resolve_acceptOwnership ctx sp w = with_principal ctx w (\<lambda>p.
     call (acceptOwnership_uc p sp) w (\<lambda>_ w1. shown_profile p sp w1))"

definition resolve_archiveProfile :: "gql_context \<Rightarrow> uuid \<Rightarrow> 'c world \<Rightarrow> shared_profile_dto answer \<times> 'c world" where
  "resolve_archiveProfile ctx sp w = with_principal ctx w (\<lambda>p.
     call (archiveProfile p sp) w (\<lambda>_ w1. shown_profile p sp w1))"

subsection \<open>Contributions\<close>

definition resolve_setDeclaredIncome :: "gql_context \<Rightarrow> set_declared_income_input \<Rightarrow> 'c world
    \<Rightarrow> membership_dto answer \<times> 'c world" where
  "resolve_setDeclaredIncome ctx i w = with_principal ctx w (\<lambda>p.
     call (setDeclaredIncome p i) w (\<lambda>_ w1. call (contributions_membershipById p (si_membershipId i)) w1 return_data))"

definition resolve_setAllocation :: "'c redis_ops \<Rightarrow> gql_context \<Rightarrow> set_allocation_input \<Rightarrow> 'c world
    \<Rightarrow> plan_dto answer \<times> 'c world" where
  "resolve_setAllocation R ctx i w = checked (valid_percentage (sa_percentageBp i)) w (with_principal ctx w (\<lambda>p.
     call (setAllocation p i) w (\<lambda>plan w1.
     call (poolTotalByProfileId p (sa_sharedProfileId i)) w1 (\<lambda>pool w2.
     let w3 = (case pool of None \<Rightarrow> w2
               | Some m \<Rightarrow> onAllocationSet R (pr_tenantId p) (sa_sharedProfileId i) m w2)
     in call (planDto p (plan_id plan)) w3 return_data))))"

definition resolve_recordContribution :: "'c redis_ops \<Rightarrow> gql_context \<Rightarrow> record_contribution_input \<Rightarrow> 'c world
    \<Rightarrow> record_dto answer \<times> 'c world" where
  "resolve_recordContribution R ctx i w = with_principal ctx w (\<lambda>p.
     call (recordContribution p i) w (\<lambda>r w1.
     call (poolTotalByProfileId p (rc_sharedProfileId i)) w1 (\<lambda>pool w2.
     call (standingByMembershipId p (rc_membershipId i)) w2 (\<lambda>st w3.
     let w4 = (case pool of None \<Rightarrow> w3
               | Some m \<Rightarrow> onContributionRecorded R (pr_tenantId p) (rc_sharedProfileId i) m st w3)
     in call (recordDto p (rec_id r)) w4 return_data))))"

text \<open>The allocations arrive as \<open>SetAllocationInput\<close>s; member and percentage are taken from each.\<close>

definition resolve_redistribute :: "'c redis_ops \<Rightarrow> gql_context \<Rightarrow> uuid \<Rightarrow> set_allocation_input list \<Rightarrow> 'c world
    \<Rightarrow> plan_dto answer \<times> 'c world" where
  "resolve_redistribute R ctx sp allocations w = with_principal ctx w (\<lambda>p.
     call (redistribute p sp (map (\<lambda>a. \<lparr>ra_membershipId = sa_membershipId a, ra_percentageBp = sa_percentageBp a\<rparr>) allocations)) w
       (\<lambda>plan w1.
     call (poolTotalByProfileId p sp) w1 (\<lambda>pool w2.
     let w3 = (case pool of None \<Rightarrow> w2 | Some m \<Rightarrow> onRedistributed R (pr_tenantId p) sp m w2)
     in call (planDto p (plan_id plan)) w3 return_data)))"

definition resolve_remainingAllocationPercentageBp :: "gql_context \<Rightarrow> 'c world \<Rightarrow> int answer \<times> 'c world" where
  "resolve_remainingAllocationPercentageBp ctx w = with_principal ctx w (\<lambda>p.
     call (remainingAllocationPercentageBp p) w return_data)"

definition resolve_poolTotal :: "gql_context \<Rightarrow> shared_profile_dto \<Rightarrow> uuid option \<Rightarrow> 'c world \<Rightarrow> money answer \<times> 'c world" where
  "resolve_poolTotal ctx profile periodId w = with_principal ctx w (\<lambda>p.
     call (poolTotal p (sd_id profile) (sd_baseCurrency profile) periodId) w return_data)"

definition resolve_contributionRecords :: "gql_context \<Rightarrow> shared_profile_dto \<Rightarrow> page_args \<Rightarrow> uuid option \<Rightarrow> 'c world
    \<Rightarrow> record_dto list answer \<times> 'c world" where
  "resolve_contributionRecords ctx profile page periodId w = with_principal ctx w (\<lambda>p.
     call (recordsForProfile p (sd_id profile) (sd_baseCurrency profile) page periodId) w return_data)"

definition resolve_currentPeriod :: "gql_context \<Rightarrow> shared_profile_dto \<Rightarrow> 'c world \<Rightarrow> period_dto option answer \<times> 'c world" where
  "resolve_currentPeriod ctx profile w = with_principal ctx w (\<lambda>p. call (currentPeriod p (sd_id profile)) w return_data)"

definition resolve_standing :: "gql_context \<Rightarrow> membership_dto \<Rightarrow> uuid option \<Rightarrow> 'c world
    \<Rightarrow> standing_dto option answer \<times> 'c world" where
  "resolve_standing ctx membership periodId w = with_principal ctx w (\<lambda>p.
     call (standing p membership periodId) w return_data)"

definition resolve_allocationPercentageBp :: "gql_context \<Rightarrow> membership_dto \<Rightarrow> 'c world \<Rightarrow> int option answer \<times> 'c world" where
  "resolve_allocationPercentageBp ctx membership w = with_principal ctx w (\<lambda>p.
     call (allocationPercentageBp p membership) w return_data)"

text \<open>The subscriptions ask for no principal.\<close>

definition resolve_poolTotalChanged :: "uuid \<Rightarrow> 'c world \<Rightarrow> nat \<times> 'c world" where
  "resolve_poolTotalChanged sp w = poolIterator sp w"

definition resolve_contributionStandingChanged :: "uuid \<Rightarrow> 'c world \<Rightarrow> nat \<times> 'c world" where
  "resolve_contributionStandingChanged sp w = standingIterator sp w"

subsection \<open>Shared elements\<close>

definition resolve_sharedGoals :: "gql_context \<Rightarrow> shared_profile_dto \<Rightarrow> page_args \<Rightarrow> 'c world \<Rightarrow> goal_dto list answer \<times> 'c world" where
  "resolve_sharedGoals ctx profile page w = with_principal ctx w (\<lambda>p.
     call (goalsForProfile p (sd_id profile) (sd_baseCurrency profile) page) w return_data)"

definition resolve_sharedDebts :: "gql_context \<Rightarrow> shared_profile_dto \<Rightarrow> 'c world \<Rightarrow> debt_dto list answer \<times> 'c world" where
  "resolve_sharedDebts ctx profile w = with_principal ctx w (\<lambda>p.
     call (read_debtsForProfile p (sd_id profile) (sd_baseCurrency profile)) w return_data)"

definition resolve_sharedInvestments :: "gql_context \<Rightarrow> shared_profile_dto \<Rightarrow> 'c world \<Rightarrow> investment_dto list answer \<times> 'c world" where
  "resolve_sharedInvestments ctx profile w = with_principal ctx w (\<lambda>p.
     call (investmentsForProfile p (sd_id profile) (sd_baseCurrency profile)) w return_data)"

definition resolve_sharedBudgets :: "gql_context \<Rightarrow> shared_profile_dto \<Rightarrow> 'c world \<Rightarrow> budget_dto list answer \<times> 'c world" where
  "resolve_sharedBudgets ctx profile w = with_principal ctx w (\<lambda>p.
     call (budgetsForProfile p (sd_id profile) (sd_baseCurrency profile)) w return_data)"

definition resolve_createSharedGoal :: "gql_context \<Rightarrow> uuid \<Rightarrow> string \<Rightarrow> cents \<Rightarrow> 'c world \<Rightarrow> goal_dto answer \<times> 'c world" where
  "resolve_createSharedGoal ctx sp name target w = with_principal ctx w (\<lambda>p.
     call (createSharedGoal p sp name target) w (\<lambda>goal w1. call (goalById p (goal_id goal)) w1 return_data))"

definition resolve_fundGoal :: "gql_context \<Rightarrow> uuid \<Rightarrow> cents \<Rightarrow> int \<Rightarrow> 'c world \<Rightarrow> goal_dto answer \<times> 'c world" where
  "resolve_fundGoal ctx i amount expectedVersion w = with_principal ctx w (\<lambda>p.
     call (fundGoal_uc p i amount expectedVersion) w (\<lambda>goal w1. call (goalById p (goal_id goal)) w1 return_data))"

definition resolve_createSharedDebt :: "gql_context \<Rightarrow> uuid \<Rightarrow> shared_debt_kind \<Rightarrow> string \<Rightarrow> cents \<Rightarrow> 'c world
    \<Rightarrow> debt_dto answer \<times> 'c world" where
  "resolve_createSharedDebt ctx sp kind name balance w = with_principal ctx w (\<lambda>p.
     call (createSharedDebt p sp kind name balance) w (\<lambda>debt w1. call (debtById p (debt_id debt)) w1 return_data))"

definition resolve_paySharedDebt :: "gql_context \<Rightarrow> uuid \<Rightarrow> cents \<Rightarrow> int \<Rightarrow> 'c world \<Rightarrow> debt_dto answer \<times> 'c world" where
  "resolve_paySharedDebt ctx i amount expectedVersion w = with_principal ctx w (\<lambda>p.
     call (paySharedDebt p i amount expectedVersion) w (\<lambda>debt w1. call (debtById p (debt_id debt)) w1 return_data))"

definition resolve_setDebtResponsibility :: "gql_context \<Rightarrow> uuid \<Rightarrow> uuid \<Rightarrow> js_number \<Rightarrow> int \<Rightarrow> 'c world
    \<Rightarrow> debt_dto answer \<times> 'c world" where
  "resolve_setDebtResponsibility ctx i m bp expectedVersion w = checked (valid_percentage bp) w (with_principal ctx w (\<lambda>p.
     call (setDebtResponsibility p i m bp expectedVersion) w (\<lambda>debt w1. call (debtById p (debt_id debt)) w1 return_data)))"

definition resolve_createSharedInvestment :: "gql_context \<Rightarrow> uuid \<Rightarrow> string \<Rightarrow> cents \<Rightarrow> 'c world
    \<Rightarrow> investment_dto answer \<times> 'c world" where
  "resolve_createSharedInvestment ctx sp name v w = with_principal ctx w (\<lambda>p.
     call (createInvestment p sp name v) w (\<lambda>i w1. call (investmentById p (inv_id i)) w1 return_data))"

definition resolve_updateInvestmentValue :: "gql_context \<Rightarrow> uuid \<Rightarrow> cents \<Rightarrow> int \<Rightarrow> 'c world
    \<Rightarrow> investment_dto answer \<times> 'c world" where
  "resolve_updateInvestmentValue ctx i v expectedVersion w = with_principal ctx w (\<lambda>p.
     call (updateInvestmentValue_uc p i v expectedVersion) w (\<lambda>r w1. call (investmentById p (inv_id r)) w1 return_data))"

definition resolve_createSharedBudget :: "gql_context \<Rightarrow> uuid \<Rightarrow> string \<Rightarrow> cents \<Rightarrow> 'c world \<Rightarrow> budget_dto answer \<times> 'c world" where
  "resolve_createSharedBudget ctx sp category limit w = with_principal ctx w (\<lambda>p.
     call (createBudget p sp category limit) w (\<lambda>b w1. call (budgetById p (bud_id b)) w1 return_data))"

definition resolve_recordBudgetSpend :: "gql_context \<Rightarrow> uuid \<Rightarrow> cents \<Rightarrow> int \<Rightarrow> 'c world \<Rightarrow> budget_dto answer \<times> 'c world" where
  "resolve_recordBudgetSpend ctx i amount expectedVersion w = with_principal ctx w (\<lambda>p.
     call (recordBudgetSpend p i amount expectedVersion) w (\<lambda>b w1. call (budgetById p (bud_id b)) w1 return_data))"

subsection \<open>Personal accounts\<close>

definition mapAccount :: "account_row \<Rightarrow> account_dto result" where
  "mapAccount row =
     result_bind (fromCents (acct_balance row) (acct_currency row)) (\<lambda>balance.
       Ok \<lparr>ad_id = acct_id row, ad_profileType = acct_profileType row, ad_type = acct_type row, ad_name = acct_name row,
           ad_balance = balance, ad_currency = acct_currency row\<rparr>)"

definition resolve_accounts :: "gql_context \<Rightarrow> personal_profile_dto \<Rightarrow> 'c world \<Rightarrow> account_dto list answer \<times> 'c world" where
  "resolve_accounts ctx personal w = with_principal ctx w (\<lambda>p.
     call (accountsForOwnedProfile p (pd_id personal)) w (\<lambda>rows w1.
       ask (unwrapped (map_results mapAccount rows)) w1 (\<lambda>ds. return_data ds w1)))"

definition resolve_createPersonalAccount :: "gql_context \<Rightarrow> create_personal_account_input \<Rightarrow> 'c world
    \<Rightarrow> account_dto answer \<times> 'c world" where
  "resolve_createPersonalAccount ctx i w = checked (valid_CreatePersonalAccountInput i) w (with_principal ctx w (\<lambda>p.
     call (createPersonalAccount p i) w (\<lambda>account w1. ask (unwrapped (mapAccount account)) w1 (\<lambda>d. return_data d w1))))"

definition resolve_contributeFromAccount :: "gql_context \<Rightarrow> contribute_from_account_input \<Rightarrow> 'c world
    \<Rightarrow> account_dto answer \<times> 'c world" where
  "resolve_contributeFromAccount ctx i w = with_principal ctx w (\<lambda>p.
     call (contributeFromAccount p i) w (\<lambda>(account, _) w1. ask (unwrapped (mapAccount account)) w1 (\<lambda>d. return_data d w1)))"

subsection \<open>Coaching\<close>

record coaching_client =
  cc_apiKey :: "string option"
  cc_fetch :: llm
  cc_json_parse :: "string \<Rightarrow> json option"

definition resolve_coachingInsights :: "coaching_client \<Rightarrow> gql_context \<Rightarrow> uuid \<Rightarrow> 'c world \<Rightarrow> coaching_insight answer \<times> 'c world" where
  "resolve_coachingInsights C ctx sp w = with_principal ctx w (\<lambda>p.
     call (readModel p sp) w (\<lambda>model w1.
       return_data (coachingInsight (cc_apiKey C) (cc_fetch C) (cc_json_parse C) model) w1))"

subsection \<open>Requests\<close>

datatype request =
    Me | SharedProfile uuid | MyMemberships
  | CreateSharedProfileM create_shared_profile_input | InviteMemberM invite_member_input
  | AcceptInvitationM uuid | DeclineInvitationM uuid | ChangeMemberRoleM uuid member_role int
  | LeaveProfileM uuid | NominateOwnerM uuid uuid | AcceptOwnershipM uuid | ArchiveProfileM uuid
  | SetDeclaredIncomeM set_declared_income_input | SetAllocationM set_allocation_input
  | RecordContributionM record_contribution_input | RedistributeM uuid "set_allocation_input list"
  | RemainingAllocation
  | PoolTotalF shared_profile_dto "uuid option" | ContributionRecordsF shared_profile_dto page_args "uuid option"
  | CurrentPeriodF shared_profile_dto | StandingF membership_dto "uuid option" | AllocationPercentageF membership_dto
  | SharedGoalsF shared_profile_dto page_args | SharedDebtsF shared_profile_dto
  | SharedInvestmentsF shared_profile_dto | SharedBudgetsF shared_profile_dto
  | CreateSharedGoalM uuid string cents | FundGoalM uuid cents int
  | CreateSharedDebtM uuid shared_debt_kind string cents | PaySharedDebtM uuid cents int
  | SetDebtResponsibilityM uuid uuid js_number int
  | CreateSharedInvestmentM uuid string cents | UpdateInvestmentValueM uuid cents int
  | CreateSharedBudgetM uuid string cents | RecordBudgetSpendM uuid cents int
  | AccountsF personal_profile_dto | CreatePersonalAccountM create_personal_account_input
  | ContributeFromAccountM contribute_from_account_input
  | CoachingInsights uuid

fun forget :: "'a answer \<Rightarrow> unit answer" where
  "forget (Data _) = Data ()"
| "forget (Rejected e) = Rejected e"

definition dropped :: "'a answer \<times> 'c world \<Rightarrow> unit answer \<times> 'c world" where
  "dropped r = (forget (fst r), snd r)"

text \<open>What a request does, its data left out.\<close>

fun respond :: "'c redis_ops \<Rightarrow> coaching_client \<Rightarrow> gql_context \<Rightarrow> request \<Rightarrow> 'c world \<Rightarrow> unit answer \<times> 'c world" where
  "respond R C ctx Me w = dropped (resolve_me ctx w)"
| "respond R C ctx (SharedProfile i) w = dropped (resolve_sharedProfile ctx i w)"
| "respond R C ctx MyMemberships w = dropped (resolve_myMemberships ctx w)"
| "respond R C ctx (CreateSharedProfileM i) w = dropped (resolve_createSharedProfile ctx i w)"
| "respond R C ctx (InviteMemberM i) w = dropped (resolve_inviteMember ctx i w)"
| "respond R C ctx (AcceptInvitationM i) w = dropped (resolve_acceptInvitation ctx i w)"
| "respond R C ctx (DeclineInvitationM i) w = dropped (resolve_declineInvitation ctx i w)"
| "respond R C ctx (ChangeMemberRoleM i r v) w = dropped (resolve_changeMemberRole ctx i r v w)"
| "respond R C ctx (LeaveProfileM i) w = dropped (resolve_leaveProfile ctx i w)"
| "respond R C ctx (NominateOwnerM sp m) w = dropped (resolve_nominateOwner ctx sp m w)"
| "respond R C ctx (AcceptOwnershipM sp) w = dropped (resolve_acceptOwnership ctx sp w)"
| "respond R C ctx (ArchiveProfileM sp) w = dropped (resolve_archiveProfile ctx sp w)"
| "respond R C ctx (SetDeclaredIncomeM i) w = dropped (resolve_setDeclaredIncome ctx i w)"
| "respond R C ctx (SetAllocationM i) w = dropped (resolve_setAllocation R ctx i w)"
| "respond R C ctx (RecordContributionM i) w = dropped (resolve_recordContribution R ctx i w)"
| "respond R C ctx (RedistributeM sp as) w = dropped (resolve_redistribute R ctx sp as w)"
| "respond R C ctx RemainingAllocation w = dropped (resolve_remainingAllocationPercentageBp ctx w)"
| "respond R C ctx (PoolTotalF d per) w = dropped (resolve_poolTotal ctx d per w)"
| "respond R C ctx (ContributionRecordsF d pg per) w = dropped (resolve_contributionRecords ctx d pg per w)"
| "respond R C ctx (CurrentPeriodF d) w = dropped (resolve_currentPeriod ctx d w)"
| "respond R C ctx (StandingF d per) w = dropped (resolve_standing ctx d per w)"
| "respond R C ctx (AllocationPercentageF d) w = dropped (resolve_allocationPercentageBp ctx d w)"
| "respond R C ctx (SharedGoalsF d pg) w = dropped (resolve_sharedGoals ctx d pg w)"
| "respond R C ctx (SharedDebtsF d) w = dropped (resolve_sharedDebts ctx d w)"
| "respond R C ctx (SharedInvestmentsF d) w = dropped (resolve_sharedInvestments ctx d w)"
| "respond R C ctx (SharedBudgetsF d) w = dropped (resolve_sharedBudgets ctx d w)"
| "respond R C ctx (CreateSharedGoalM sp n a) w = dropped (resolve_createSharedGoal ctx sp n a w)"
| "respond R C ctx (FundGoalM i a v) w = dropped (resolve_fundGoal ctx i a v w)"
| "respond R C ctx (CreateSharedDebtM sp k n a) w = dropped (resolve_createSharedDebt ctx sp k n a w)"
| "respond R C ctx (PaySharedDebtM i a v) w = dropped (resolve_paySharedDebt ctx i a v w)"
| "respond R C ctx (SetDebtResponsibilityM i m bp v) w = dropped (resolve_setDebtResponsibility ctx i m bp v w)"
| "respond R C ctx (CreateSharedInvestmentM sp n a) w = dropped (resolve_createSharedInvestment ctx sp n a w)"
| "respond R C ctx (UpdateInvestmentValueM i a v) w = dropped (resolve_updateInvestmentValue ctx i a v w)"
| "respond R C ctx (CreateSharedBudgetM sp n a) w = dropped (resolve_createSharedBudget ctx sp n a w)"
| "respond R C ctx (RecordBudgetSpendM i a v) w = dropped (resolve_recordBudgetSpend ctx i a v w)"
| "respond R C ctx (AccountsF d) w = dropped (resolve_accounts ctx d w)"
| "respond R C ctx (CreatePersonalAccountM i) w = dropped (resolve_createPersonalAccount ctx i w)"
| "respond R C ctx (ContributeFromAccountM i) w = dropped (resolve_contributeFromAccount ctx i w)"
| "respond R C ctx (CoachingInsights sp) w = dropped (resolve_coachingInsights C ctx sp w)"

end
