(* ===== verification/Scheduling.thy ===== *)
theory Scheduling
  imports Contributions Profiles
begin

section \<open>Scheduled jobs\<close>

text \<open>
  \<open>src/apps/api/src/modules/scheduling/scheduling.service.ts\<close> and the two jobs that register with
  it: \<open>profiles/application/jobs/invitation-expiry.job.ts\<close> and
  \<open>contributions/application/jobs/period-rollover.job.ts\<close>. BullMQ's repeatable queue is an
  argument.
\<close>

record scheduled_job =
  sj_name :: string
  sj_every :: int
  sj_run :: "db \<Rightarrow> nat result \<times> db"

type_synonym job_map = "(string \<times> scheduled_job) list"

text \<open>\<open>Map.set\<close>: a known key keeps its place.\<close>

definition register_job :: "scheduled_job \<Rightarrow> job_map \<Rightarrow> job_map" where
  "register_job job jobs =
     (if sj_name job \<in> set (map fst jobs)
      then map (\<lambda>(n, j). (n, if n = sj_name job then job else j)) jobs
      else jobs @ [(sj_name job, job)])"

text \<open>The worker: a job nobody registered is logged and dropped.\<close>

definition scheduled :: "job_map \<Rightarrow> string \<Rightarrow> db \<Rightarrow> unit result \<times> db" where
  "scheduled jobs name g =
     (case map_of jobs name of
        None \<Rightarrow> (Ok (), g)
      | Some job \<Rightarrow> (case sj_run job g of (r, g') \<Rightarrow> (result_map (\<lambda>_. ()) r, g')))"

text \<open>\<open>queue.add\<close> of a repeatable: its name, its interval and its job identifier.\<close>

type_synonym 'q repeatable_add = "string \<Rightarrow> int \<Rightarrow> string \<Rightarrow> 'q \<Rightarrow> 'q"

definition schedule_all :: "'q repeatable_add \<Rightarrow> job_map \<Rightarrow> 'q \<Rightarrow> 'q" where
  "schedule_all add jobs q = fold (\<lambda>(n, job). add (sj_name job) (sj_every job) (sj_name job)) jobs q"

definition InvitationExpiryJob :: "(db \<Rightarrow> db) \<Rightarrow> scheduled_job" where
  "InvitationExpiryJob discovery =
     \<lparr>sj_name = ''invitation-expiry'', sj_every = 60 * 60 * 1000, sj_run = expiry_run discovery\<rparr>"

definition PeriodRolloverJob :: "(db \<Rightarrow> db) \<Rightarrow> scheduled_job" where
  "PeriodRolloverJob discovery =
     \<lparr>sj_name = ''period-rollover'', sj_every = 15 * 60 * 1000, sj_run = rollover_run discovery\<rparr>"

text \<open>The order in which the application module imports their modules.\<close>

definition server_jobs :: "(db \<Rightarrow> db) \<Rightarrow> job_map" where
  "server_jobs discovery = register_job (PeriodRolloverJob discovery) (register_job (InvitationExpiryJob discovery) [])"

subsection \<open>Sweeps\<close>

text \<open>
  Both jobs visit the tenants their discovery query names, one transaction each, and add up what
  the visits report; the first failure ends the sweep.
\<close>

locale tenant_sweep =
  fixes visit :: "string \<Rightarrow> db \<Rightarrow> nat result \<times> db" and sweep :: "string list \<Rightarrow> nat \<Rightarrow> db \<Rightarrow> nat result \<times> db"
  assumes sweep_none: "sweep [] n g = (Ok n, g)"
    and sweep_next: "sweep (t # ts) n g = then_do (visit t g) (\<lambda>k g'. sweep ts (n + k) g')"
begin

lemma sweep_keeps:
  assumes "\<And>t g. P g \<Longrightarrow> P (snd (visit t g))"
  shows "P g \<Longrightarrow> P (snd (sweep ts n g))"
proof (induction ts arbitrary: n g)
  case (Cons t ts)
  obtain r h where r: "visit t g = (r, h)" by fastforce
  with assms [OF Cons.prems, of t] have "P h" by simp
  with r Cons.IH show ?case by (cases r) (simp_all add: sweep_next)
qed (simp add: sweep_none)

lemma sweep_append: "sweep (ts @ us) n g = then_do (sweep ts n g) (\<lambda>k h. sweep us k h)"
proof (induction ts arbitrary: n g)
  case (Cons t ts)
  obtain r h where r: "visit t g = (r, h)" by fastforce
  with Cons.IH show ?case by (cases r) (simp_all add: sweep_next)
qed (simp add: sweep_none)

end

interpretation expiry_visits: tenant_sweep expiry_runForTenant expiry_tenants
  by unfold_locales simp_all

interpretation rollover_visits: tenant_sweep rolloverForTenant rollover_tenants
  by unfold_locales simp_all

subsection \<open>Registration and dispatch\<close>

lemma register_distinct: "distinct (map fst jobs) \<Longrightarrow> distinct (map fst (register_job job jobs))"
  by (auto simp: register_job_def case_prod_unfold comp_def)

lemma register_found: "map_of (register_job job jobs) (sj_name job) = Some job"
proof (cases "sj_name job \<in> set (map fst jobs)")
  case True
  then have "map_of (map (\<lambda>(n, j). (n, if n = sj_name job then job else j)) jobs) (sj_name job) = Some job"
    by (induction jobs) auto
  with True show ?thesis by (simp add: register_job_def)
next
  case False
  then have "map_of jobs (sj_name job) = None" by (simp add: map_of_eq_None_iff)
  with False show ?thesis by (simp add: register_job_def map_add_def)
qed

lemma scheduled_jobs:
  "scheduled (server_jobs discovery) ''invitation-expiry'' g = (case expiry_run discovery g of (r, h) \<Rightarrow> (result_map (\<lambda>_. ()) r, h))"
  "scheduled (server_jobs discovery) ''period-rollover'' g = (case rollover_run discovery g of (r, h) \<Rightarrow> (result_map (\<lambda>_. ()) r, h))"
  "n \<noteq> ''invitation-expiry'' \<Longrightarrow> n \<noteq> ''period-rollover'' \<Longrightarrow> scheduled (server_jobs discovery) n g = (Ok (), g)"
  by (simp_all add: scheduled_def server_jobs_def register_job_def InvitationExpiryJob_def PeriodRolloverJob_def)

text \<open>
  What BullMQ documents of a repeatable job: it is known by its name, interval and identifier, and adding
  it again changes nothing. Then a restart schedules no job twice.
\<close>

definition repeatable_contract :: "'q repeatable_add \<Rightarrow> ('q \<Rightarrow> (string \<times> int \<times> string) list) \<Rightarrow> bool" where
  "repeatable_contract add entries \<longleftrightarrow> (\<forall>n e i q. entries (add n e i q) =
     (if (n, e, i) \<in> set (entries q) then entries q else entries q @ [(n, e, i)]))"

definition repeatable_key :: "string \<times> scheduled_job \<Rightarrow> string \<times> int \<times> string" where
  "repeatable_key e = (sj_name (snd e), sj_every (snd e), sj_name (snd e))"

lemma scheduled_entries:
  assumes "repeatable_contract add entries"
  shows "set (entries (schedule_all add jobs q)) = set (entries q) \<union> repeatable_key ` set jobs"
    and "repeatable_key ` set jobs \<subseteq> set (entries q) \<Longrightarrow> entries (schedule_all add jobs q) = entries q"
proof -
  have key: "repeatable_key (n, b) = (sj_name b, sj_every b, sj_name b)" for n b by (simp add: repeatable_key_def)
  have one: "entries (add n e i q) = (if (n, e, i) \<in> set (entries q) then entries q else entries q @ [(n, e, i)])" for n e i q
    using assms by (simp add: repeatable_contract_def)
  show "set (entries (schedule_all add jobs q)) = set (entries q) \<union> repeatable_key ` set jobs"
    unfolding schedule_all_def by (induction jobs arbitrary: q) (auto simp: one key split: if_splits)
  show "repeatable_key ` set jobs \<subseteq> set (entries q) \<Longrightarrow> entries (schedule_all add jobs q) = entries q"
    unfolding schedule_all_def by (induction jobs arbitrary: q) (auto simp: one key split: if_splits)
qed

lemma restart_schedules_once:
  assumes "repeatable_contract add entries"
  shows "entries (schedule_all add jobs (schedule_all add jobs q)) = entries (schedule_all add jobs q)"
  by (rule scheduled_entries(2) [OF assms]) (simp add: scheduled_entries(1) [OF assms])

end
