(* ===== verification/SystemLinks.thy ===== *)
theory SystemLinks
  imports Accounts Consumers GovernanceRuns ProfilesRead
begin

section \<open>One invariant for the whole database\<close>

text \<open>
  Governance changes the memberships on which the books rest, and the financial use cases run on the
  profiles that governance keeps in order. This theory joins the two invariants: what ties the tables
  together (\<open>links_ok\<close>), what the financial use cases leave of the people (\<open>settled\<close>), what
  governance does to them (\<open>gov_moves\<close>), and that every transaction of either kind keeps
  \<open>system_ok\<close>.
\<close>

subsection \<open>What ties the tables together\<close>

definition linked_ids :: "db \<Rightarrow> uuid set" where
  "linked_ids g = set (map m_id (filter (\<lambda>m. m_status m \<noteq> INVITED) (memberships g)))"

definition profile_ids :: "db \<Rightarrow> uuid set" where
  "profile_ids g = set (map sp_id (sharedProfiles g))"

text \<open>
  Rows whose column \<open>key\<close> refers to what another table has: those that were there, or \<open>ids\<close>.
\<close>

definition points :: "('r \<Rightarrow> uuid) \<Rightarrow> uuid set \<Rightarrow> 'r list \<Rightarrow> 'r list \<Rightarrow> bool" where
  "points key ids xs ys \<longleftrightarrow> set (map key ys) \<subseteq> set (map key xs) \<union> ids"

abbreviation all_in :: "('r \<Rightarrow> uuid) \<Rightarrow> uuid set \<Rightarrow> 'r list \<Rightarrow> bool" where
  "all_in key ids ys \<equiv> points key ids [] ys"

text \<open>
  Percentages and records belong to members who have joined; plans, periods and shared elements to profiles,
  a budget to a period, responsibilities to debts, accounts to personal profiles. The identifiers of users are
  distinct and the currencies of profiles normal.
\<close>

definition links_ok :: "db \<Rightarrow> bool" where
  "links_ok g \<longleftrightarrow> all_in alloc_membershipId (linked_ids g) (contributionAllocations g)
     \<and> all_in rec_membershipId (linked_ids g) (contributionRecords g)
     \<and> all_in plan_sharedProfileId (profile_ids g) (contributionPlans g)
     \<and> all_in per_sharedProfileId (profile_ids g) (contributionPeriods g)
     \<and> all_in goal_sharedProfileId (profile_ids g) (sharedGoals g)
     \<and> all_in debt_sharedProfileId (profile_ids g) (sharedDebts g)
     \<and> all_in inv_sharedProfileId (profile_ids g) (sharedInvestments g)
     \<and> all_in bud_sharedProfileId (profile_ids g) (sharedBudgets g)
     \<and> all_in bud_periodId (set (map per_id (contributionPeriods g))) (sharedBudgets g)
     \<and> all_in resp_sharedDebtId (set (map debt_id (sharedDebts g))) (debtResponsibilities g)
     \<and> all_in acct_profileId (set (map pp_id (personalProfiles g))) (accounts g)
     \<and> readable g"

lemma links_ok_D:
  assumes "links_ok g"
  shows "a \<in> set (contributionAllocations g) \<Longrightarrow> alloc_membershipId a \<in> linked_ids g"
    and "q \<in> set (contributionPeriods g) \<Longrightarrow> per_sharedProfileId q \<in> profile_ids g"
  using assms by (auto simp: links_ok_def points_def)

definition system_ok :: "db \<Rightarrow> bool" where
  "system_ok g \<longleftrightarrow> governed g \<and> wallet_ok g \<and> links_ok g"

subsection \<open>What finance leaves of the people\<close>

definition no_income :: "membership_row \<Rightarrow> membership_row" where
  "no_income m = m\<lparr>m_declaredIncomeCents := 0\<rparr>"

definition active_ids :: "db \<Rightarrow> uuid set" where
  "active_ids g = set (map m_id (filter (\<lambda>m. m_status m = ACTIVE) (memberships g)))"

text \<open>
  Rows of a table with a version column stay under their key, and their version never goes back.
\<close>

definition ages :: "('r \<Rightarrow> uuid) \<Rightarrow> ('r \<Rightarrow> int) \<Rightarrow> 'r list \<Rightarrow> 'r list \<Rightarrow> bool" where
  "ages key ver xs ys \<longleftrightarrow> list_all (\<lambda>x. list_ex (\<lambda>y. key y = key x \<and> ver x \<le> ver y) ys) xs"

lemma ages_iff: "ages key ver xs ys \<longleftrightarrow> (\<forall>x \<in> set xs. \<exists>y \<in> set ys. key y = key x \<and> ver x \<le> ver y)"
  by (simp add: ages_def list_all_iff list_ex_iff)

lemma ages_refl [simp]: "ages key ver xs xs"
  unfolding ages_iff by blast

lemma ages_trans: "ages key ver xs ys \<Longrightarrow> ages key ver ys zs \<Longrightarrow> ages key ver xs zs"
  unfolding ages_iff by (metis order_trans)

lemma ages_append [simp]: "ages key ver xs (xs @ ys)"
  unfolding ages_iff by auto

lemma ages_update:
  assumes "\<And>x. c x \<Longrightarrow> key (f x) = key x \<and> ver x \<le> ver (f x)"
  shows "ages key ver xs (update_where c f xs)"
  unfolding ages_iff
proof
  fix x assume "x \<in> set xs"
  then show "\<exists>y \<in> set (update_where c f xs). key y = key x \<and> ver x \<le> ver y"
    using assms [of x] by (intro bexI [of _ "if c x then f x else x"]) (auto simp: update_where_def)
qed

context versioned_rows begin

lemma ages_lock [simp]:
  assumes "\<And>r. key (data r) = key r"
  shows "ages key ver rows (snd (lock_update i data e rows))"
  using assms by (auto simp: lock_update_def prismaVersionedUpdate_def Let_def intro!: ages_update)

lemma map_lock:
  assumes "\<And>r. f (data r) = f r" and "\<And>n r. f (set_ver n r) = f r"
  shows "map f (snd (lock_update i data e rows)) = map f rows"
  by (simp add: lock_update_def prismaVersionedUpdate_def Let_def map_update_where assms)

end

lemmas map_locks = goal_lock.map_lock debt_lock.map_lock investment_lock.map_lock budget_lock.map_lock

definition elements_age :: "db \<Rightarrow> db \<Rightarrow> bool" where
  "elements_age g h \<longleftrightarrow> ages goal_id goal_version (sharedGoals g) (sharedGoals h)
     \<and> ages debt_id debt_version (sharedDebts g) (sharedDebts h)
     \<and> ages inv_id inv_version (sharedInvestments g) (sharedInvestments h)
     \<and> ages bud_id bud_version (sharedBudgets g) (sharedBudgets h)"

lemma elements_age_refl [simp]: "elements_age g g"
  by (simp add: elements_age_def)

lemma elements_age_trans: "elements_age a b \<Longrightarrow> elements_age b c \<Longrightarrow> elements_age a c"
  by (auto simp: elements_age_def elim: ages_trans)

text \<open>The profiles there are, with those that memberships name.\<close>

definition known_profiles :: "db \<Rightarrow> uuid set" where
  "known_profiles g = profile_ids g \<union> set (map m_sharedProfileId (memberships g))"

text \<open>What new rows point to; periods, debts and personal profiles stay.\<close>

definition tables_point :: "db \<Rightarrow> db \<Rightarrow> bool" where
  "tables_point g h \<longleftrightarrow> points alloc_membershipId (active_ids g) (contributionAllocations g) (contributionAllocations h)
     \<and> points rec_membershipId (active_ids g) (contributionRecords g) (contributionRecords h)
     \<and> points plan_sharedProfileId (known_profiles g) (contributionPlans g) (contributionPlans h)
     \<and> points per_sharedProfileId (known_profiles g) (contributionPeriods g) (contributionPeriods h)
     \<and> points goal_sharedProfileId (known_profiles g) (sharedGoals g) (sharedGoals h)
     \<and> points debt_sharedProfileId (known_profiles g) (sharedDebts g) (sharedDebts h)
     \<and> points inv_sharedProfileId (known_profiles g) (sharedInvestments g) (sharedInvestments h)
     \<and> points bud_sharedProfileId (known_profiles g) (sharedBudgets g) (sharedBudgets h)
     \<and> points bud_periodId (set (map per_id (contributionPeriods h))) (sharedBudgets g) (sharedBudgets h)
     \<and> points resp_sharedDebtId (set (map debt_id (sharedDebts h))) (debtResponsibilities g) (debtResponsibilities h)
     \<and> points acct_profileId (set (map pp_id (personalProfiles h))) (accounts g) (accounts h)
     \<and> set (map per_id (contributionPeriods g)) \<subseteq> set (map per_id (contributionPeriods h))
     \<and> set (map debt_id (sharedDebts g)) \<subseteq> set (map debt_id (sharedDebts h))
     \<and> set (map pp_id (personalProfiles g)) \<subseteq> set (map pp_id (personalProfiles h))"

text \<open>
  Users and profiles stay, memberships may differ in the declared income only, percentages and records
  are of active members, and the shared elements age.
\<close>

definition settled :: "db \<Rightarrow> db \<Rightarrow> bool" where
  "settled g h \<longleftrightarrow> users h = users g \<and> sharedProfiles h = sharedProfiles g
     \<and> map no_income (memberships h) = map no_income (memberships g)
     \<and> tables_point g h \<and> elements_age g h"

text \<open>A step that moreover leaves the personal accounts alone.\<close>

definition spent :: "db \<Rightarrow> db \<Rightarrow> bool" where
  "spent g h \<longleftrightarrow> settled g h \<and> accounts h = accounts g \<and> personalProfiles h = personalProfiles g"

lemma no_income_fields [simp]:
  "m_id (no_income m) = m_id m" "m_sharedProfileId (no_income m) = m_sharedProfileId m"
  "m_userId (no_income m) = m_userId m" "m_role (no_income m) = m_role m" "m_status (no_income m) = m_status m"
  "m_pendingOwnerNominee (no_income m) = m_pendingOwnerNominee m" "m_tenantId (no_income m) = m_tenantId m"
  by (simp_all add: no_income_def)

lemma points_refl [simp]: "points key ids xs xs" and points_app [simp]:
    "points key ids xs (xs @ ys) \<longleftrightarrow> set (map key ys) \<subseteq> set (map key xs) \<union> ids"
  by (auto simp: points_def)

lemma points_trans: "points key ids xs ys \<Longrightarrow> points key ids' ys zs \<Longrightarrow> ids \<subseteq> ids' \<Longrightarrow> points key ids' xs zs"
  unfolding points_def by blast

lemma points_in: "points key ids xs ys \<Longrightarrow> all_in key ids' xs \<Longrightarrow> ids \<subseteq> ids'' \<Longrightarrow> ids' \<subseteq> ids'' \<Longrightarrow> all_in key ids'' ys"
  unfolding points_def by auto

lemma points_same: "map key ys = map key xs \<Longrightarrow> points key ids xs ys"
  by (simp add: points_def)

lemmas spent_defs = spent_def settled_def tables_point_def elements_age_def

lemma settled_refl [simp]: "settled g g"
  by (simp add: settled_def tables_point_def)

lemma spent_refl [simp]: "spent g g"
  by (simp add: spent_def)

lemma filter_no_income: "map m_id (filter P (map no_income ms)) = map m_id (filter (\<lambda>m. P (no_income m)) ms)"
  by (simp add: filter_map comp_def)

lemma settled_active:
  assumes "settled g h"
  shows "active_ids h = active_ids g" and "linked_ids h = linked_ids g" and "profile_ids h = profile_ids g"
    and "known_profiles h = known_profiles g"
proof -
  have e: "map no_income (memberships h) = map no_income (memberships g)" "sharedProfiles h = sharedProfiles g"
    using assms by (simp_all add: settled_def)
  show "active_ids h = active_ids g"
    using arg_cong [OF e(1), of "\<lambda>ms. set (map m_id (filter (\<lambda>m. m_status m = ACTIVE) ms))"]
    unfolding filter_no_income by (simp add: active_ids_def)
  show "linked_ids h = linked_ids g"
    using arg_cong [OF e(1), of "\<lambda>ms. set (map m_id (filter (\<lambda>m. m_status m \<noteq> INVITED) ms))"]
    unfolding filter_no_income by (simp add: linked_ids_def)
  show "profile_ids h = profile_ids g" by (simp add: profile_ids_def e(2))
  have "map m_sharedProfileId (memberships h) = map m_sharedProfileId (memberships g)"
    using arg_cong [OF e(1), of "map m_sharedProfileId"] by (simp add: comp_def)
  then have "set (map m_sharedProfileId (memberships h)) = set (map m_sharedProfileId (memberships g))" by (rule arg_cong)
  with \<open>profile_ids h = profile_ids g\<close> show "known_profiles h = known_profiles g" unfolding known_profiles_def by simp
qed

lemma tables_point_trans:
  assumes "tables_point a b" and "tables_point b c" and "active_ids b = active_ids a" and "known_profiles b = known_profiles a"
  shows "tables_point a c"
proof -
  note d = assms(1,2) [unfolded tables_point_def assms(3,4)]
  show ?thesis unfolding tables_point_def
    by (insert d, elim conjE, intro conjI, (erule (1) points_trans, rule subset_refl)+,
        (erule (1) points_trans, assumption)+, (erule (1) subset_trans)+)
qed

lemma settled_trans:
  assumes "settled a b" and "settled b c"
  shows "settled a c"
proof -
  have "tables_point a c"
    by (rule tables_point_trans [of a b]) (use assms settled_active [OF assms(1)] in \<open>simp_all add: settled_def\<close>)
  moreover have "elements_age a c" using assms elements_age_trans by (auto simp: settled_def)
  ultimately show ?thesis using assms by (simp add: settled_def)
qed

lemma spent_trans: "spent a b \<Longrightarrow> spent b c \<Longrightarrow> spent a c"
  using settled_trans by (auto simp: spent_def)

lemma spent_settled: "spent g h \<Longrightarrow> settled g h"
  by (simp add: spent_def)

text \<open>People as they were are governed as they were, and linked as they were.\<close>

lemma settled_governed:
  assumes "settled g h" and "governed g" and "fresh_ids h"
  shows "governed h"
proof -
  have e: "map no_income (memberships h) = map no_income (memberships g)" "sharedProfiles h = sharedProfiles g"
    using assms(1) by (simp_all add: settled_def)
  have keys: "keys_ok ps (map no_income ms) = keys_ok ps ms" for ps ms
    by (simp add: keys_ok_def comp_def)
  have owners: "owners_ok ps (map no_income ms) = owners_ok ps ms" for ps ms
    by (simp add: owners_ok_def owner_of_def)
  have "keys_ok (sharedProfiles h) (memberships h) = keys_ok (sharedProfiles g) (memberships g)"
    using keys [of "sharedProfiles h" "memberships h"] keys [of "sharedProfiles g" "memberships g"] e by simp
  moreover have "owners_ok (sharedProfiles h) (memberships h) = owners_ok (sharedProfiles g) (memberships g)"
    using owners [of "sharedProfiles h" "memberships h"] owners [of "sharedProfiles g" "memberships g"] e by simp
  ultimately show ?thesis using assms(2,3) by (simp add: governed_def)
qed

lemma settled_links:
  assumes "settled g h" and "links_ok g" and "governed g"
  shows "links_ok h"
proof -
  note ids = settled_active [OF assms(1)] and s = assms(1) [unfolded settled_def tables_point_def]
    and l = assms(2) [unfolded links_ok_def]
  have act: "active_ids g \<subseteq> linked_ids g" by (auto simp: active_ids_def linked_ids_def)
  have known: "known_profiles g \<subseteq> profile_ids g"
    using assms(3) by (auto simp: known_profiles_def profile_ids_def governed_def keys_ok_def)
  show ?thesis unfolding links_ok_def ids
    apply (insert s l)
    apply (elim conjE)
    apply (intro conjI)
    apply (erule (1) points_in, rule act, rule subset_refl)+
    apply (erule (1) points_in, rule known, rule subset_refl)+
    apply (erule (1) points_in, rule subset_refl, assumption)+
    apply (simp add: readable_def)
    done
qed

lemma settled_system: "settled g h \<Longrightarrow> system_ok g \<Longrightarrow> wallet_ok h \<Longrightarrow> system_ok h"
  unfolding system_ok_def using settled_governed settled_links wallet_ok_D(3) by blast

subsection \<open>The financial use cases settle\<close>

named_theorems spent_intros "operations that leave people and personal accounts alone"

text \<open>A write after others, with what it points to seen in either database.\<close>

lemma spent_then:
  assumes "spent g h" and "active_ids h = active_ids g \<Longrightarrow> known_profiles h = known_profiles g \<Longrightarrow> spent h k"
  shows "spent g k"
  using spent_trans [OF assms(1)] assms settled_active [OF spent_settled [OF assms(1)]] by blast

lemma spent_writers [spent_intros]:
  "spent g h \<Longrightarrow> spent g (used_id h)"
  "spent g h \<Longrightarrow> spent g (emit t et at ai ac pl h)"
  "spent g h \<Longrightarrow> spent g (audit_write t r h)"
  by (erule spent_then; simp add: spent_defs)+

lemma spent_upsert [spent_intros]:
  assumes "spent g h" and "m \<in> active_ids g"
  shows "spent g (upsertAllocation t pl m b h)"
  using assms(1)
proof (rule spent_then)
  assume "active_ids h = active_ids g"
  with assms(2) show "spent h (upsertAllocation t pl m b h)"
    by (simp add: upsertAllocation_def split: option.splits)
      (auto simp: spent_defs points_same map_update_where)
qed

lemma spent_upsert_all [spent_intros]:
  "spent g h \<Longrightarrow> list_all (\<lambda>a. ra_membershipId a \<in> active_ids g) as \<Longrightarrow> spent g (upsert_all t pl as h)"
  by (induction as arbitrary: h) (simp_all add: spent_upsert)

lemma spent_createPlan: "createPlan t sp v i ef g = (r, h) \<Longrightarrow> sp \<in> known_profiles g \<Longrightarrow> spent g h"
  by (auto simp: createPlan_def Let_def spent_defs split: if_splits)

lemma spent_planOrFirst: "planOrFirst t sp i g = (r, h) \<Longrightarrow> sp \<in> known_profiles g \<Longrightarrow> spent g h"
  by (auto simp: planOrFirst_def spent_createPlan split: option.splits)

lemma spent_openPeriod [spent_intros]:
  "spent g h \<Longrightarrow> sp \<in> known_profiles g \<Longrightarrow> spent g (snd (openPeriod t sp s e h))"
  by (erule spent_then) (auto simp: openPeriod_def createPeriod_def spent_defs Let_def)

lemma spent_ensure [spent_intros]:
  "spent g h \<Longrightarrow> sp_id f \<in> known_profiles g \<Longrightarrow> spent g (snd (ensureOpenPeriod t f now h))"
  by (auto simp: ensureOpenPeriod_def Let_def intro!: spent_openPeriod split: option.splits)

lemma spent_record [spent_intros]: "spent g h \<Longrightarrow> cr_membershipId d \<in> active_ids g \<Longrightarrow> spent g (snd (createRecord t d h))"
  by (erule spent_then) (simp add: createRecord_def spent_defs Let_def)

lemma spent_close [spent_intros]: "spent g h \<Longrightarrow> spent g (closePeriod i h)"
  by (erule spent_then) (simp add: closePeriod_def spent_defs points_same map_update_where)

lemma spent_income [spent_intros]:
  assumes "spent g h"
  shows "spent g (setIncome i c h)"
proof -
  have "map no_income (update_where (\<lambda>m. m_id m = i) (\<lambda>m. m\<lparr>m_declaredIncomeCents := c\<rparr>) ms) = map no_income ms" for ms
    by (simp add: update_where_def no_income_def)
  then show ?thesis by (intro spent_then [OF assms]) (simp add: setIncome_def spent_defs)
qed

text \<open>The ids the use cases hand on are those of active members and of profiles.\<close>

lemma active_member: "m \<in> set (memberships g) \<Longrightarrow> m_status m = ACTIVE \<Longrightarrow> m_id m \<in> active_ids g"
  by (simp add: active_ids_def)

lemma found_active: "findMembershipById i g = Some m \<Longrightarrow> m_status m = ACTIVE \<Longrightarrow> i \<in> active_ids g"
  using active_member found_member by blast

lemma self_active: "selfMember sp i u c g = Ok m \<Longrightarrow> i \<in> active_ids g"
  by (auto simp: selfMember_Ok intro: found_active)

lemma checked_active: "check_redistribution sp as g = Ok () \<Longrightarrow> list_all (\<lambda>a. ra_membershipId a \<in> active_ids g) as"
  by (induction as) (auto intro: found_active split: option.splits if_splits result.splits)

lemma found_known: "findSharedProfile sp g = Some f \<Longrightarrow> sp_id f \<in> known_profiles g \<and> sp \<in> known_profiles g"
  by (auto simp: known_profiles_def profile_ids_def dest!: found_profile)

lemma self_known: "selfMember sp i u c g = Ok m \<Longrightarrow> sp \<in> known_profiles g"
  by (auto simp: selfMember_Ok known_profiles_def dest: found_member)

lemma guard_known: "elements_guard sp u c g = Ok a \<Longrightarrow> sp \<in> known_profiles g"
  by (auto simp: elements_guard_def dest: found_known split: option.splits if_splits)

lemma spent_contributions:
  "commits (spent g) (setDeclaredIncome_tx p si g)"
  "commits (spent g) (setAllocation_tx p sa g)"
  "commits (spent g) (recordContribution_tx p rc g)"
  "commits (spent g) (redistribute_tx p sp as g)"
  unfolding setDeclaredIncome_tx_def setAllocation_tx_def recordContribution_tx_def redistribute_tx_def Let_def case_prod_unfold
  by (intro commits_and_then commits_then_do commits_if commits_result;
      (auto intro!: spent_intros dest: spent_createPlan spent_planOrFirst self_active self_known checked_active found_known
        simp: found_or_Ok)?)+

lemma spent_rollover_loop: "rollover_loop t now ps k h = (r, h') \<Longrightarrow> spent g h \<Longrightarrow> spent g h'"
proof (induction ps arbitrary: k h)
  case Nil
  then show ?case by simp
next
  case (Cons p ps)
  have known: "sp \<in> known_profiles g" if "findSharedProfile sp h = Some f" for sp f
  proof -
    have "findSharedProfile sp g = Some f" using that Cons.prems(2) by (simp add: spent_def settled_def findSharedProfile_def)
    then show ?thesis using found_known by blast
  qed
  have found: "findSharedProfile sp (emit t' et at ai ac pl (closePeriod i h)) = findSharedProfile sp h" for sp t' et at ai ac pl i
    by (simp add: findSharedProfile_def closePeriod_def)
  show ?case
  proof (cases "isPeriodDue (per_endDate p) now")
    case False
    then show ?thesis using Cons.prems(1) Cons.IH [OF _ Cons.prems(2)] by simp
  next
    case True
    then show ?thesis using Cons.prems(1,2)
      by (cases "snapshotMembers p h"; cases "reconcile (case snapshotMembers p h of Ok ms \<Rightarrow> ms) (actualByMember (per_id p) h)")
        (auto simp: Let_def case_prod_unfold found split: option.splits if_splits elim!: Cons.IH
          intro!: spent_intros known)
  qed
qed

lemma spent_rollover: "commits (spent g) (rolloverForTenant_tx t g)"
  using spent_rollover_loop [of t "clock g" "duePeriods (clock g) g" 0 g _ _ g]
  by (cases "rolloverForTenant_tx t g") (auto simp: commits_def rolloverForTenant_tx_def)

lemma spent_versioned:
  "fundGoalVersioned i f s e g = (n, h) \<Longrightarrow> spent g h"
  "payDebtVersioned i b e g = (n, h) \<Longrightarrow> spent g h"
  "touchDebtVersioned i e g = (n, h) \<Longrightarrow> spent g h"
  "updateInvestmentVersioned i v at e g = (n, h) \<Longrightarrow> spent g h"
  "recordSpendVersioned i sp e g = (n, h) \<Longrightarrow> spent g h"
  by (auto simp: versioned_eqs Let_def spent_defs points_same map_locks simp flip: set_map)

lemma spent_create [spent_intros]:
  "spent g h \<Longrightarrow> sp \<in> known_profiles g \<Longrightarrow> spent g (snd (createGoal t sp name target h))"
  "spent g h \<Longrightarrow> sp \<in> known_profiles g \<Longrightarrow> spent g (snd (createDebt t sp kind name target h))"
  "spent g h \<Longrightarrow> sp \<in> known_profiles g \<Longrightarrow> spent g (snd (createInvestmentRow t sp name target h))"
  by (erule spent_then; auto simp: createGoal_def createDebt_def createInvestmentRow_def spent_defs Let_def)+

lemma spent_createBudgetRow:
  "createBudgetRow t sp per category limit g = (r, h) \<Longrightarrow> sp \<in> known_profiles g
     \<Longrightarrow> per \<in> per_id ` set (contributionPeriods g) \<Longrightarrow> spent g h"
  by (auto simp: createBudgetRow_def Let_def spent_defs split: if_splits)

lemma spent_replace:
  "replaceResponsibilities t d ss h = (r, h') \<Longrightarrow> d \<in> debt_id ` set (sharedDebts h) \<Longrightarrow> spent g h \<Longrightarrow> spent g h'"
proof -
  have create: "createResponsibilities t d ss h = (r, h') \<Longrightarrow> d \<in> debt_id ` set (sharedDebts h) \<Longrightarrow> spent h h'" for h
  proof (induction ss arbitrary: h)
    case (Cons s ss)
    let ?h = "used_id (h\<lparr>debtResponsibilities := debtResponsibilities h @ [\<lparr>resp_id = new_id h, resp_tenantId = t,
        resp_sharedDebtId = d, resp_membershipId = rs_membershipId s, resp_percentageBp = rs_percentageBp s, resp_version = 0\<rparr>]\<rparr>)"
    have "spent h ?h" using Cons.prems(2) by (auto simp: spent_defs)
    moreover have "spent ?h h'" if "createResponsibilities t d ss ?h = (r, h')"
      by (rule Cons.IH [OF that]) (use Cons.prems(2) in simp)
    ultimately show ?case using Cons.prems(1) by (auto split: if_splits intro: spent_trans)
  qed simp
  assume r: "replaceResponsibilities t d ss h = (r, h')" and d: "d \<in> debt_id ` set (sharedDebts h)" and s: "spent g h"
  let ?k = "h\<lparr>debtResponsibilities := filter (\<lambda>r. resp_sharedDebtId r \<noteq> d) (debtResponsibilities h)\<rparr>"
  have "spent h ?k" by (auto simp: spent_defs points_def)
  moreover have "spent ?k h'" by (rule create) (use r d in \<open>simp_all add: replaceResponsibilities_def\<close>)
  ultimately show ?thesis using s spent_trans by blast
qed

lemma spent_debts: "spent g h \<Longrightarrow> debt_id ` set (sharedDebts g) \<subseteq> debt_id ` set (sharedDebts h)"
  by (simp add: spent_def settled_def tables_point_def)

lemma spent_reassign_loop:
  "reassign_loop t m ds k h = (r, h') \<Longrightarrow> spent g h \<Longrightarrow> debt_id ` set ds \<subseteq> debt_id ` set (sharedDebts h) \<Longrightarrow> spent g h'"
proof (induction ds arbitrary: k h)
  case Nil
  then show ?case by simp
next
  case (Cons d ds)
  have d: "debt_id d \<in> debt_id ` set (sharedDebts h)" and ds: "debt_id ` set ds \<subseteq> debt_id ` set (sharedDebts h)"
    using Cons.prems(3) by simp_all
  have next_step: "spent g k" "x \<in> set ds \<Longrightarrow> debt_id x \<in> debt_id ` set (sharedDebts k)"
    if "replaceResponsibilities t (debt_id d) ss h = (q, k)" for ss q k x
    using spent_replace [OF that d Cons.prems(2)] spent_debts [OF spent_replace [OF that d spent_refl]] ds by blast+
  show ?case
    using Cons.prems(1,2) ds next_step
    by (auto simp: Let_def and_then_def then_do_def split: if_splits result.splits prod.splits elim!: Cons.IH)
qed

lemma spent_elements:
  "commits (spent g) (createSharedGoal_tx p sp name target g)"
  "commits (spent g) (fundGoal_tx p i a e g)"
  "commits (spent g) (paySharedDebt_tx p i a e g)"
  "commits (spent g) (createInvestment_tx p sp name v g)"
  "commits (spent g) (updateInvestmentValue_tx p i v e g)"
  "commits (spent g) (recordBudgetSpend_tx p i a e g)"
  unfolding createSharedGoal_tx_def fundGoal_tx_def paySharedDebt_tx_def createInvestment_tx_def updateInvestmentValue_tx_def
    recordBudgetSpend_tx_def Let_def case_prod_unfold
  by (intro commits_and_then commits_locked commits_then_do commits_if commits_result;
      (auto intro!: spent_intros dest: spent_versioned guard_known)?)+

lemma open_period_id: "openPeriodOf sp g = Some q \<Longrightarrow> per_id q \<in> per_id ` set (contributionPeriods g)"
  by (auto simp: openPeriodOf_def dest!: find_first_desc_Some)

lemma spent_createBudget: "commits (spent g) (createBudget_tx p sp category limit g)"
  unfolding createBudget_tx_def
  by (intro commits_and_then commits_then_do commits_if commits_result;
      (auto intro!: spent_intros simp: found_or_Ok elim: spent_createBudgetRow dest: guard_known open_period_id)?)+

lemma spent_createSharedDebt: "commits (spent g) (createSharedDebt_tx p sp kind name balance g)"
proof -
  have new: "debt_id (fst (createDebt t sp kind name balance g)) \<in> debt_id ` set (sharedDebts (snd (createDebt t sp kind name balance g)))" for t
    by (simp add: createDebt_def Let_def)
  show ?thesis
    unfolding createSharedDebt_tx_def Let_def case_prod_unfold
    by (intro commits_and_then commits_then_do commits_if commits_result)
      (auto intro!: spent_intros elim!: spent_replace [OF _ new] dest: guard_known split: if_splits)
qed

lemma found_debt_id: "findDebt i g = Some d \<Longrightarrow> i \<in> debt_id ` set (sharedDebts g)"
  by (auto simp: findDebt_def find_Some_iff)

lemma spent_setDebtResponsibility: "commits (spent g) (setDebtResponsibility_tx p i m bp e g)"
proof -
  have step: "spent g k" if "replaceResponsibilities t i ss h = (r, k)" "findDebt i g = Some d" "spent g h"
    for d h t ss r k
    using spent_replace [OF that(1) _ that(3)] spent_debts [OF that(3)] found_debt_id [OF that(2)] by blast
  show ?thesis
    unfolding setDebtResponsibility_tx_def Let_def
    by (intro commits_and_then commits_locked commits_then_do commits_if commits_result;
        (auto intro!: spent_intros dest: spent_versioned simp: found_or_Ok elim: step)?)
qed

lemma spent_reassign: "commits (spent g) (reassignForLeftMember_tx t sp m g)"
proof -
  have "debt_id ` set (debtsForProfile sp g) \<subseteq> debt_id ` set (sharedDebts g)" by (auto simp: debtsForProfile_def)
  then show ?thesis
    using spent_reassign_loop [of t m "debtsForProfile sp g" 0 g _ _ g]
    by (cases "reassignForLeftMember_tx t sp m g") (auto simp: commits_def reassignForLeftMember_tx_def)
qed

subsection \<open>The account use cases settle\<close>

lemma settled_accounts:
  "settled g h \<Longrightarrow> settled g (setBalance i b h)"
  "settled g h \<Longrightarrow> ca_profileId d \<in> pp_id ` set (personalProfiles h) \<Longrightarrow> settled g (snd (createAccount t d h))"
  by (erule settled_trans, simp add: settled_def tables_point_def elements_age_def setBalance_def createAccount_def Let_def
      points_same map_update_where)+

lemma settled_personal: "findOrCreatePersonalProfile held t u g = (r, h) \<Longrightarrow> settled g h"
  by (auto simp: findOrCreatePersonalProfile_def Let_def settled_def tables_point_def elements_age_def split: option.splits if_splits)

lemma settled_contribute_writes:
  assumes "settled g k" and "findSharedProfile sp k = Some f" and "cfa_membershipId i \<in> active_ids k"
  shows "commits (settled g) (contribute_writes p i f a b k)"
proof -
  let ?k = "setBalance (acct_id a) b k"
  have known: "sp_id f \<in> known_profiles ?k" and act: "cfa_membershipId i \<in> active_ids ?k"
    using found_known [OF assms(2)] assms(3) by (simp_all add: known_profiles_def profile_ids_def active_ids_def setBalance_def)
  have "spent ?k (audit_write t3 r3 (emit t2 et at ai ac pl (snd (createRecord t
      \<lparr>cr_sharedProfileId = s, cr_periodId = q, cr_membershipId = cfa_membershipId i, cr_amount = n, cr_sourceAccountId = src\<rparr>
      (snd (ensureOpenPeriod t' f now ?k))))))"
    for t3 r3 t2 et at ai ac pl t s q n src t' now
    by (intro spent_intros) (simp_all add: known act)
  from settled_trans [OF settled_accounts(1) [OF assms(1)] spent_settled [OF this]]
  show ?thesis
    unfolding contribute_writes_def Let_def case_prod_unfold
    by (intro commits_and_then commits_result)
qed

lemma settled_account_use_cases:
  "commits (settled g) (createPersonalAccount_tx held p ci g)"
  "commits (settled g) (listPersonalAccounts_tx held p g)"
  "commits (settled g) (accountsForOwnedProfile_tx p pi g)"
  "commits (settled g) (contributeFromAccount_tx held p cf g)"
proof -
  note k = settled_personal and own = personal_profile_facts(1) and no_err = personal_profile_not_Err
  show "commits (settled g) (listPersonalAccounts_tx held p g)"
    unfolding listPersonalAccounts_tx_def by (intro commits_then_do commits_result) (auto simp: no_err intro: k)
  show "commits (settled g) (accountsForOwnedProfile_tx p pi g)"
    by (auto simp: accountsForOwnedProfile_tx_def intro: commits_result split: option.splits)
  show "commits (settled g) (createPersonalAccount_tx held p ci g)"
    unfolding createPersonalAccount_tx_def Let_def case_prod_unfold
    by (intro commits_and_then commits_then_do commits_result) (auto simp: no_err intro!: settled_accounts intro: k dest: own)
  have act: "i \<in> active_ids h" if "findByProfileAndUser sp u h = Some m" "m_id m = i" "m_status m = ACTIVE" for sp u h m i
    using found_by_user [OF that(1)] that(2,3) active_member by blast
  show "commits (settled g) (contributeFromAccount_tx held p cf g)"
    unfolding contributeFromAccount_tx_def Let_def
    by (intro commits_and_then commits_then_do commits_if commits_result)
      (auto simp: found_or_Ok no_err intro: k act intro!: settled_contribute_writes)
qed

subsection \<open>Every financial use case keeps the system\<close>

text \<open>
  What a transaction owes the system: the invariant, a supply that moves on, and versions that never
  go back.
\<close>

definition rows_age :: "db \<Rightarrow> db \<Rightarrow> bool" where
  "rows_age g h \<longleftrightarrow> ages m_id m_version (memberships g) (memberships h) \<and> elements_age g h"

definition system_kept :: "db \<Rightarrow> db \<Rightarrow> bool" where
  "system_kept g h \<longleftrightarrow> system_ok h \<and> ids_advance g h \<and> rows_age g h"

lemma rows_age_refl [simp]: "rows_age g g"
  by (simp add: rows_age_def)

lemma rows_age_trans: "rows_age a b \<Longrightarrow> rows_age b c \<Longrightarrow> rows_age a c"
  by (auto simp: rows_age_def elim: ages_trans elements_age_trans)

lemma ages_map: "map f ys = map f xs \<Longrightarrow> (\<And>x. key (f x) = key x) \<Longrightarrow> (\<And>x. ver (f x) = ver x) \<Longrightarrow> ages key ver xs ys"
proof -
  assume e: "map f ys = map f xs" and k: "\<And>x. key (f x) = key x" "\<And>x. ver (f x) = ver x"
  have "f ` set ys = f ` set xs" using arg_cong [OF e, of set] by simp
  then have "\<exists>y \<in> set ys. f y = f x" if "x \<in> set xs" for x
    using imageI [OF that, of f] by (metis imageE)
  then show "ages key ver xs ys" unfolding ages_iff using k by (metis order_refl)
qed

lemma settled_rows_age: "settled g h \<Longrightarrow> rows_age g h"
  by (auto simp: settled_def rows_age_def no_income_def intro: ages_map [where f = no_income])

lemma spent_system:
  assumes "system_ok g" and "commits elements_ok c" and "commits (spent g) c" and "commits (ids_advance g) c"
  shows "commits (system_kept g) c"
proof -
  have "wallet_ok h" if "elements_ok h" "spent g h" for h
    using assms(1) that accounts_ok_cong [of g h] by (simp add: system_ok_def wallet_ok_def spent_def)
  then have "system_kept g h" if "elements_ok h \<and> spent g h \<and> ids_advance g h" for h
    using that assms(1) settled_system spent_settled settled_rows_age unfolding system_kept_def by blast
  then show ?thesis
    by (rule commits_mono [OF commits_conj [OF assms(2) commits_conj [OF assms(3,4)]]])
qed

lemma settled_kept:
  assumes "system_ok g" and "commits (\<lambda>h. wallet_ok h \<and> ids_advance g h) c" and "commits (settled g) c"
  shows "commits (system_kept g) c"
  by (rule commits_mono [OF commits_conj [OF assms(2,3)]])
    (use assms(1) settled_system settled_rows_age in \<open>unfold system_kept_def, blast\<close>)

lemma system_wallet: "system_ok g \<Longrightarrow> wallet_ok g" and system_elements: "system_ok g \<Longrightarrow> elements_ok g"
  by (simp_all add: system_ok_def wallet_ok_def)

lemma contributions_kept:
  assumes "system_ok g"
  shows "commits (system_kept g) (setDeclaredIncome_tx p si g)" "commits (system_kept g) (setAllocation_tx p sa g)"
    "commits (system_kept g) (recordContribution_tx p rc g)" "commits (system_kept g) (redistribute_tx p sp as g)"
    "commits (system_kept g) (rolloverForTenant_tx t g)"
  by (rule spent_system [OF assms], rule contribution_elements [OF system_elements [OF assms]],
      rule spent_contributions spent_rollover, rule advance_use_cases advance_rollover)+

lemma elements_kept:
  assumes "system_ok g"
  shows "commits (system_kept g) (createSharedGoal_tx p sp name target g)" "commits (system_kept g) (fundGoal_tx p i a e g)"
    "commits (system_kept g) (createSharedDebt_tx p sp kind name balance g)" "commits (system_kept g) (paySharedDebt_tx p i a e g)"
    "commits (system_kept g) (setDebtResponsibility_tx p i m bp e g)"
    "commits (system_kept g) (createInvestment_tx p sp name v g)" "commits (system_kept g) (updateInvestmentValue_tx p i v e g)"
    "commits (system_kept g) (createBudget_tx p sp category limit g)" "commits (system_kept g) (recordBudgetSpend_tx p i a e g)"
    "commits (system_kept g) (reassignForLeftMember_tx t sp m g)"
  by (rule spent_system [OF assms],
      rule create_elements [OF system_elements [OF assms]] versioned_elements [OF system_elements [OF assms]]
        createSharedDebt_elements [OF system_elements [OF assms]] setDebtResponsibility_elements [OF system_elements [OF assms]]
        reassign_elements [OF system_elements [OF assms]],
      rule spent_elements spent_createBudget spent_createSharedDebt spent_setDebtResponsibility spent_reassign,
      rule advance_elements advance_createSharedDebt advance_setDebtResponsibility advance_reassign)+

lemma accounts_kept:
  assumes "system_ok g"
  shows "commits (system_kept g) (createPersonalAccount_tx held p ci g)" "commits (system_kept g) (listPersonalAccounts_tx held p g)"
    "commits (system_kept g) (accountsForOwnedProfile_tx p pi g)" "commits (system_kept g) (contributeFromAccount_tx held p cf g)"
  by (rule settled_kept [OF assms],
      rule account_use_cases_wallet [OF system_wallet [OF assms]] contributeFromAccount_wallet [OF system_wallet [OF assms]],
      rule settled_account_use_cases)+

end
