(* ===== verification/SystemGovernance.thy ===== *)
theory SystemGovernance
  imports SystemLinks
begin

section \<open>Governance under the books\<close>

text \<open>
  What a governance transaction does to the memberships and profiles, as far as the books can tell:
  memberships stay under their identifier, nobody becomes active again after leaving, a profile is
  never reopened and keeps its currency, and what is new has an identifier that no table has seen, a new
  profile moreover a normal currency. The second half
  concludes that every governance transaction keeps \<open>system_ok\<close>.
\<close>

subsection \<open>Moves\<close>

definition later_ids :: "db \<Rightarrow> uuid set" where
  "later_ids g = uid g ` {n. uid_next g \<le> n}"

definition moved :: "membership_row \<Rightarrow> membership_row \<Rightarrow> bool" where
  "moved m n \<longleftrightarrow> m_id n = m_id m \<and> m_sharedProfileId n = m_sharedProfileId m \<and> m_userId n = m_userId m
     \<and> (m_status n = INVITED \<longrightarrow> m_status m = INVITED)
     \<and> (m_status n = ACTIVE \<longrightarrow> m_status m = ACTIVE \<or> m_status m = INVITED)
     \<and> m_version m \<le> m_version n"

definition reshaped :: "shared_profile_row \<Rightarrow> shared_profile_row \<Rightarrow> bool" where
  "reshaped p q \<longleftrightarrow> sp_id q = sp_id p \<and> sp_baseCurrency q = sp_baseCurrency p \<and> (sp_status q = PROFILE_ACTIVE \<longrightarrow> sp_status p = PROFILE_ACTIVE)"

definition books_same :: "db \<Rightarrow> db \<Rightarrow> bool" where
  "books_same g h \<longleftrightarrow> users h = users g \<and> personalProfiles h = personalProfiles g \<and> accounts h = accounts g
     \<and> contributionPlans h = contributionPlans g \<and> contributionAllocations h = contributionAllocations g
     \<and> contributionPeriods h = contributionPeriods g \<and> contributionRecords h = contributionRecords g
     \<and> elements_same g h"

definition gov_moves :: "db \<Rightarrow> db \<Rightarrow> bool" where
  "gov_moves g h \<longleftrightarrow> books_same g h \<and> ids_advance g h
     \<and> (\<forall>m \<in> set (memberships g). \<exists>n \<in> set (memberships h). moved m n)
     \<and> (\<forall>n \<in> set (memberships h). (\<exists>m \<in> set (memberships g). moved m n) \<or> m_id n \<in> later_ids g)
     \<and> (\<forall>p \<in> set (sharedProfiles g). \<exists>q \<in> set (sharedProfiles h). reshaped p q)
     \<and> (\<forall>q \<in> set (sharedProfiles h). (\<exists>p \<in> set (sharedProfiles g). reshaped p q)
          \<or> sp_id q \<in> later_ids g \<and> wf_currency (sp_baseCurrency q))"

lemma moved_refl [simp]: "moved m m"
  by (simp add: moved_def)

lemma moved_trans: "moved a b \<Longrightarrow> moved b c \<Longrightarrow> moved a c"
  by (auto simp: moved_def)

lemma reshaped_refl [simp]: "reshaped p p"
  by (simp add: reshaped_def)

lemma reshaped_trans: "reshaped a b \<Longrightarrow> reshaped b c \<Longrightarrow> reshaped a c"
  by (auto simp: reshaped_def)

lemma gov_moves_refl [simp]: "gov_moves g g"
  unfolding gov_moves_def by (auto simp: books_same_def intro: moved_refl reshaped_refl)

lemma later_advance: "ids_advance g h \<Longrightarrow> later_ids h \<subseteq> later_ids g"
  by (auto simp: later_ids_def ids_advance_def)

lemma gov_moves_trans:
  assumes "gov_moves a b" and "gov_moves b c"
  shows "gov_moves a c"
proof -
  have adv: "ids_advance a b" "ids_advance b c" using assms by (simp_all add: gov_moves_def)
  note later = later_advance [OF adv(1)]
  have "\<exists>n \<in> set (memberships c). moved m n" if "m \<in> set (memberships a)" for m
    using that assms moved_trans unfolding gov_moves_def by meson
  moreover have "(\<exists>m \<in> set (memberships a). moved m n) \<or> m_id n \<in> later_ids a" if n: "n \<in> set (memberships c)" for n
  proof -
    from n assms(2) consider "m_id n \<in> later_ids b" | k where "k \<in> set (memberships b)" "moved k n"
      by (auto simp: gov_moves_def)
    then show ?thesis
    proof cases
      case 2
      then have "m_id n = m_id k" by (simp add: moved_def)
      with 2 assms(1) moved_trans show ?thesis unfolding gov_moves_def by metis
    qed (use later in auto)
  qed
  moreover have "\<exists>q \<in> set (sharedProfiles c). reshaped p q" if "p \<in> set (sharedProfiles a)" for p
    using that assms reshaped_trans unfolding gov_moves_def by meson
  moreover have "(\<exists>p \<in> set (sharedProfiles a). reshaped p q) \<or> sp_id q \<in> later_ids a \<and> wf_currency (sp_baseCurrency q)"
    if q: "q \<in> set (sharedProfiles c)" for q
  proof -
    from q assms(2) consider "sp_id q \<in> later_ids b" "wf_currency (sp_baseCurrency q)" | k where "k \<in> set (sharedProfiles b)" "reshaped k q"
      by (auto simp: gov_moves_def)
    then show ?thesis
    proof cases
      case 2
      then have "sp_id q = sp_id k" "sp_baseCurrency q = sp_baseCurrency k" by (simp_all add: reshaped_def)
      with 2 assms(1) reshaped_trans show ?thesis unfolding gov_moves_def by metis
    qed (use later in auto)
  qed
  moreover have "books_same a c"
    using assms elements_same_trans [of a b c] by (simp add: gov_moves_def books_same_def)
  moreover have "ids_advance a c" using adv ids_advance_trans by blast
  ultimately show ?thesis by (simp add: gov_moves_def)
qed

subsection \<open>The writes of governance are moves\<close>

named_theorems gov_intros "writes that are governance moves"

lemma gov_by_tables:
  "books_same h k \<Longrightarrow> ids_advance h k \<Longrightarrow> memberships k = memberships h \<Longrightarrow> sharedProfiles k = sharedProfiles h
     \<Longrightarrow> gov_moves g h \<Longrightarrow> gov_moves g k"
  by (rule gov_moves_trans, assumption) (auto simp: gov_moves_def intro: moved_refl reshaped_refl)

lemma gov_writers [gov_intros]:
  "gov_moves g h \<Longrightarrow> gov_moves g (emit t et at ai ac pl h)"
  "gov_moves g h \<Longrightarrow> gov_moves g (audit_write t r h)"
  by (rule gov_by_tables [rotated -1], assumption, simp_all add: books_same_def elements_same_def ids_advance_def)+

text \<open>Rows of the membership table changed in place.\<close>

lemma gov_members:
  assumes "\<And>m. m \<in> set (memberships h) \<Longrightarrow> c m \<Longrightarrow> moved m (f m)"
  shows "gov_moves h (h\<lparr>memberships := update_where c f (memberships h)\<rparr>)"
proof -
  have "\<exists>n \<in> set (update_where c f (memberships h)). moved m n" if m: "m \<in> set (memberships h)" for m
  proof
    show "(if c m then f m else m) \<in> set (update_where c f (memberships h))"
      unfolding update_where_def set_map by (rule imageI [OF m])
  qed (use assms [OF m] in simp)
  moreover have "\<exists>m \<in> set (memberships h). moved m n" if "n \<in> set (update_where c f (memberships h))" for n
    using that assms by (auto simp: set_update_where) (blast intro: moved_refl)+
  ultimately show ?thesis
    by (auto simp: gov_moves_def books_same_def elements_same_def ids_advance_def intro: reshaped_refl)
qed

lemma gov_profiles:
  assumes "\<And>p. reshaped p (f p)"
  shows "gov_moves h (h\<lparr>sharedProfiles := update_where c f (sharedProfiles h)\<rparr>)"
proof -
  have "\<exists>q \<in> set (update_where c f (sharedProfiles h)). reshaped p q" if p: "p \<in> set (sharedProfiles h)" for p
  proof
    show "(if c p then f p else p) \<in> set (update_where c f (sharedProfiles h))"
      unfolding update_where_def set_map by (rule imageI [OF p])
  qed (use assms in simp)
  moreover have "\<exists>p \<in> set (sharedProfiles h). reshaped p q" if "q \<in> set (update_where c f (sharedProfiles h))" for q
    using that assms by (auto simp: set_update_where) (blast intro: reshaped_refl)+
  ultimately show ?thesis
    by (auto simp: gov_moves_def books_same_def elements_same_def ids_advance_def intro: moved_refl)
qed

lemma gov_setOwner [gov_intros]: "gov_moves g h \<Longrightarrow> gov_moves g (setOwnerMembershipId i w h)"
  unfolding setOwnerMembershipId_def by (erule gov_moves_trans, rule gov_profiles) (simp add: reshaped_def)

lemma gov_archive [gov_intros]: "gov_moves g h \<Longrightarrow> gov_moves g (archiveProfileRow i t h)"
  unfolding archiveProfileRow_def by (erule gov_moves_trans, rule gov_profiles) (simp add: reshaped_def)

lemma gov_applyDelta:
  "gov_moves g h \<Longrightarrow> (\<And>m. m \<in> set (memberships h) \<Longrightarrow> m_id m = i \<Longrightarrow> moved m (delta_row d m)) \<Longrightarrow> gov_moves g (applyDelta i d h)"
  unfolding applyDelta_def by (erule gov_moves_trans, rule gov_members)

lemma gov_delta_status [gov_intros]: "gov_moves g h \<Longrightarrow> d_status d = None \<Longrightarrow> gov_moves g (applyDelta i d h)"
  by (erule gov_applyDelta) (simp add: moved_def)

lemma later_new: "new_id g \<in> later_ids g"
  by (auto simp: new_id_def later_ids_def)

lemma gov_createMembership: "createMembership t d g = (Ok m, h) \<Longrightarrow> gov_moves g h"
  by (auto simp: createMembership_Ok gov_moves_def books_same_def elements_same_def ids_advance_def later_new
      intro: moved_refl reshaped_refl)

lemma gov_createProfile: "createSharedProfileRow t d g = (p, h) \<Longrightarrow> wf_currency (toUpperCase (in_baseCurrency d)) \<Longrightarrow> gov_moves g h"
  by (auto simp: createSharedProfileRow_def Let_def gov_moves_def books_same_def elements_same_def ids_advance_def
      later_new intro: moved_refl reshaped_refl) (blast intro: reshaped_refl)+

lemma gov_changeRole: "changeRoleVersioned i role e g = (n, h) \<Longrightarrow> gov_moves g h"
  by (auto simp: changeRoleVersioned_def prismaVersionedUpdate_def Let_def intro!: gov_members) (simp add: moved_def)

subsection \<open>Every governance transaction is a move\<close>

lemma gov_transition:
  assumes "governed g"
    and ok: "\<And>m d now. decide m now = Ok d \<Longrightarrow> (case d_status d of None \<Rightarrow> True
      | Some st \<Rightarrow> (st = INVITED \<longrightarrow> ms_status m = INVITED) \<and> (st = ACTIVE \<longrightarrow> ms_status m \<in> {ACTIVE, INVITED}))"
  shows "commits (gov_moves g) (transitionOwnMembership_tx p i et aa decide g)"
  unfolding transitionOwnMembership_tx_def Let_def
proof (intro commits_intros gov_writers gov_moves_refl)
  fix m d
  assume f: "found_or (notFound None) (findMembershipById i g) = Ok m"
    and d: "decide (toMembershipState m) (clock g) = Ok d"
  from f have m: "m \<in> set (memberships g)" "m_id m = i" by (simp_all add: use_case_facts)
  have dist: "distinct (map m_id (memberships g))" using assms(1) by (simp add: governed_def keys_ok_def)
  show "gov_moves g (applyDelta i d g)"
  proof (rule gov_applyDelta [OF gov_moves_refl])
    fix q assume "q \<in> set (memberships g)" "m_id q = i"
    then have "q = m" using dist m distinct_key_eq by metis
    with ok [OF d] show "moved q (delta_row d q)" by (auto simp: moved_def split: option.splits)
  qed
qed

lemma gov_own_transitions:
  assumes "governed g"
  shows "commits (gov_moves g) (transitionOwnMembership_tx p i et aa accept g)"
    and "commits (gov_moves g) (transitionOwnMembership_tx p i et aa (\<lambda>m now. decline m) g)"
    and "commits (gov_moves g) (transitionOwnMembership_tx p i et aa leave g)"
  using assms by (auto intro!: gov_transition simp: transition_Ok)

lemma gov_nominate: "commits (gov_moves g) (nominateOwner_tx p sp i g)"
  unfolding nominateOwner_tx_def Let_def
  by (intro commits_intros gov_intros gov_moves_refl) (auto simp: transition_Ok)

lemma gov_acceptOwnership: "commits (gov_moves g) (acceptOwnership_tx p sp g)"
  unfolding acceptOwnership_tx_def Let_def
  by (intro commits_intros gov_intros gov_moves_refl) (auto simp: acceptOwnership_Ok)

lemma gov_archiveProfile: "commits (gov_moves g) (archiveProfile_tx p sp g)"
  unfolding archiveProfile_tx_def Let_def by (intro commits_intros gov_intros gov_moves_refl)

lemma gov_changeMemberRole: "commits (gov_moves g) (changeMemberRole_tx p i role e g)"
  unfolding changeMemberRole_tx_def Let_def
  by (intro commits_and_then commits_then_do commits_if commits_result;
      (auto intro!: gov_intros dest: gov_changeRole simp: updateWithOptimisticLock_def split: prod.splits if_splits)?)

lemma gov_inviteMember: "commits (gov_moves g) (inviteMember_tx p i g)"
  unfolding inviteMember_tx_def Let_def
  by (intro commits_and_then commits_then_do commits_if commits_result;
      (auto intro!: gov_intros dest: gov_createMembership simp: createMembership_not_Err)?)

text \<open>The pipe lets a currency of three letters through, which the repository stores in capitals.\<close>

lemma gov_createSharedProfile:
  assumes "wf_currency (toUpperCase (in_baseCurrency i))"
  shows "commits (gov_moves g) (createSharedProfile_tx p i g)"
proof -
  obtain q g1 where c: "createSharedProfileRow (pr_tenantId p) i g = (q, g1)" by fastforce
  have "gov_moves g h" if "createMembership t d g1 = (Ok m, h)" for t d m h
    using gov_moves_trans [OF gov_createProfile [OF c assms] gov_createMembership [OF that]] .
  then show ?thesis
    unfolding createSharedProfile_tx_def Let_def c split_conv
    by (intro commits_then_do commits_result) (auto intro!: gov_intros simp: createMembership_not_Err)
qed

lemma gov_expire_rows: "gov_moves g h \<Longrightarrow> expire_rows t now rows k h = (n, h') \<Longrightarrow> gov_moves g h'"
proof (induction rows arbitrary: h k)
  case Nil
  then show ?case by simp
next
  case (Cons row rows)
  let ?hit = "\<lambda>m. m_id m = m_id row \<and> m_status m = INVITED"
  have "gov_moves g (h\<lparr>memberships := update_where ?hit (\<lambda>m. m\<lparr>m_status := EXPIRED\<rparr>) (memberships h)\<rparr>)"
    by (rule gov_moves_trans [OF Cons.prems(1)], rule gov_members) (simp add: moved_def)
  then have "gov_moves g (audit_write t r (emit t et at ai ac pl
      (h\<lparr>memberships := update_where ?hit (\<lambda>m. m\<lparr>m_status := EXPIRED\<rparr>) (memberships h)\<rparr>)))" for r et at ai ac pl
    by (intro gov_intros)
  then show ?case using Cons.prems by (auto simp: Let_def split: if_splits elim!: Cons.IH [rotated])
qed

lemma gov_expiry: "commits (gov_moves g) (expiry_runForTenant_tx t g)"
  using gov_expire_rows [OF gov_moves_refl, where g = g and t = t and now = "clock g" and k = 0
      and rows = "take 500 (filter (due_invitation (clock g)) (memberships g))"]
  by (auto simp: commits_def expiry_runForTenant_tx_def split: prod.splits)

subsection \<open>Moves keep the books\<close>

text \<open>An active membership after the move held its percentage while active before.\<close>

lemma later_not_linked:
  assumes "fresh_ids g" and "i \<in> later_ids g"
  shows "i \<notin> linked_ids g" and "i \<notin> profile_ids g" and "i \<notin> m_id ` set (memberships g)"
  using assms by (auto simp: later_ids_def fresh_ids_def all_ids_def linked_ids_def profile_ids_def)

lemma unlinked_commits_nothing:
  assumes "links_ok g" and "m_id m \<notin> linked_ids g"
  shows "commit_bp g m = 0"
proof -
  have "allocationFor pl (m_id m) g = None" for pl
    using links_ok_D(1) [OF assms(1)] assms(2) by (fastforce simp: allocationFor_def find_None_iff)
  then show ?thesis by (simp add: commit_bp_eq split: option.splits)
qed

lemma moves_committed:
  assumes mv: "gov_moves g h" and links: "links_ok g" and plans: "plans_ok g" and d: "distinct (map m_id (memberships h))"
  shows "committed u h \<le> committed u g"
proof -
  have cb: "commit_bp h m = commit_bp g m" for m
    using mv commit_bp_cong [of h g] by (simp add: gov_moves_def books_same_def)
  have fresh: "fresh_ids g" and dg: "distinct (map m_id (memberships g))" using plans by (simp_all add: plans_ok_def)
  have traced: "\<exists>m \<in> set (active_of u g). m_id m = m_id n \<and> commit_bp g m = commit_bp g n"
    if n: "n \<in> set (active_of u h)" "commit_bp g n \<noteq> 0" for n
  proof -
    have l: "m_id n \<in> linked_ids g" using unlinked_commits_nothing [OF links] n(2) by blast
    then have "m_id n \<notin> later_ids g" using later_not_linked(1) [OF fresh] by blast
    then obtain m where m: "m \<in> set (memberships g)" "moved m n"
      using mv n(1) by (auto simp: gov_moves_def active_of_def)
    from l obtain k where "k \<in> set (memberships g)" "m_id k = m_id n" "m_status k \<noteq> INVITED" by (auto simp: linked_ids_def)
    then have "m_status m \<noteq> INVITED" using m dg distinct_key_eq unfolding moved_def by metis
    then have "m \<in> set (active_of u g)" using m n(1) by (auto simp: active_of_def moved_def)
    moreover have "m_id n = m_id m" "m_sharedProfileId n = m_sharedProfileId m" using m(2) by (simp_all add: moved_def)
    then have "commit_bp g m = commit_bp g n" by (simp add: commit_bp_eq cong: option.case_cong)
    ultimately show ?thesis using m(2) by (auto simp: moved_def)
  qed
  have "sum (commit_bp g) (set (active_of u h)) \<le> sum (commit_bp g) (set (active_of u g))"
  proof -
    let ?S = "{n \<in> set (active_of u h). commit_bp g n \<noteq> 0}"
    have inj: "inj_on m_id (set (memberships h))" using d by (simp add: distinct_map)
    have "sum (commit_bp g) (set (active_of u h)) = sum (commit_bp g) ?S"
      by (rule sum.mono_neutral_right) auto
    also have "\<dots> \<le> sum (commit_bp g) (set (active_of u g))"
    proof (rule sum_le_included [where i = "\<lambda>m. THE n. n \<in> set (memberships h) \<and> m_id n = m_id m"])
      show "\<forall>y \<in> set (active_of u g). 0 \<le> commit_bp g y" using commit_bp_nonneg [OF plans] by blast
      show "\<forall>x \<in> ?S. \<exists>y \<in> set (active_of u g). (THE n. n \<in> set (memberships h) \<and> m_id n = m_id y) = x \<and> commit_bp g x \<le> commit_bp g y"
      proof
        fix n assume n: "n \<in> ?S"
        then obtain m where m: "m \<in> set (active_of u g)" "m_id m = m_id n" "commit_bp g m = commit_bp g n"
          using traced by blast
        have "(THE k. k \<in> set (memberships h) \<and> m_id k = m_id m) = n"
          using n m(2) inj by (intro the_equality) (auto simp: active_of_def dest: inj_onD)
        with m show "\<exists>y \<in> set (active_of u g). (THE n. n \<in> set (memberships h) \<and> m_id n = m_id y) = n \<and> commit_bp g n \<le> commit_bp g y"
          by force
      qed
    qed simp_all
    finally show ?thesis .
  qed
  moreover have "committed u k = sum (commit_bp k) (set (active_of u k))" if "distinct (map m_id (memberships k))" for k
  proof -
    have "distinct (active_of u k)" using that by (simp add: active_of_def distinct_map)
    then show ?thesis by (simp add: committed_sum sum_list_distinct_conv_sum_set)
  qed
  moreover have "commit_bp h = commit_bp g" by (rule ext) (rule cb)
  ultimately show ?thesis using d dg by simp
qed

text \<open>An active profile after the move was active before, or is new and has no periods.\<close>

lemma moves_live:
  assumes mv: "gov_moves g h" and links: "links_ok g" and gov: "governed g" and gov': "governed h" and "live g sp"
  shows "live h sp"
proof (cases "profile_active sp h")
  case True
  then obtain q where q: "q \<in> set (sharedProfiles h)" "sp_id q = sp" "sp_status q = PROFILE_ACTIVE"
    by (auto simp: profile_active_def dest!: found_profile split: option.splits)
  have pers: "periods_of sp h = periods_of sp g"
    using mv by (simp add: periods_of_def gov_moves_def books_same_def)
  from q mv consider "sp \<in> later_ids g" | p where "p \<in> set (sharedProfiles g)" "reshaped p q"
    by (auto simp: gov_moves_def)
  then show ?thesis
  proof cases
    case 1
    then have "sp \<notin> profile_ids g" using later_not_linked(2) gov by (simp add: governed_def)
    then have "periods_of sp g = []" using links_ok_D(2) [OF links] by (auto simp: periods_of_def filter_empty_conv)
    then show ?thesis by (simp add: live_def pers)
  next
    case 2
    have "distinct (map sp_id (sharedProfiles g))" using gov by (simp add: governed_def keys_ok_def)
    then have "findSharedProfile sp g = Some p"
      using find_unique [of sp_id "sharedProfiles g" p] 2 q(2) by (simp add: findSharedProfile_def reshaped_def)
    then have "profile_active sp g" using 2 q(3) by (simp add: profile_active_def reshaped_def)
    then show ?thesis using assms(5) by (simp add: live_def pers)
  qed
qed (simp add: live_def)

lemma moves_links:
  assumes mv: "gov_moves g h" and links: "links_ok g"
  shows "links_ok h"
proof -
  have ids: "linked_ids g \<subseteq> linked_ids h"
  proof
    fix i assume "i \<in> linked_ids g"
    then obtain m where m: "m \<in> set (memberships g)" "m_id m = i" "m_status m \<noteq> INVITED" by (auto simp: linked_ids_def)
    then obtain n where n: "n \<in> set (memberships h)" "moved m n" using mv by (auto simp: gov_moves_def)
    then have "m_status n \<noteq> INVITED" using m(3) by (auto simp: moved_def)
    then have "m_id n \<in> linked_ids h" using n(1) by (simp add: linked_ids_def)
    with m(2) n(2) show "i \<in> linked_ids h" by (simp add: moved_def)
  qed
  have profs: "profile_ids g \<subseteq> profile_ids h"
  proof
    fix i assume "i \<in> profile_ids g"
    then obtain p where p: "p \<in> set (sharedProfiles g)" "sp_id p = i" by (auto simp: profile_ids_def)
    then obtain q where q: "q \<in> set (sharedProfiles h)" "reshaped p q" using mv by (auto simp: gov_moves_def)
    then have "sp_id q \<in> profile_ids h" by (simp add: profile_ids_def)
    with p(2) q(2) show "i \<in> profile_ids h" by (simp add: reshaped_def)
  qed
  have same: "books_same g h" using mv by (simp add: gov_moves_def)
  have wf: "\<forall>p \<in> set (sharedProfiles g). wf_currency (sp_baseCurrency p)" "distinct (map u_id (users g))"
    using links by (simp_all add: links_ok_def readable_def list_all_iff)
  have "wf_currency (sp_baseCurrency q)" if "q \<in> set (sharedProfiles h)" for q
    using that mv wf(1) unfolding gov_moves_def reshaped_def by metis
  then have read: "readable h" using wf(2) same by (simp add: readable_def list_all_iff books_same_def)
  have mono: "all_in key I xs \<Longrightarrow> I \<subseteq> J \<Longrightarrow> all_in key J xs" for key and xs :: "'r list" and I J
    by (auto simp: points_def)
  show ?thesis
    using links same unfolding links_ok_def books_same_def elements_same_def
    by (simp add: read mono [OF _ ids] mono [OF _ profs])
qed

lemma moves_wallet:
  assumes mv: "gov_moves g h" and sys: "system_ok g" and gov: "governed h"
  shows "wallet_ok h"
proof -
  have w: "wallet_ok g" and links: "links_ok g" and gg: "governed g" using sys by (simp_all add: system_ok_def)
  have same: "books_same g h" using mv by (simp add: gov_moves_def)
  have books: "books_ok g" "elements_wf g" "accounts_ok g" using w by (simp_all add: wallet_ok_def elements_ok_def)
  then have led: "plans_ok g" "periods_wf g" "within_cap g" "\<And>sp. live g sp" by (simp_all add: books_ok_def ledger_ok_def)
  have plans: "plans_ok h"
    using led(1) gov same unfolding plans_ok_def governed_def keys_ok_def books_same_def by simp
  moreover have "periods_wf h"
    using same by (intro periods_wf_cong [OF led(2)]) (simp_all add: books_same_def)
  moreover have "live h sp" for sp by (rule moves_live [OF mv links gg gov led(4)])
  moreover have "within_cap h"
  proof -
    have "distinct (map m_id (memberships h))" using plans by (simp add: plans_ok_def)
    from moves_committed [OF mv links led(1) this] led(3) show ?thesis by (meson within_cap_def order_trans)
  qed
  ultimately have "books_ok h" by (simp add: books_ok_def ledger_ok_def)
  moreover have "elements_wf h"
    using same by (intro elements_wf_cong [OF books(2)]) (simp_all add: books_same_def elements_same_def)
  moreover have "accounts_ok h" using accounts_ok_cong [OF books(3)] same by (simp add: books_same_def)
  ultimately show ?thesis by (simp add: wallet_ok_def elements_ok_def)
qed

lemma moves_rows_age: "gov_moves g h \<Longrightarrow> rows_age g h"
  unfolding rows_age_def ages_iff
  by (auto simp: gov_moves_def moved_def books_same_def elements_same_def elements_age_def)

lemma moves_system:
  assumes "system_ok g" and "commits (governed_from g) c" and "commits (gov_moves g) c"
  shows "commits (system_kept g) c"
proof -
  have "system_kept g h" if "governed_from g h \<and> gov_moves g h" for h
    using that moves_wallet [OF _ assms(1), of h] moves_links [of g h] assms(1)
    by (simp add: system_kept_def system_ok_def governed_from_def moves_rows_age gov_moves_def)
  then show ?thesis by (rule commits_mono [OF commits_conj [OF assms(2,3)]])
qed

lemma governance_kept:
  assumes "system_ok g"
  shows "wf_currency (toUpperCase (in_baseCurrency ci)) \<Longrightarrow> commits (system_kept g) (createSharedProfile_tx p ci g)"
    and "commits (system_kept g) (inviteMember_tx p ii g)"
    "commits (system_kept g) (transitionOwnMembership_tx p i et aa accept g)"
    "commits (system_kept g) (transitionOwnMembership_tx p i et aa (\<lambda>m now. decline m) g)"
    "commits (system_kept g) (transitionOwnMembership_tx p i et aa leave g)"
    "commits (system_kept g) (changeMemberRole_tx p i role e g)" "commits (system_kept g) (nominateOwner_tx p sp i g)"
    "commits (system_kept g) (acceptOwnership_tx p sp g)" "commits (system_kept g) (archiveProfile_tx p sp g)"
    "commits (system_kept g) (expiry_runForTenant_tx t g)"
proof -
  have g: "governed g" using assms by (simp add: system_ok_def)
  note own = gov_own_transitions [OF g]
  show "commits (system_kept g) (createSharedProfile_tx p ci g)" if "wf_currency (toUpperCase (in_baseCurrency ci))"
    by (rule moves_system [OF assms], rule commits_intros, rule g, rule gov_createSharedProfile [OF that])
  show "commits (system_kept g) (inviteMember_tx p ii g)"
    "commits (system_kept g) (transitionOwnMembership_tx p i et aa accept g)"
    "commits (system_kept g) (transitionOwnMembership_tx p i et aa (\<lambda>m now. decline m) g)"
    "commits (system_kept g) (transitionOwnMembership_tx p i et aa leave g)"
    "commits (system_kept g) (changeMemberRole_tx p i role e g)" "commits (system_kept g) (nominateOwner_tx p sp i g)"
    "commits (system_kept g) (acceptOwnership_tx p sp g)" "commits (system_kept g) (archiveProfile_tx p sp g)"
    "commits (system_kept g) (expiry_runForTenant_tx t g)"
    by (rule moves_system [OF assms], rule commits_intros, rule g,
        rule own gov_inviteMember gov_changeMemberRole gov_nominate gov_acceptOwnership gov_archiveProfile gov_expiry)+
qed

end
