(* ===== verification/Services.thy ===== *)
theory Services
  imports Resolvers
begin

section \<open>What the resolvers ask of the services\<close>

text \<open>
  Every request reaches the database through the service calls of its resolver. The contract
  \<open>service_contract\<close> lists these calls and asks each to keep a predicate on databases; its
  conclusion is that every request of the principal keeps it. It is met twice: by the rows of the
  tenants the principal does not belong to, here, and by the invariant of the whole database in
  \<open>SystemRuns\<close>.
\<close>

definition keeps :: "(db \<Rightarrow> bool) \<Rightarrow> (db \<Rightarrow> 'a result \<times> db) \<Rightarrow> bool" where
  "keeps P f \<longleftrightarrow> (\<forall>g. P g \<longrightarrow> P (snd (f g)))"

lemma keeps_D: "keeps P f \<Longrightarrow> P g \<Longrightarrow> P (snd (f g))"
  by (simp add: keeps_def)

lemma then_do_keeps:
  assumes "P (snd c)" and "\<And>v. keeps P (k v)"
  shows "P (snd (then_do c k))"
  using assms by (cases c; cases "fst c") (auto simp: keeps_def)

subsection \<open>The contract\<close>

locale service_contract =
  fixes P :: "db \<Rightarrow> bool" and p :: tenant_principal
  assumes profiles:
    "keeps P (me p)" "keeps P (sharedProfile p i)" "keeps P (myMemberships p)" "keeps P (membershipById p i)"
    "keeps P (inviteMember p ii)" "keeps P (acceptInvitation p i)"
    "keeps P (declineInvitation p i)" "keeps P (leaveProfile p i)" "keeps P (changeMemberRole p i role e)"
    "keeps P (nominateOwner_uc p sp i)" "keeps P (acceptOwnership_uc p sp)" "keeps P (archiveProfile p sp)"
  and founding: "valid_CreateSharedProfileInput ci \<Longrightarrow> keeps P (createSharedProfile p ci)"
  and contributions:
    "keeps P (setDeclaredIncome p si)" "keeps P (setAllocation p sa)" "keeps P (recordContribution p rc)"
    "keeps P (redistribute p sp as)" "keeps P (remainingAllocationPercentageBp p)"
  and contribution_queries:
    "keeps P (planDto p i)" "keeps P (contributions_membershipById p i)" "keeps P (recordDto p i)"
    "keeps P (recordsForProfile p i cur pg per)" "keeps P (poolTotal p i cur per)" "keeps P (poolTotalByProfileId p i)"
    "keeps P (currentPeriod p i)" "keeps P (standing p md per)" "keeps P (allocationPercentageBp p md)"
  and elements:
    "keeps P (createSharedGoal p sp name target)" "keeps P (fundGoal_uc p i a e)"
    "keeps P (createSharedDebt p sp kind name balance)" "keeps P (paySharedDebt p i a e)"
    "keeps P (setDebtResponsibility p i m bp e)" "keeps P (createInvestment p sp name v)"
    "keeps P (updateInvestmentValue_uc p i v e)" "keeps P (createBudget p sp category limit)"
    "keeps P (recordBudgetSpend p i a e)"
  and element_queries:
    "keeps P (goalsForProfile p i cur pg)" "keeps P (read_debtsForProfile p i cur)" "keeps P (investmentsForProfile p i cur)"
    "keeps P (budgetsForProfile p i cur)" "keeps P (goalById p i)" "keeps P (debtById p i)" "keeps P (investmentById p i)"
    "keeps P (budgetById p i)"
  and accounts:
    "keeps P (createPersonalAccount p ca)" "keeps P (accountsForOwnedProfile p i)" "keeps P (contributeFromAccount p cf)"
  and coaching: "keeps P (readModel p i)"

subsection \<open>Steps\<close>

text \<open>
  One service call of a principal, each a transaction of its own, by what it makes of the database. The
  arguments are any, but for the input of a new profile: the pipe has validated it, its currency in
  particular, before the resolver calls the service.
\<close>

inductive service_step :: "tenant_principal \<Rightarrow> db \<Rightarrow> db \<Rightarrow> bool" for p where
  "service_step p g (snd (me p g))"
| "service_step p g (snd (sharedProfile p i g))"
| "service_step p g (snd (myMemberships p g))"
| "service_step p g (snd (membershipById p i g))"
| "valid_CreateSharedProfileInput ci \<Longrightarrow> service_step p g (snd (createSharedProfile p ci g))"
| "service_step p g (snd (inviteMember p ii g))"
| "service_step p g (snd (acceptInvitation p i g))"
| "service_step p g (snd (declineInvitation p i g))"
| "service_step p g (snd (leaveProfile p i g))"
| "service_step p g (snd (changeMemberRole p i role e g))"
| "service_step p g (snd (nominateOwner_uc p sp i g))"
| "service_step p g (snd (acceptOwnership_uc p sp g))"
| "service_step p g (snd (archiveProfile p sp g))"
| "service_step p g (snd (setDeclaredIncome p si g))"
| "service_step p g (snd (setAllocation p sa g))"
| "service_step p g (snd (recordContribution p rc g))"
| "service_step p g (snd (redistribute p sp as g))"
| "service_step p g (snd (remainingAllocationPercentageBp p g))"
| "service_step p g (snd (planDto p i g))"
| "service_step p g (snd (contributions_membershipById p i g))"
| "service_step p g (snd (recordDto p i g))"
| "service_step p g (snd (recordsForProfile p i cur pg per g))"
| "service_step p g (snd (poolTotal p i cur per g))"
| "service_step p g (snd (poolTotalByProfileId p i g))"
| "service_step p g (snd (currentPeriod p i g))"
| "service_step p g (snd (standing p md per g))"
| "service_step p g (snd (allocationPercentageBp p md g))"
| "service_step p g (snd (createSharedGoal p sp name target g))"
| "service_step p g (snd (fundGoal_uc p i a e g))"
| "service_step p g (snd (createSharedDebt p sp kind name balance g))"
| "service_step p g (snd (paySharedDebt p i a e g))"
| "service_step p g (snd (setDebtResponsibility p i m bp e g))"
| "service_step p g (snd (createInvestment p sp name v g))"
| "service_step p g (snd (updateInvestmentValue_uc p i v e g))"
| "service_step p g (snd (createBudget p sp category limit g))"
| "service_step p g (snd (recordBudgetSpend p i a e g))"
| "service_step p g (snd (goalsForProfile p i cur pg g))"
| "service_step p g (snd (read_debtsForProfile p i cur g))"
| "service_step p g (snd (investmentsForProfile p i cur g))"
| "service_step p g (snd (budgetsForProfile p i cur g))"
| "service_step p g (snd (goalById p i g))"
| "service_step p g (snd (debtById p i g))"
| "service_step p g (snd (investmentById p i g))"
| "service_step p g (snd (budgetById p i g))"
| "service_step p g (snd (createPersonalAccount p ca g))"
| "service_step p g (snd (accountsForOwnedProfile p i g))"
| "service_step p g (snd (contributeFromAccount p cf g))"
| "service_step p g (snd (readModel p i g))"

lemma contract_of_steps:
  assumes "\<And>g h. P g \<Longrightarrow> service_step p g h \<Longrightarrow> P h"
  shows "service_contract P p"
  unfolding service_contract_def keeps_def
  by (intro conjI allI impI; erule assms; (rule service_step.intros; assumption?))

context service_contract
begin

lemma step_kept: "service_step p g h \<Longrightarrow> P g \<Longrightarrow> P h"
  by (erule service_step.cases)
    (simp_all add: profiles [unfolded keeps_def] founding [unfolded keeps_def] contributions [unfolded keeps_def] contribution_queries [unfolded keeps_def]
      elements [unfolded keeps_def] element_queries [unfolded keeps_def] accounts [unfolded keeps_def] coaching [unfolded keeps_def])

end

subsection \<open>Resolvers\<close>

definition on_world :: "(db \<Rightarrow> bool) \<Rightarrow> 'c world \<Rightarrow> bool" where
  "on_world P w \<longleftrightarrow> P (w_db w)"

lemma world_call:
  assumes "keeps P f" and "on_world P w" and "\<And>v w1. on_world P w1 \<Longrightarrow> on_world P (snd (k v w1))"
  shows "on_world P (snd (call f w k))"
proof -
  obtain r g where fg: "f (w_db w) = (r, g)" by fastforce
  then have "on_world P (w\<lparr>w_db := g\<rparr>)" using keeps_D [OF assms(1)] assms(2) by (fastforce simp: on_world_def)
  with assms(3) fg show ?thesis by (auto simp: call_def ask_def split: answer.splits)
qed

lemma world_ask: "on_world P w \<Longrightarrow> (\<And>v. on_world P (snd (k v))) \<Longrightarrow> on_world P (snd (ask a w k))"
  by (simp add: ask_def split: answer.splits)

lemma world_checked: "on_world P w \<Longrightarrow> (c \<Longrightarrow> on_world P (snd k)) \<Longrightarrow> on_world P (snd (checked c w k))"
  by (simp add: checked_def)

lemma world_return: "on_world P w \<Longrightarrow> on_world P (snd (return_data v w))"
  by (simp add: return_data_def)

lemma world_publishes:
  "on_world P w \<Longrightarrow> on_world P (onAllocationSet R t i m w)" "on_world P w \<Longrightarrow> on_world P (onRedistributed R t i m w)"
  "on_world P w \<Longrightarrow> on_world P (onContributionRecorded R t i m st w)"
  by (simp_all add: on_world_def onAllocationSet_def onRedistributed_def onContributionRecorded_def publishPool_def
      publishStanding_def world_publish_def invalidate_def Let_def split: prod.splits option.splits)

lemma world_option: "on_world P w \<Longrightarrow> (\<And>m. on_world P (f m)) \<Longrightarrow> on_world P (case x of None \<Rightarrow> w | Some m \<Rightarrow> f m)"
  by (simp split: option.splits)

lemma snd_dropped [simp]: "snd (dropped r) = snd r"
  by (simp add: dropped_def)

definition request_of :: "tenant_principal \<Rightarrow> gql_context \<Rightarrow> bool" where
  "request_of p ctx \<longleftrightarrow> ctx_principal ctx = None \<or> ctx_principal ctx = Some p"

context service_contract
begin

lemma world_principal:
  "request_of p ctx \<Longrightarrow> on_world P w \<Longrightarrow> on_world P (snd (k p)) \<Longrightarrow> on_world P (snd (with_principal ctx w k))"
  by (auto simp: request_of_def with_principal_def principalOf_def ask_def)

lemma standing_by_id: "keeps P (standingByMembershipId p i)"
  unfolding keeps_def standingByMembershipId_def
  by (intro allI impI then_do_keeps [where P = P] keeps_D [where P = P, OF contribution_queries(2)] contribution_queries(8))

lemma world_shown: "on_world P w \<Longrightarrow> on_world P (snd (shown_profile p i w))"
  unfolding shown_profile_def by (rule world_call [OF profiles(2)]) (auto intro: world_ask world_return)

lemmas world_intros = world_principal world_checked world_call world_ask world_return world_shown
  profiles founding contributions contribution_queries elements element_queries accounts coaching standing_by_id

lemma profile_requests:
  assumes "request_of p ctx" and "on_world P w"
  shows "on_world P (snd (resolve_me ctx w))" "on_world P (snd (resolve_sharedProfile ctx i w))"
    "on_world P (snd (resolve_myMemberships ctx w))" "on_world P (snd (resolve_createSharedProfile ctx ci w))"
    "on_world P (snd (resolve_inviteMember ctx ii w))" "on_world P (snd (resolve_acceptInvitation ctx i w))"
    "on_world P (snd (resolve_declineInvitation ctx i w))" "on_world P (snd (resolve_changeMemberRole ctx i r v w))"
    "on_world P (snd (resolve_leaveProfile ctx i w))" "on_world P (snd (resolve_nominateOwner ctx sp m w))"
    "on_world P (snd (resolve_acceptOwnership ctx sp w))" "on_world P (snd (resolve_archiveProfile ctx sp w))"
  unfolding resolve_me_def resolve_sharedProfile_def resolve_myMemberships_def resolve_createSharedProfile_def
    resolve_inviteMember_def resolve_acceptInvitation_def resolve_declineInvitation_def resolve_changeMemberRole_def
    resolve_leaveProfile_def resolve_nominateOwner_def resolve_acceptOwnership_def resolve_archiveProfile_def
  by (intro world_intros assms; assumption?)+

lemma contribution_requests:
  assumes "request_of p ctx" and "on_world P w"
  shows "on_world P (snd (resolve_setDeclaredIncome ctx si w))" "on_world P (snd (resolve_setAllocation R ctx sa w))"
    "on_world P (snd (resolve_recordContribution R ctx rc w))" "on_world P (snd (resolve_redistribute R ctx sp as w))"
    "on_world P (snd (resolve_remainingAllocationPercentageBp ctx w))" "on_world P (snd (resolve_poolTotal ctx d per w))"
    "on_world P (snd (resolve_contributionRecords ctx d pg per w))" "on_world P (snd (resolve_currentPeriod ctx d w))"
    "on_world P (snd (resolve_standing ctx md per w))" "on_world P (snd (resolve_allocationPercentageBp ctx md w))"
  unfolding resolve_setDeclaredIncome_def resolve_setAllocation_def resolve_recordContribution_def resolve_redistribute_def
    resolve_remainingAllocationPercentageBp_def resolve_poolTotal_def resolve_contributionRecords_def
    resolve_currentPeriod_def resolve_standing_def resolve_allocationPercentageBp_def Let_def
  by (intro world_intros assms world_option world_publishes; assumption?)+

lemma element_requests:
  assumes "request_of p ctx" and "on_world P w"
  shows "on_world P (snd (resolve_sharedGoals ctx d pg w))" "on_world P (snd (resolve_sharedDebts ctx d w))"
    "on_world P (snd (resolve_sharedInvestments ctx d w))" "on_world P (snd (resolve_sharedBudgets ctx d w))"
    "on_world P (snd (resolve_createSharedGoal ctx sp n a w))" "on_world P (snd (resolve_fundGoal ctx i a v w))"
    "on_world P (snd (resolve_createSharedDebt ctx sp k n a w))" "on_world P (snd (resolve_paySharedDebt ctx i a v w))"
    "on_world P (snd (resolve_setDebtResponsibility ctx i m bp v w))" "on_world P (snd (resolve_createSharedInvestment ctx sp n a w))"
    "on_world P (snd (resolve_updateInvestmentValue ctx i a v w))" "on_world P (snd (resolve_createSharedBudget ctx sp n a w))"
    "on_world P (snd (resolve_recordBudgetSpend ctx i a v w))"
  unfolding resolve_sharedGoals_def resolve_sharedDebts_def resolve_sharedInvestments_def resolve_sharedBudgets_def
    resolve_createSharedGoal_def resolve_fundGoal_def resolve_createSharedDebt_def resolve_paySharedDebt_def
    resolve_setDebtResponsibility_def resolve_createSharedInvestment_def resolve_updateInvestmentValue_def
    resolve_createSharedBudget_def resolve_recordBudgetSpend_def
  by (intro world_intros assms; assumption?)+

lemma other_requests:
  assumes "request_of p ctx" and "on_world P w"
  shows "on_world P (snd (resolve_accounts ctx pd w))" "on_world P (snd (resolve_createPersonalAccount ctx ca w))"
    "on_world P (snd (resolve_contributeFromAccount ctx cf w))" "on_world P (snd (resolve_coachingInsights C ctx sp w))"
  unfolding resolve_accounts_def resolve_createPersonalAccount_def resolve_contributeFromAccount_def
    resolve_coachingInsights_def case_prod_unfold
  by (intro world_intros assms; assumption?)+

theorem respond_keeps:
  "request_of p ctx \<Longrightarrow> on_world P w \<Longrightarrow> on_world P (snd (respond R C ctx req w))"
  by (cases req)
    (simp_all add: profile_requests contribution_requests element_requests other_requests)

end

subsection \<open>Other tenants\<close>

lemma same_tables_trans: "same_tables a b \<Longrightarrow> same_tables b c \<Longrightarrow> same_tables a c"
  by (cases a; cases b; cases c) (auto simp: same_tables_def)

lemma keeps_foreign_by:
  assumes "u \<noteq> t"
  shows "keeps (\<lambda>g. same_tables v (tenant_view u g)) (\<lambda>g. withTenant t (f g) g)"
  unfolding keeps_def
proof (intro allI impI)
  fix g assume g: "same_tables v (tenant_view u g)"
  obtain r g' where w: "withTenant t (f g) g = (r, g')" by fastforce
  show "same_tables v (tenant_view u (snd (withTenant t (f g) g)))"
    using same_tables_trans [OF g withTenant_other [OF w assms]] by (simp add: w)
qed

lemma keeps_foreign: "u \<noteq> t \<Longrightarrow> keeps (\<lambda>g. same_tables v (tenant_view u g)) (withTenant t f)"
  by (rule keeps_foreign_by)

lemmas service_methods = me_def sharedProfile_def myMemberships_def membershipById_def createSharedProfile_def inviteMember_def
  acceptInvitation_def declineInvitation_def leaveProfile_def changeMemberRole_def nominateOwner_uc_def acceptOwnership_uc_def
  archiveProfile_def setDeclaredIncome_def setAllocation_def recordContribution_def redistribute_def
  remainingAllocationPercentageBp_def planDto_def contributions_membershipById_def recordDto_def recordsForProfile_def
  poolTotal_def poolTotalByProfileId_def currentPeriod_def standing_def allocationPercentageBp_def createSharedGoal_def
  fundGoal_uc_def createSharedDebt_def paySharedDebt_def setDebtResponsibility_def createInvestment_def
  updateInvestmentValue_uc_def createBudget_def recordBudgetSpend_def goalsForProfile_def read_debtsForProfile_def
  investmentsForProfile_def budgetsForProfile_def goalById_def debtById_def investmentById_def budgetById_def
  createPersonalAccount_def accountsForOwnedProfile_def contributeFromAccount_def readModel_def

lemma foreign_contract:
  "u \<noteq> pr_tenantId p \<Longrightarrow> service_contract (\<lambda>g. same_tables v (tenant_view u g)) p"
  by unfold_locales (simp_all add: service_methods keeps_foreign keeps_foreign_by)

subsection \<open>Requests without a principal\<close>

lemma no_principal: "ctx_principal ctx = None \<Longrightarrow> with_principal ctx w k = (Rejected unauthenticated, w)"
  by (simp add: with_principal_def principalOf_def ask_def)

text \<open>The code of the refusal: the validation pipe may speak before the resolver does.\<close>

definition refused :: "unit answer \<times> 'c world \<Rightarrow> 'c world \<Rightarrow> bool" where
  "refused r w \<longleftrightarrow> r = (Rejected unauthenticated, w) \<or> r = (Rejected bad_input, w)"

lemma respond_unauthenticated:
  assumes "ctx_principal ctx = None"
  shows "refused (respond R C ctx req w) w"
proof -
  note resolvers = resolve_me_def resolve_sharedProfile_def resolve_myMemberships_def resolve_createSharedProfile_def
    resolve_inviteMember_def resolve_acceptInvitation_def resolve_declineInvitation_def resolve_changeMemberRole_def
    resolve_leaveProfile_def resolve_nominateOwner_def resolve_acceptOwnership_def resolve_archiveProfile_def
    resolve_setDeclaredIncome_def resolve_setAllocation_def resolve_recordContribution_def resolve_redistribute_def
    resolve_remainingAllocationPercentageBp_def resolve_poolTotal_def resolve_contributionRecords_def
    resolve_currentPeriod_def resolve_standing_def resolve_allocationPercentageBp_def
    resolve_sharedGoals_def resolve_sharedDebts_def resolve_sharedInvestments_def resolve_sharedBudgets_def
    resolve_createSharedGoal_def resolve_fundGoal_def resolve_createSharedDebt_def resolve_paySharedDebt_def
    resolve_setDebtResponsibility_def resolve_createSharedInvestment_def resolve_updateInvestmentValue_def
    resolve_createSharedBudget_def resolve_recordBudgetSpend_def
    resolve_accounts_def resolve_createPersonalAccount_def resolve_contributeFromAccount_def resolve_coachingInsights_def
  show ?thesis
    by (cases req) (simp_all add: refused_def resolvers no_principal [OF assms] dropped_def checked_def)
qed

subsection \<open>Properties\<close>

text \<open>
  C12: isolation of whole requests. Whatever query or mutation a client sends, with whatever arguments
  (identifiers of foreign rows included), and however it ends, every table holds for every tenant other
  than the client's the rows it held before, although a resolver runs several transactions
  one after another.
\<close>

theorem requests_isolated:
  assumes "ctx_principal ctx = Some p" and "u \<noteq> pr_tenantId p"
  shows "same_tables (tenant_view u (w_db w)) (tenant_view u (w_db (snd (respond R C ctx req w))))"
proof -
  let ?P = "\<lambda>g. same_tables (tenant_view u (w_db w)) (tenant_view u g)"
  have "request_of p ctx" using assms(1) by (simp add: request_of_def)
  moreover have "on_world ?P w" by (simp add: on_world_def same_tables_def)
  ultimately have "on_world ?P (snd (respond R C ctx req w))"
    by (rule service_contract.respond_keeps [OF foreign_contract [OF assms(2)]])
  then show ?thesis by (simp add: on_world_def)
qed

definition demo_client :: coaching_client where
  "demo_client = \<lparr>cc_apiKey = None, cc_fetch = (\<lambda>_. None), cc_json_parse = (\<lambda>_. None)\<rparr>"

definition demo_apart :: "(string \<times> json) list world" where
  "demo_apart = \<lparr>w_db = no_rows\<lparr>users := [\<lparr>u_id = ''ann'', u_tenantId = ''t'', u_authSubject = ''s1'', u_displayName = ''Ann''\<rparr>,
       \<lparr>u_id = ''bob'', u_tenantId = ''v'', u_authSubject = ''s2'', u_displayName = ''Bob''\<rparr>]\<rparr>,
     w_cache = [], w_bus = [], w_settled = []\<rparr>"

theorem requests_isolated_witness:
  "same_tables (tenant_view ''v'' (w_db demo_apart)) (tenant_view ''v''
     (w_db (snd (respond list_cache demo_client \<lparr>ctx_principal = Some demo_owner, ctx_membership = None\<rparr>
       (CreateSharedProfileM demo_profile_input) demo_apart))))
   \<and> map u_id (users (tenant_view ''v'' (w_db demo_apart))) = [''bob'']"
proof -
  have "map u_id (users (tenant_view ''v'' (w_db demo_apart))) = [''bob'']" by code_simp
  then show ?thesis
    using requests_isolated [of "\<lparr>ctx_principal = Some demo_owner, ctx_membership = None\<rparr>" demo_owner "''v''"]
    by (simp add: demo_owner_def del: respond.simps)
qed

end
