(* ===== verification/Boundary.thy ===== *)
theory Boundary
  imports Services RateLimit
begin

section \<open>The boundary of the server\<close>

text \<open>
  One GraphQL operation from the HTTP headers to its answer, in the order in which NestJS runs the pieces:
  the context (\<open>common/graphql/graphql-context.ts\<close>), the global guards (\<open>common/throttling\<close> and
  \<open>modules/permissions\<close>), then pipe and resolver (\<open>Resolvers\<close>). No resolver is annotated with
  \<open>@RequireCapability\<close>, so the guard of the permissions lets every operation pass and is left out here.
  The subscriptions are operations of their own kind.
\<close>

text \<open>\<open>info\<close>: the parent type and the field of a request.\<close>

fun field_of :: "request \<Rightarrow> string \<times> string" where
  "field_of Me = (''Query'', ''me'')"
| "field_of (SharedProfile i) = (''Query'', ''sharedProfile'')"
| "field_of MyMemberships = (''Query'', ''myMemberships'')"
| "field_of RemainingAllocation = (''Query'', ''remainingAllocationPercentageBp'')"
| "field_of (CoachingInsights sp) = (''Query'', ''coachingInsights'')"
| "field_of (CreateSharedProfileM i) = (''Mutation'', ''createSharedProfile'')"
| "field_of (InviteMemberM i) = (''Mutation'', ''inviteMember'')"
| "field_of (AcceptInvitationM i) = (''Mutation'', ''acceptInvitation'')"
| "field_of (DeclineInvitationM i) = (''Mutation'', ''declineInvitation'')"
| "field_of (ChangeMemberRoleM i r v) = (''Mutation'', ''changeMemberRole'')"
| "field_of (LeaveProfileM i) = (''Mutation'', ''leaveProfile'')"
| "field_of (NominateOwnerM sp m) = (''Mutation'', ''nominateOwner'')"
| "field_of (AcceptOwnershipM sp) = (''Mutation'', ''acceptOwnership'')"
| "field_of (ArchiveProfileM sp) = (''Mutation'', ''archiveProfile'')"
| "field_of (SetDeclaredIncomeM i) = (''Mutation'', ''setDeclaredIncome'')"
| "field_of (SetAllocationM i) = (''Mutation'', ''setAllocation'')"
| "field_of (RecordContributionM i) = (''Mutation'', ''recordContribution'')"
| "field_of (RedistributeM sp as) = (''Mutation'', ''redistribute'')"
| "field_of (CreateSharedGoalM sp n a) = (''Mutation'', ''createSharedGoal'')"
| "field_of (FundGoalM i a v) = (''Mutation'', ''fundGoal'')"
| "field_of (CreateSharedDebtM sp k n a) = (''Mutation'', ''createSharedDebt'')"
| "field_of (PaySharedDebtM i a v) = (''Mutation'', ''paySharedDebt'')"
| "field_of (SetDebtResponsibilityM i m bp v) = (''Mutation'', ''setDebtResponsibility'')"
| "field_of (CreateSharedInvestmentM sp n a) = (''Mutation'', ''createSharedInvestment'')"
| "field_of (UpdateInvestmentValueM i a v) = (''Mutation'', ''updateInvestmentValue'')"
| "field_of (CreateSharedBudgetM sp n a) = (''Mutation'', ''createSharedBudget'')"
| "field_of (RecordBudgetSpendM i a v) = (''Mutation'', ''recordBudgetSpend'')"
| "field_of (CreatePersonalAccountM i) = (''Mutation'', ''createPersonalAccount'')"
| "field_of (ContributeFromAccountM i) = (''Mutation'', ''contributeFromAccount'')"
| "field_of (PoolTotalF d per) = (''SharedProfile'', ''poolTotal'')"
| "field_of (ContributionRecordsF d pg per) = (''SharedProfile'', ''contributionRecords'')"
| "field_of (CurrentPeriodF d) = (''SharedProfile'', ''currentPeriod'')"
| "field_of (SharedGoalsF d pg) = (''SharedProfile'', ''sharedGoals'')"
| "field_of (SharedDebtsF d) = (''SharedProfile'', ''sharedDebts'')"
| "field_of (SharedInvestmentsF d) = (''SharedProfile'', ''sharedInvestments'')"
| "field_of (SharedBudgetsF d) = (''SharedProfile'', ''sharedBudgets'')"
| "field_of (StandingF d per) = (''Membership'', ''standing'')"
| "field_of (AllocationPercentageF d) = (''Membership'', ''allocationPercentageBp'')"
| "field_of (AccountsF d) = (''PersonalProfile'', ''accounts'')"

datatype operation =
    Request request
  | PoolTotalChangedS uuid
  | ContributionStandingChangedS uuid

fun info_of :: "operation \<Rightarrow> string \<times> string" where
  "info_of (Request req) = field_of req"
| "info_of (PoolTotalChangedS sp) = (''Subscription'', ''poolTotalChanged'')"
| "info_of (ContributionStandingChangedS sp) = (''Subscription'', ''contributionStandingChanged'')"

text \<open>The resolver of an operation; a subscription answers with the identifier of its iterator, left out here.\<close>

fun resolved :: "'c redis_ops \<Rightarrow> coaching_client \<Rightarrow> gql_context \<Rightarrow> operation \<Rightarrow> 'c world \<Rightarrow> unit answer \<times> 'c world" where
  "resolved R C ctx (Request req) w = respond R C ctx req w"
| "resolved R C ctx (PoolTotalChangedS sp) w = (Data (), snd (resolve_poolTotalChanged sp w))"
| "resolved R C ctx (ContributionStandingChangedS sp) w = (Data (), snd (resolve_contributionStandingChanged sp w))"

definition caller_of :: "gql_context \<Rightarrow> (string \<times> uuid) option" where
  "caller_of ctx = map_option (\<lambda>p. (pr_tenantId p, pr_userId p)) (ctx_principal ctx)"

definition serve :: "'r redis_incr \<Rightarrow> 'r redis_expire \<Rightarrow> rate_limit_rule \<Rightarrow> rate_limit_rule \<Rightarrow> 'c redis_ops \<Rightarrow> coaching_client
    \<Rightarrow> instant \<Rightarrow> http_request \<Rightarrow> operation \<Rightarrow> 'r \<Rightarrow> 'c world \<Rightarrow> unit answer \<times> 'r \<times> 'c world" where
  "serve incr expiry mutation coaching R C now http op r w =
     (let ctx = buildGraphQLContext http in
      case rate_guard incr expiry mutation coaching True (Some (info_of op)) (caller_of ctx) now r of
        (Inl e, r1) \<Rightarrow> (Rejected (formatError (RaisedGraphQL e)), r1, w)
      | (Inr ok, r1) \<Rightarrow> (case resolved R C ctx op w of (a, w1) \<Rightarrow> (a, r1, w1)))"

lemma serve_limited:
  assumes "counter_contract incr expiry counter" and "ruleFor mutation coaching (Some (info_of op)) = Some rule"
    and "caller_of (buildGraphQLContext http) = who" and "k = window_key rule (principal_key who) (window_of rule now)"
  obtains r' where "counter r' = (counter r)(k := counter r k + 1)"
    and "rl_limit rule \<le> counter r k \<Longrightarrow> \<exists>e. serve incr expiry mutation coaching R C now http op r w = (Rejected e, r', w)
        \<and> gql_extension_code e = TransportCode RATE_LIMITED"
    and "counter r k < rl_limit rule \<Longrightarrow> serve incr expiry mutation coaching R C now http op r w
        = (fst (resolved R C (buildGraphQLContext http) op w), r', snd (resolved R C (buildGraphQLContext http) op w))"
proof -
  obtain d r' where d: "rate_check incr expiry rule (principal_key who) now r = (d, r')"
    "rd_allowed d \<longleftrightarrow> counter r k < rl_limit rule" "counter r' = (counter r)(k := counter r k + 1)"
    unfolding assms(4) by (rule rate_check_counts [OF assms(1)]) blast
  show thesis
    by (rule that [of r'])
      (simp_all add: serve_def Let_def rate_guard_def assms(2,3) d case_prod_unfold)
qed

lemma serve_free:
  "ruleFor mutation coaching (Some (info_of op)) = None \<Longrightarrow> serve incr expiry mutation coaching R C now http op r w
     = (fst (resolved R C (buildGraphQLContext http) op w), r, snd (resolved R C (buildGraphQLContext http) op w))"
  by (simp add: serve_def Let_def rate_guard_def case_prod_unfold)

subsection \<open>Concrete headers\<close>

definition demo_headers :: http_request where
  "demo_headers = [''x-tenant-id'' \<mapsto> OneValue ''t'', ''x-user-id'' \<mapsto> OneValue ''ann'', ''x-auth-subject'' \<mapsto> ManyValues [[]]]"

subsection \<open>Properties\<close>



end
