(* ===== verification/SystemRuns.thy ===== *)
theory SystemRuns
  imports SystemGovernance Services Scheduling
begin

section \<open>Runs of the whole server\<close>

text \<open>
  Everything that reaches the database: the service calls of any clients, the two scheduled sweeps, the
  consumers of domain events, the relay that marks events dispatched, and the clock. A step is one
  transaction, so that a run may interleave the transactions of several requests, jobs and deliveries;
  \<open>runs_in_steps\<close> shows that requests, job runs, deliveries and polls are sequences of such
  steps. The invariant \<open>system_ok\<close> holds in every tenant's rows of every database so reached.
\<close>

definition all_system :: "db \<Rightarrow> bool" where
  "all_system g \<longleftrightarrow> (\<forall>u. system_ok (tenant_view u g))"

text \<open>The invariant together with what happened to the versions since an earlier database.\<close>

definition all_age :: "db \<Rightarrow> db \<Rightarrow> bool" where
  "all_age g h \<longleftrightarrow> (\<forall>u. rows_age (tenant_view u g) (tenant_view u h))"

definition sound_since :: "db \<Rightarrow> db \<Rightarrow> bool" where
  "sound_since g h \<longleftrightarrow> all_system h \<and> all_age g h"

lemma all_age_refl [simp]: "all_age g g"
  by (simp add: all_age_def)

lemma all_age_trans: "all_age a b \<Longrightarrow> all_age b c \<Longrightarrow> all_age a c"
  unfolding all_age_def using rows_age_trans by blast

lemma sound_sinceI: "sound_since g h \<Longrightarrow> all_system k \<Longrightarrow> all_age h k \<Longrightarrow> sound_since g k"
  using all_age_trans by (auto simp: sound_since_def)

subsection \<open>Transactions\<close>

lemma system_same_tables:
  assumes "system_ok a" and "same_tables a b" and "uid b = uid a" and "uid_next a \<le> uid_next b"
  shows "system_ok b"
proof -
  have b: "b = a\<lparr>uid := uid b, uid_next := uid_next b, clock := clock b\<rparr>" using assms(2) by (simp add: same_tables_def)
  have s: "governed a" "elements_ok a" "accounts_ok a" "links_ok a"
    using assms(1) by (simp_all add: system_ok_def wallet_ok_def)
  have tables: "accounts b = accounts a" "personalProfiles b = personalProfiles a"
    by (subst b, simp)+
  have "links_ok b" by (subst b) (use s(4) in \<open>simp add: links_ok_def linked_ids_def profile_ids_def readable_def\<close>)
  then show ?thesis
    using governed_same_tables [OF s(1) assms(2-4)] elements_same_tables [OF s(2) assms(2-4)]
      accounts_ok_cong [OF s(3) tables(1,2)] by (simp add: system_ok_def wallet_ok_def)
qed

lemma same_tables_age:
  assumes "same_tables a b"
  shows "rows_age a b"
proof -
  have b: "b = a\<lparr>uid := uid b, uid_next := uid_next b, clock := clock b\<rparr>" using assms by (simp add: same_tables_def)
  show ?thesis by (subst b) (simp add: rows_age_def elements_age_def)
qed

lemma system_kept_refl: "system_ok g \<Longrightarrow> system_kept g g"
  by (simp add: system_kept_def)

lemma withTenant_keeps:
  assumes "\<And>g h. system_ok h \<Longrightarrow> commits (system_kept h) (f g h)"
  shows "keeps (sound_since s) (\<lambda>g. withTenant t (f g) g)"
  unfolding keeps_def
proof (intro allI impI)
  fix g assume since: "sound_since s g"
  then have g: "all_system g" by (simp add: sound_since_def)
  obtain r g' where w: "withTenant t (f g) g = (r, g')" by fastforce
  let ?h = "tenant_view t g"
  have h: "system_ok ?h" using g by (simp add: all_system_def)
  have own: "system_kept ?h (tenant_view t g')"
    by (rule withTenant_commits [OF w, where P = "system_kept ?h"]) (rule system_kept_refl [OF h], rule assms [OF h])
  have "system_ok (tenant_view u g')" for u
  proof (cases "u = t")
    case True
    with own show ?thesis by (simp add: system_kept_def)
  next
    case False
    have "system_ok (tenant_view u g)" using g by (simp add: all_system_def)
    then show ?thesis
      using withTenant_other [OF w False] own
      by (elim system_same_tables) (simp_all add: system_kept_def ids_advance_def)
  qed
  then have "all_system g'" by (simp add: all_system_def)
  moreover have "rows_age (tenant_view u g) (tenant_view u g')" for u
    using own withTenant_other [OF w, of u] by (cases "u = t") (simp_all add: system_kept_def same_tables_age)
  then have "all_age g g'" by (simp add: all_age_def)
  ultimately show "sound_since s (snd (withTenant t (f g) g))" using since w by (simp add: sound_sinceI)
qed

lemma reading_system: "keeps (sound_since g) (withTenant t (reading q))"
  by (rule withTenant_keeps) (simp add: reading_def commits_result system_kept_refl)

named_theorems keeps_intros "service calls that keep the invariant"

lemma governance_keeps [keeps_intros]:
  "keeps (sound_since g) (inviteMember p ii)" "keeps (sound_since g) (acceptInvitation p i)"
  "keeps (sound_since g) (declineInvitation p i)" "keeps (sound_since g) (leaveProfile p i)" "keeps (sound_since g) (changeMemberRole p i role e)"
  "keeps (sound_since g) (nominateOwner_uc p sp i)" "keeps (sound_since g) (acceptOwnership_uc p sp)" "keeps (sound_since g) (archiveProfile p sp)"
  "keeps (sound_since g) (expiry_runForTenant t)"
  unfolding inviteMember_def acceptInvitation_def declineInvitation_def leaveProfile_def
    changeMemberRole_def nominateOwner_uc_def acceptOwnership_uc_def archiveProfile_def expiry_runForTenant_def
  by (rule withTenant_keeps, erule governance_kept)+

lemma founding_keeps [keeps_intros]: "valid_CreateSharedProfileInput ci \<Longrightarrow> keeps (sound_since g) (createSharedProfile p ci)"
  unfolding createSharedProfile_def
  by (rule withTenant_keeps, erule governance_kept) (simp add: valid_CreateSharedProfileInput_def alpha3_wf)

lemma contribution_keeps [keeps_intros]:
  "keeps (sound_since g) (setDeclaredIncome p si)" "keeps (sound_since g) (setAllocation p sa)" "keeps (sound_since g) (recordContribution p rc)"
  "keeps (sound_since g) (redistribute p sp as)" "keeps (sound_since g) (rolloverForTenant t)"
  unfolding setDeclaredIncome_def setAllocation_def recordContribution_def redistribute_def rolloverForTenant_def
  by (rule withTenant_keeps, erule contributions_kept)+

lemma element_keeps [keeps_intros]:
  "keeps (sound_since g) (createSharedGoal p sp name target)" "keeps (sound_since g) (fundGoal_uc p i a e)"
  "keeps (sound_since g) (createSharedDebt p sp kind name balance)" "keeps (sound_since g) (paySharedDebt p i a e)"
  "keeps (sound_since g) (setDebtResponsibility p i m bp e)" "keeps (sound_since g) (createInvestment p sp name v)"
  "keeps (sound_since g) (updateInvestmentValue_uc p i v e)" "keeps (sound_since g) (createBudget p sp category limit)"
  "keeps (sound_since g) (recordBudgetSpend p i a e)" "keeps (sound_since g) (reassignForLeftMember t sp m)"
  unfolding createSharedGoal_def fundGoal_uc_def createSharedDebt_def paySharedDebt_def setDebtResponsibility_def
    createInvestment_def updateInvestmentValue_uc_def createBudget_def recordBudgetSpend_def reassignForLeftMember_def
  by (rule withTenant_keeps, erule elements_kept)+

lemma account_keeps [keeps_intros]:
  "keeps (sound_since g) (createPersonalAccount p ca)" "keeps (sound_since g) (accountsForOwnedProfile p i)" "keeps (sound_since g) (contributeFromAccount p cf)"
  unfolding createPersonalAccount_def accountsForOwnedProfile_def contributeFromAccount_def
  by (rule withTenant_keeps, erule accounts_kept)+

lemma me_keeps [keeps_intros]: "keeps (sound_since g) (me p)"
  unfolding me_def
proof (rule withTenant_keeps)
  fix k h assume s: "system_ok h"
  have "system_kept h h'" if k: "findOrCreatePersonalProfile held t u h = (Ok pp, h')" for held t u pp h'
    using settled_system [OF settled_personal [OF k] s personal_profile_wallet [OF k system_wallet [OF s]]]
      settled_rows_age [OF settled_personal [OF k]] personal_profile_facts(9) [OF k] by (simp add: system_kept_def)
  then show "commits (system_kept h) (me_tx (held_elsewhere (pr_tenantId p) k) p h)"
    by (auto simp: me_tx_def personal_profile_not_Err intro!: commits_then_do commits_result commits_thrown split: option.splits)
qed

lemma query_keeps [keeps_intros]:
  "keeps (sound_since g) (sharedProfile p i)" "keeps (sound_since g) (myMemberships p)" "keeps (sound_since g) (membershipById p i)"
  "keeps (sound_since g) (planDto p i)" "keeps (sound_since g) (contributions_membershipById p i)" "keeps (sound_since g) (recordDto p i)"
  "keeps (sound_since g) (recordsForProfile p i cur pg per)" "keeps (sound_since g) (poolTotal p i cur per)" "keeps (sound_since g) (poolTotalByProfileId p i)"
  "keeps (sound_since g) (currentPeriod p i)" "keeps (sound_since g) (standing p md per)"
  "keeps (sound_since g) (allocationPercentageBp p md)" "keeps (sound_since g) (goalsForProfile p i cur pg)" "keeps (sound_since g) (read_debtsForProfile p i cur)"
  "keeps (sound_since g) (investmentsForProfile p i cur)" "keeps (sound_since g) (budgetsForProfile p i cur)" "keeps (sound_since g) (goalById p i)"
  "keeps (sound_since g) (debtById p i)" "keeps (sound_since g) (investmentById p i)" "keeps (sound_since g) (budgetById p i)" "keeps (sound_since g) (readModel p i)"
  unfolding sharedProfile_def myMemberships_def membershipById_def planDto_def contributions_membershipById_def recordDto_def
    recordsForProfile_def poolTotal_def poolTotalByProfileId_def currentPeriod_def standing_def allocationPercentageBp_def
    goalsForProfile_def read_debtsForProfile_def investmentsForProfile_def budgetsForProfile_def goalById_def debtById_def
    investmentById_def budgetById_def readModel_def
  by (rule reading_system)+

lemma remaining_keeps [keeps_intros]: "keeps (sound_since g) (remainingAllocationPercentageBp p)"
  unfolding remainingAllocationPercentageBp_def
  by (rule withTenant_keeps) (simp add: commits_result system_kept_refl)

text \<open>The services of the whole server meet the contract of the resolvers.\<close>

interpretation system_services: service_contract "sound_since g" p for g p
  by unfold_locales (rule keeps_intros; assumption?)+

subsection \<open>The outbox and the audit log\<close>

text \<open>Of an event row only the mark of the relay changes.\<close>

lemma system_outbox:
  assumes "system_ok g" and "map ev_id es = map ev_id (outboxEvents g)"
  shows "system_ok (g\<lparr>outboxEvents := es\<rparr>)"
proof -
  let ?h = "g\<lparr>outboxEvents := es\<rparr>"
  have g: "governed g" "links_ok g" using assms(1) by (simp_all add: system_ok_def)
  have "fresh_ids ?h"
    by (rule fresh_same [of g]) (use g(1) all_ids_replace(16) [OF assms(2)] in \<open>simp_all add: governed_def\<close>)
  then have h: "governed ?h" using g(1) by (simp add: governed_def)
  have mv: "gov_moves g ?h"
    by (rule gov_by_tables [OF _ _ _ _ gov_moves_refl]) (simp_all add: books_same_def elements_same_def ids_advance_def)
  show ?thesis
    using h moves_wallet [OF mv assms(1) h] moves_links [OF mv g(2)] by (simp add: system_ok_def)
qed

lemma mark_keeps:
  assumes "all_system g"
  shows "all_system (markDispatched i g)" and "all_age g (markDispatched i g)"
proof -
  let ?f = "\<lambda>r. r\<lparr>ev_dispatchedAt := Some (clock g)\<rparr>"
  have "tenant_view u (markDispatched i g)
      = (tenant_view u g)\<lparr>outboxEvents := update_where (\<lambda>r. ev_id r = i) ?f (outboxEvents (tenant_view u g))\<rparr>" for u
    by (simp add: markDispatched_def tenant_view_eq project_def filter_update_where)
  moreover have "system_ok ((tenant_view u g)\<lparr>outboxEvents := update_where (\<lambda>r. ev_id r = i) ?f (outboxEvents (tenant_view u g))\<rparr>)" for u
    by (rule system_outbox) (use assms in \<open>simp_all add: all_system_def map_update_where\<close>)
  ultimately show "all_system (markDispatched i g)" "all_age g (markDispatched i g)"
    by (simp_all add: all_system_def all_age_def rows_age_def elements_age_def)
qed

lemma audit_kept: "system_ok h \<Longrightarrow> system_kept h (audit_write t r h)"
proof -
  assume s: "system_ok h"
  have g: "governed h" "links_ok h" using s by (simp_all add: system_ok_def)
  have mv: "gov_moves h (audit_write t r h)" by (rule gov_writers) simp
  have h: "governed (audit_write t r h)"
    using governed_writers(2) [OF governed_from_refl [OF g(1)]] by (simp add: governed_from_def)
  show ?thesis
    using h moves_wallet [OF mv s h] moves_links [OF mv g(2)] moves_rows_age [OF mv] mv
    by (simp add: system_kept_def system_ok_def gov_moves_def)
qed

lemma audit_keeps: "keeps (sound_since g) (audit_handle e)"
  unfolding audit_handle_def by (rule withTenant_keeps) (simp add: commits_result audit_kept)

lemma debt_keeps: "keeps (sound_since g) (debt_handle e)"
  using element_keeps(10) by (simp add: keeps_def debt_handle_def split: option.splits)

subsection \<open>Steps of the server\<close>

inductive system_step :: "db \<Rightarrow> db \<Rightarrow> bool" where
  service: "service_step p g h \<Longrightarrow> system_step g h"
| expiry: "system_step g (snd (expiry_runForTenant t g))"
| rollover: "system_step g (snd (rolloverForTenant t g))"
| audit: "system_step g (snd (audit_handle e g))"
| debts: "system_step g (snd (debt_handle e g))"
| relay: "system_step g (markDispatched i g)"
| tick: "system_step g (g\<lparr>clock := t\<rparr>)"

lemma system_step_since: "system_step h k \<Longrightarrow> sound_since g h \<Longrightarrow> sound_since g k"
proof (induction rule: system_step.induct)
  case (service p h k)
  then show ?case using system_services.step_kept by simp
next
  case (relay h i)
  then show ?case using mark_keeps sound_sinceI [of g h] by (simp add: sound_since_def)
next
  case (tick h t)
  have same: "same_tables (tenant_view u h) (tenant_view u (h\<lparr>clock := t\<rparr>))" for u
    by (simp add: same_tables_def tenant_view_eq project_def)
  have "system_ok (tenant_view u (h\<lparr>clock := t\<rparr>))" for u
    by (rule system_same_tables [OF _ same])
      (use tick in \<open>simp_all add: sound_since_def all_system_def tenant_view_eq project_def\<close>)
  then show ?case
    using same_tables_age [OF same] by (intro sound_sinceI [OF tick]) (simp_all add: all_system_def all_age_def)
qed (simp_all add: keeps_D [where P = "sound_since g", OF governance_keeps(9)]
    keeps_D [where P = "sound_since g", OF contribution_keeps(5)] keeps_D [where P = "sound_since g", OF audit_keeps]
    keeps_D [where P = "sound_since g", OF debt_keeps])

lemma system_step_keeps: "system_step g h \<Longrightarrow> all_system g \<Longrightarrow> all_system h"
  using system_step_since [of g h g] by (simp add: sound_since_def)

lemma steps_since: "system_step\<^sup>*\<^sup>* h k \<Longrightarrow> sound_since g h \<Longrightarrow> sound_since g k"
  by (induction rule: rtranclp_induct) (auto intro: system_step_since)

lemma dispatch_loop_keeps: "(\<And>g i. P g \<Longrightarrow> P (markDispatched i g)) \<Longrightarrow> P g \<Longrightarrow> P (snd (snd (dispatch_loop add rows q g)))"
  by (induction rows arbitrary: q g) (simp_all split: option.splits)

lemma dispatch_keeps:
  assumes "\<And>g i. P g \<Longrightarrow> P (markDispatched i g)" and "P g"
  shows "P (snd (snd (snd (dispatchPending add visible n running q g))))"
  using dispatch_loop_keeps [where P = P, OF assms, of add "pendingEvents n (visible g)" q] assms(2)
  by (auto simp: dispatchPending_def Let_def split: prod.splits bool.splits)

subsection \<open>The running server\<close>

abbreviation system_steps :: "db \<Rightarrow> db \<Rightarrow> bool" where
  "system_steps \<equiv> system_step\<^sup>*\<^sup>*"

lemma more_steps: "system_steps g h \<Longrightarrow> system_step h k \<Longrightarrow> system_steps g k"
  by (rule rtranclp.rtrancl_into_rtrancl)

lemma steps_closed:
  "keeps (system_steps g) (expiry_runForTenant t)" "keeps (system_steps g) (rolloverForTenant t)"
  "keeps (system_steps g) (audit_handle e)" "keeps (system_steps g) (debt_handle e)"
  by (simp_all add: keeps_def more_steps system_step.intros)

text \<open>Services and consumers meet their contracts for the databases that steps reach.\<close>

interpretation step_services: service_contract "system_steps g" p for g p
  by (rule contract_of_steps) (erule more_steps, rule system_step.service)

lemma consumers_contract:
  fixes R :: "'c redis_ops"
  shows "handler_contract (\<lambda>d :: db \<times> 'c. system_steps g (fst d)) (consumers R)"
proof
  fix h e and d :: "db \<times> 'c"
  assume "h \<in> set (consumers R)" "system_steps g (fst d)"
  then show "system_steps g (fst (snd (eh_handle h e d)))"
    using keeps_D [where P = "system_steps g", OF steps_closed(3), of "fst d"]
      keeps_D [where P = "system_steps g", OF steps_closed(4), of "fst d"]
    by (auto simp: consumers_def AuditConsumer_def DebtReassignmentConsumer_def CoachingProjectionConsumer_def on_db_def
        case_prod_unfold)
qed (rule consumers_distinct(2))

interpretation step_consumers: handler_contract "\<lambda>d. system_steps g (fst d)" "consumers R" for g R
  by (rule consumers_contract)

lemma respond_steps: "system_steps (w_db w) (w_db (snd (respond R C ctx req w)))"
proof -
  obtain p where p: "request_of p ctx" by (cases "ctx_principal ctx") (auto simp: request_of_def)
  show ?thesis using step_services.respond_keeps [OF p, of "w_db w" w] by (simp add: on_world_def)
qed

text \<open>The server starts on a database that knows users only, each under an identifier of its own.\<close>

definition only_users :: "db \<Rightarrow> bool" where
  "only_users g \<longleftrightarrow> fresh_ids g \<and> distinct (map u_id (users g)) \<and> personalProfiles g = [] \<and> sharedProfiles g = [] \<and> memberships g = []
     \<and> accounts g = [] \<and> contributionPlans g = [] \<and> contributionAllocations g = [] \<and> contributionPeriods g = []
     \<and> contributionRecords g = [] \<and> sharedGoals g = [] \<and> sharedDebts g = [] \<and> debtResponsibilities g = []
     \<and> sharedInvestments g = [] \<and> sharedBudgets g = []"

inductive system_reachable :: "db \<Rightarrow> bool" where
  start: "only_users g \<Longrightarrow> system_reachable g"
| step: "system_reachable g \<Longrightarrow> system_step g h \<Longrightarrow> system_reachable h"

lemma reachable_steps: "system_steps g h \<Longrightarrow> system_reachable g \<Longrightarrow> system_reachable h"
  by (induction rule: rtranclp_induct) (auto intro: system_reachable.step)

lemma only_users_ok:
  assumes "only_users g"
  shows "all_system g"
proof -
  have "system_ok (tenant_view u g)" for u
  proof -
    let ?v = "tenant_view u g"
    have fresh: "fresh_ids ?v" using assms fresh_view by (simp add: only_users_def)
    have empty: "personalProfiles ?v = []" "sharedProfiles ?v = []" "memberships ?v = []" "accounts ?v = []"
      "contributionPlans ?v = []" "contributionAllocations ?v = []" "contributionPeriods ?v = []" "contributionRecords ?v = []"
      "sharedGoals ?v = []" "sharedDebts ?v = []" "debtResponsibilities ?v = []" "sharedInvestments ?v = []" "sharedBudgets ?v = []"
      using assms by (simp_all add: only_users_def tenant_view_eq project_def)
    have users: "distinct (map u_id (users ?v))"
      using assms by (simp add: only_users_def tenant_view_eq project_def distinct_map_filter)
    have "books_ok ?v" by (rule start_books) (simp_all add: fresh empty)
    then have "elements_ok ?v" by (rule start_elements) (simp_all add: empty)
    then have "wallet_ok ?v" by (simp add: wallet_ok_def accounts_ok_def personal_ok_def empty)
    then show ?thesis
      using fresh users by (simp add: system_ok_def governed_def keys_ok_def owners_ok_def links_ok_def readable_def empty)
  qed
  then show ?thesis by (simp add: all_system_def)
qed

lemma reachable_ok: "system_reachable g \<Longrightarrow> all_system g"
  by (induction rule: system_reachable.induct) (auto intro: only_users_ok system_step_keeps)

lemma reachable_view:
  assumes "system_reachable g"
  shows "governed (tenant_view t g)" and "books_ok (tenant_view t g)"
    and "elements_ok (tenant_view t g)" and "accounts_ok (tenant_view t g)" and "links_ok (tenant_view t g)"
    and "readable (tenant_view t g)"
  using reachable_ok [OF assms] by (simp_all add: all_system_def system_ok_def wallet_ok_def elements_ok_def links_ok_def)

text \<open>
  Requests, jobs, deliveries and polls are made of these steps: a request, a scheduled job of any name
  whatever its discovery query sees, the delivery of an event whatever the idempotency store holds, and a
  poll of the relay each take the database through a sequence of them. That ties the relation to the
  server's entry points; what they do beyond the database is in \<open>Resolvers\<close>, \<open>Scheduling\<close> and \<open>Worker\<close>.
\<close>

lemma runs_in_steps:
  "system_steps (w_db w) (w_db (snd (respond R C ctx req w)))
   \<and> system_steps g (snd (scheduled (server_jobs discovery) name g))
   \<and> system_steps g (fst (snd (snd (process set_nx del (register_all (consumers R)) e r (g, c)))))
   \<and> system_steps g (snd (snd (snd (dispatchPending add visible n running q g))))"
proof (intro conjI)
  have "system_steps g (snd (expiry_run discovery g))" "system_steps g (snd (rollover_run discovery g))"
    unfolding expiry_run_def rollover_run_def
    by (rule expiry_visits.sweep_keeps [where P = "system_steps g"] rollover_visits.sweep_keeps [where P = "system_steps g"];
        simp add: keeps_D [OF steps_closed(1)] keeps_D [OF steps_closed(2)])+
  then show "system_steps g (snd (scheduled (server_jobs discovery) name g))"
    by (cases "name = ''invitation-expiry''"; cases "name = ''period-rollover''")
      (simp_all add: scheduled_jobs split_beta)
  show "system_steps g (fst (snd (snd (process set_nx del (register_all (consumers R)) e r (g, c)))))"
    by (rule step_consumers.process_keeps) simp
  show "system_steps g (snd (snd (snd (dispatchPending add visible n running q g))))"
    by (rule dispatch_keeps) (auto intro: more_steps system_step.relay)
qed (rule respond_steps)

subsection \<open>A concrete server\<close>

definition demo_start :: db where
  "demo_start = no_rows\<lparr>users := [\<lparr>u_id = ''ann'', u_tenantId = ''t'', u_authSubject = ''s1'', u_displayName = ''Ann''\<rparr>]\<rparr>"

text \<open>
  Ann founds a household, declares an income, gives 70% of it to the household, contributes, and
  enters a debt.
\<close>

definition demo_founded :: db where
  "demo_founded = snd (createSharedProfile demo_owner demo_profile_input demo_start)"

definition demo_planned_db :: db where
  "demo_planned_db = snd (setAllocation demo_owner \<lparr>sa_sharedProfileId = ''0'', sa_membershipId = ''1'', sa_percentageBp = IntegerNum 7000\<rparr>
     (snd (setDeclaredIncome demo_owner \<lparr>si_sharedProfileId = ''0'', si_membershipId = ''1'', si_amountCents = 10\<rparr> demo_founded)))"

definition demo_server :: db where
  "demo_server = snd (createSharedDebt demo_owner ''0'' DEBT ''Car'' 9
     (snd (recordContribution demo_owner
        \<lparr>rc_sharedProfileId = ''0'', rc_membershipId = ''1'', rc_amountCents = 5, rc_sourceAccountId = None\<rparr> demo_planned_db)))"

lemma demo_start_users: "only_users demo_start"
proof -
  have "show_nat n \<noteq> ''ann''" for n
    using show_nat_not [of "''ann''"] by (simp add: digit_val_def digit_chars_def upt_rec)
  then have "fresh_ids demo_start"
    using no_rows_fresh by (auto simp: fresh_ids_def all_ids_def demo_start_def no_rows_def)
  then show ?thesis by (simp add: only_users_def) (simp add: demo_start_def no_rows_def)
qed

lemma demo_input_valid: "valid_CreateSharedProfileInput demo_profile_input"
  by code_simp

lemma demo_server_reachable: "system_reachable demo_server"
proof -
  have serve: "system_reachable (snd (f g))" if "\<And>g. service_step demo_owner g (snd (f g))" "system_reachable g" for f :: "db \<Rightarrow> 'a result \<times> db" and g
    by (rule system_reachable.step [OF that(2) system_step.service [OF that(1)]])
  show ?thesis
    unfolding demo_server_def demo_planned_db_def demo_founded_def
    by (rule serve, rule service_step.intros, (rule demo_input_valid)?)+ (rule system_reachable.start [OF demo_start_users])
qed

lemma demo_server_eval:
  "(let v = tenant_view ''t'' demo_server in
     map sp_name (sharedProfiles v) = [''Home''] \<and> map alloc_percentageBp (contributionAllocations v) = [7000]
     \<and> map rec_amount (contributionRecords v) = [5] \<and> map debt_outstandingBalance (sharedDebts v) = [9]
     \<and> list_all (has_user v) (listByProfile ''0'' v) \<and> sees_profile demo_owner ''0'' v)"
  by code_simp

lemmas demo_server_rows = demo_server_eval [unfolded Let_def]

subsection \<open>Properties\<close>

text \<open>
  C1: single ownership. In every database the server reaches, the transactions of any requests of any
  clients interleaved with those of the scheduled jobs, event consumers and the relay, every profile of every tenant has exactly one
  owner: \<open>assertSingleOwner\<close> succeeds on its members, the owner is active, and it is the membership
  that the profile's \<open>ownerMembershipId\<close> names.
\<close>

theorem system_governance:
  assumes "system_reachable g" and "p \<in> set (sharedProfiles (tenant_view t g))"
  shows "assertSingleOwner (map toMembershipState (listByProfile (sp_id p) (tenant_view t g))) = Ok ()
    \<and> (\<exists>m. filter (\<lambda>q. m_role q = OWNER) (listByProfile (sp_id p) (tenant_view t g)) = [m]
          \<and> sp_ownerMembershipId p = Some (m_id m) \<and> m_status m = ACTIVE)"
  using owner_facts [OF reachable_view(1) [OF assms(1)] assms(2)] by blast

theorem system_governance_witness:
  "\<exists>p :: shared_profile_row. sp_name p = ''Home''
    \<and> assertSingleOwner (map toMembershipState (listByProfile (sp_id p) (tenant_view ''t'' demo_server))) = Ok ()
    \<and> (\<exists>m. filter (\<lambda>q. m_role q = OWNER) (listByProfile (sp_id p) (tenant_view ''t'' demo_server)) = [m]
          \<and> sp_ownerMembershipId p = Some (m_id m) \<and> m_status m = ACTIVE)"
proof -
  obtain p where p: "p \<in> set (sharedProfiles (tenant_view ''t'' demo_server))" "sp_name p = ''Home''"
    using demo_server_rows by (auto simp: map_eq_Cons_conv)
  with system_governance [OF demo_server_reachable p(1)] show ?thesis by blast
qed

text \<open>
  C2: the books of the running server. In every state it reaches, no user has committed more than 100%
  over the profiles of a tenant, although invitations are accepted, members leave and plans are
  redistributed meanwhile; the periods of a profile follow one another, and an active profile that has any has exactly one open; and every
  recorded amount is positive.
\<close>

theorem system_books:
  assumes "system_reachable g"
  shows "committedTotalBp (committedByUser u (tenant_view t g)) \<le> 10000
    \<and> sorted_wrt (\<lambda>p q. per_endDate p \<le> per_startDate q) (periods_of sp (tenant_view t g))
    \<and> (profile_active sp (tenant_view t g) \<longrightarrow> periods_of sp (tenant_view t g) \<noteq> []
        \<longrightarrow> length (filter (\<lambda>p. per_status p = OPEN) (periods_of sp (tenant_view t g))) = 1)
    \<and> list_all (\<lambda>r. 0 < rec_amount r) (contributionRecords (tenant_view t g))"
  using books_facts [OF reachable_view(2) [OF assms, of t]] by blast

theorem system_books_witness:
  "committedTotalBp (committedByUser ''ann'' (tenant_view ''t'' demo_server)) \<le> 10000
    \<and> map alloc_percentageBp (contributionAllocations (tenant_view ''t'' demo_server)) = [7000]"
  using system_books [OF demo_server_reachable, of "''ann''" "''t''" "''0''"] demo_server_rows by blast

text \<open>
  C6: the shared elements and accounts of the running server. In every state it reaches, no debt is
  below zero and the responsibility shares of every debt that has any sum to exactly 100%; a goal is
  achieved exactly when its funding has reached its target; and no investment, budget or
  account balance is negative.
\<close>

theorem system_elements:
  assumes "system_reachable g"
  shows "list_all (\<lambda>d. 0 \<le> debt_outstandingBalance d
        \<and> (listResponsibilities (debt_id d) (tenant_view t g) = []
           \<or> validateSumTo100 (shares_of_rows (listResponsibilities (debt_id d) (tenant_view t g))) = Ok ()))
      (sharedDebts (tenant_view t g))
    \<and> list_all (\<lambda>r. Store.goal_status r = (if goal_targetAmount r \<le> goal_fundedAmount r then GOAL_ACHIEVED else GOAL_ACTIVE))
      (sharedGoals (tenant_view t g))
    \<and> list_all (\<lambda>r. 0 \<le> inv_currentValue r) (sharedInvestments (tenant_view t g))
    \<and> list_all (\<lambda>r. 0 \<le> bud_limit r \<and> 0 \<le> bud_spent r) (sharedBudgets (tenant_view t g))
    \<and> list_all (\<lambda>a. 0 \<le> acct_balance a) (accounts (tenant_view t g))"
  using elements_facts [OF reachable_view(3) [OF assms, of t]] reachable_view(4) [OF assms, of t]
  by (simp add: accounts_ok_def)

theorem system_elements_witness:
  "map debt_outstandingBalance (sharedDebts (tenant_view ''t'' demo_server)) = [9]
    \<and> list_all (\<lambda>d. 0 \<le> debt_outstandingBalance d
        \<and> (listResponsibilities (debt_id d) (tenant_view ''t'' demo_server) = []
           \<or> validateSumTo100 (shares_of_rows (listResponsibilities (debt_id d) (tenant_view ''t'' demo_server))) = Ok ()))
      (sharedDebts (tenant_view ''t'' demo_server))"
  using system_elements [OF demo_server_reachable, of "''t''"] demo_server_rows by blast

text \<open>
  C7: the tables fit together. In every state the server reaches, and for every tenant: a user has at
  most one membership in a profile and at most one personal profile, and a profile at most one plan of each
  version. Memberships, plans, periods, goals, debts, investments and budgets belong to profiles;
  percentages, each between 0 and 10000 basis points, to plans and to members who have joined;
  contribution records to members who have joined and to periods of the same profile; budgets to periods,
  responsibilities to debts and accounts to personal profiles. Nothing is claimed of the identifiers that the
  server stores without looking them up: the user of a membership, the membership of a responsibility
  and the source account of a record.
\<close>

theorem system_rows:
  assumes "system_reachable h" and "g = tenant_view t h"
  shows "distinct (map u_id (users g)) \<and> distinct (map (\<lambda>m. (m_sharedProfileId m, m_userId m)) (memberships g))
    \<and> distinct (map pp_userId (personalProfiles g))
    \<and> distinct (map (\<lambda>p. (plan_sharedProfileId p, plan_version p)) (contributionPlans g))
    \<and> (let profs = sp_id ` set (sharedProfiles g); joined = m_id ` set (filter (\<lambda>m. m_status m \<noteq> INVITED) (memberships g)) in
        m_sharedProfileId ` set (memberships g) \<subseteq> profs
      \<and> plan_sharedProfileId ` set (contributionPlans g) \<subseteq> profs
      \<and> per_sharedProfileId ` set (contributionPeriods g) \<subseteq> profs
      \<and> goal_sharedProfileId ` set (sharedGoals g) \<subseteq> profs \<and> debt_sharedProfileId ` set (sharedDebts g) \<subseteq> profs
      \<and> inv_sharedProfileId ` set (sharedInvestments g) \<subseteq> profs \<and> bud_sharedProfileId ` set (sharedBudgets g) \<subseteq> profs
      \<and> list_all (\<lambda>a. 0 \<le> alloc_percentageBp a \<and> alloc_percentageBp a \<le> 10000) (contributionAllocations g)
      \<and> alloc_contributionPlanId ` set (contributionAllocations g) \<subseteq> plan_id ` set (contributionPlans g)
      \<and> alloc_membershipId ` set (contributionAllocations g) \<subseteq> joined
      \<and> rec_membershipId ` set (contributionRecords g) \<subseteq> joined
      \<and> (\<lambda>r. (rec_periodId r, rec_sharedProfileId r)) ` set (contributionRecords g)
          \<subseteq> (\<lambda>p. (per_id p, per_sharedProfileId p)) ` set (contributionPeriods g)
      \<and> bud_periodId ` set (sharedBudgets g) \<subseteq> per_id ` set (contributionPeriods g)
      \<and> resp_sharedDebtId ` set (debtResponsibilities g) \<subseteq> debt_id ` set (sharedDebts g)
      \<and> acct_profileId ` set (accounts g) \<subseteq> pp_id ` set (personalProfiles g))"
proof -
  note v = reachable_view [OF assms(1), of t, folded assms(2)]
  have people: "distinct (map (\<lambda>m. (m_sharedProfileId m, m_userId m)) (memberships g))"
    "m_sharedProfileId ` set (memberships g) \<subseteq> sp_id ` set (sharedProfiles g)"
    using v(1) by (auto simp: governed_def keys_ok_def)
  have plans: "plans_ok g" and recs: "records_ok g"
    using v(2) by (simp_all add: books_ok_def ledger_ok_def periods_wf_def)
  have records: "(\<lambda>r. (rec_periodId r, rec_sharedProfileId r)) ` set (contributionRecords g)
      \<subseteq> (\<lambda>p. (per_id p, per_sharedProfileId p)) ` set (contributionPeriods g)"
  proof
    fix x assume "x \<in> (\<lambda>r. (rec_periodId r, rec_sharedProfileId r)) ` set (contributionRecords g)"
    with recs obtain p where "p \<in> set (contributionPeriods g)" "x = (per_id p, per_sharedProfileId p)"
      unfolding records_ok_def by auto
    then show "x \<in> (\<lambda>p. (per_id p, per_sharedProfileId p)) ` set (contributionPeriods g)" by simp
  qed
  have allocs: "list_all (\<lambda>a. 0 \<le> alloc_percentageBp a \<and> alloc_percentageBp a \<le> 10000) (contributionAllocations g)"
    "alloc_contributionPlanId ` set (contributionAllocations g) \<subseteq> plan_id ` set (contributionPlans g)"
    "distinct (map (\<lambda>p. (plan_sharedProfileId p, plan_version p)) (contributionPlans g))"
    using plans by (auto simp: plans_ok_def list_all_iff)
  show ?thesis
    using people records allocs v(4,5,6)
    by (simp add: Let_def accounts_ok_def personal_ok_def links_ok_def points_def linked_ids_def profile_ids_def readable_def)
qed

theorem system_rows_witness:
  "distinct (map (\<lambda>p. (plan_sharedProfileId p, plan_version p)) (contributionPlans (tenant_view ''t'' demo_server)))
    \<and> debt_sharedProfileId ` set (sharedDebts (tenant_view ''t'' demo_server)) \<subseteq> sp_id ` set (sharedProfiles (tenant_view ''t'' demo_server))
    \<and> resp_sharedDebtId ` set (debtResponsibilities (tenant_view ''t'' demo_server)) \<subseteq> debt_id ` set (sharedDebts (tenant_view ''t'' demo_server))
    \<and> map debt_outstandingBalance (sharedDebts (tenant_view ''t'' demo_server)) = [9]"
  using system_rows [OF demo_server_reachable refl, of "''t''", unfolded Let_def] demo_server_rows
  by (elim conjE) (intro conjI; assumption)

end
