(* ===== verification/Concurrency.thy ===== *)
theory Concurrency
  imports SystemRuns
begin

section \<open>Writers that meet\<close>

text \<open>
  What \<open>common/persistence/versioned-repository.ts\<close> is for: two clients that read the same
  version of a row and both write it. The commands that carry an expected version are those of
  \<open>GovernanceRuns\<close> and \<open>ElementsRuns\<close>; between the two writes any transactions of the server may
  run. Versions never go back (\<open>sound_since\<close>), so a version that one writer has used is gone for good.
\<close>

subsection \<open>The version of a row\<close>

context versioned_rows begin

definition versions :: "uuid \<Rightarrow> 'r list \<Rightarrow> int list" where
  "versions i rows = map ver (filter (\<lambda>r. key r = i) rows)"

lemma versions_single:
  assumes "distinct (map key rows)" and "r \<in> set rows"
  shows "versions (key r) rows = [ver r]"
  using assms
proof (induction rows)
  case (Cons x xs)
  then show ?case
  proof (cases "x = r")
    case True
    with Cons.prems(1) have "filter (\<lambda>q. key q = key r) xs = []"
      by (auto simp: filter_empty_conv rev_image_eqI)
    with True show ?thesis by (simp add: versions_def)
  qed (auto simp: versions_def rev_image_eqI)
qed simp

lemma versions_Some: "versions i rows = v # vs \<Longrightarrow> \<exists>r \<in> set rows. key r = i \<and> ver r = v"
  by (auto simp: versions_def map_eq_Cons_conv filter_eq_Cons_iff)

text \<open>An update that affects a row found the expected version and left the next one.\<close>

lemma lock_uses_version:
  assumes "distinct (map key rows)" and "\<And>r. key (data r) = key r"
    and "fst (lock_update i data e rows) \<noteq> 0"
  shows "versions i rows = [e] \<and> versions i (snd (lock_update i data e rows)) = [e + 1]"
proof -
  from lock_update_outcome [OF assms(1), of i e data] assms(3)
  obtain r where r: "r \<in> set rows" "key r = i" "ver r = e"
    and rows': "snd (lock_update i data e rows) = update_where (\<lambda>q. key q = i) (bumped_row data) rows" by auto
  have keys: "distinct (map key (snd (lock_update i data e rows)))"
    using assms(1) keys_kept [where data = data, OF assms(2), of i e rows] by simp
  have "bumped_row data r \<in> set (snd (lock_update i data e rows))" using r(1,2) by (auto simp: rows' set_update_where)
  from versions_single [OF keys this] versions_single [OF assms(1) r(1)] show ?thesis
    using r(2,3) assms(2) by (simp add: bumped_row_def)
qed

text \<open>What ages has a later version.\<close>

lemma versions_age:
  assumes "ages key ver xs ys" and "distinct (map key ys)" and "versions i xs = [v]"
  shows "\<exists>w \<ge> v. versions i ys = [w]"
proof -
  from versions_Some [OF assms(3)] obtain x where x: "x \<in> set xs" "key x = i" "ver x = v" by auto
  with assms(1) obtain y where y: "y \<in> set ys" "key y = i" "v \<le> ver y" by (auto simp: ages_iff)
  with versions_single [OF assms(2) y(1)] show ?thesis by auto
qed

end

datatype versioned_table = Memberships | Goals | Debts | Investments | Budgets

fun row_versions :: "versioned_table \<times> uuid \<Rightarrow> db \<Rightarrow> int list" where
  "row_versions (Memberships, i) g = membership_lock.versions i (memberships g)"
| "row_versions (Goals, i) g = goal_lock.versions i (sharedGoals g)"
| "row_versions (Debts, i) g = debt_lock.versions i (sharedDebts g)"
| "row_versions (Investments, i) g = investment_lock.versions i (sharedInvestments g)"
| "row_versions (Budgets, i) g = budget_lock.versions i (sharedBudgets g)"

subsection \<open>Commands that carry a version\<close>

type_synonym any_command = "governance_command + element_command"

fun run_any :: "tenant_principal \<Rightarrow> any_command \<Rightarrow> db \<Rightarrow> unit result \<times> db" where
  "run_any p (Inl c) g = run_governance p c g"
| "run_any p (Inr c) g = run_element p c g"

text \<open>The row a command locks and the version it expects of it, for the six commands that take one.\<close>

fun guards :: "any_command \<Rightarrow> ((versioned_table \<times> uuid) \<times> int) option" where
  "guards (Inl (ChangeRole i r e)) = Some ((Memberships, i), e)"
| "guards (Inr (FundGoal i a e)) = Some ((Goals, i), e)"
| "guards (Inr (PayDebt i a e)) = Some ((Debts, i), e)"
| "guards (Inr (SetResponsibility i m bp e)) = Some ((Debts, i), e)"
| "guards (Inr (UpdateInvestment i v e)) = Some ((Investments, i), e)"
| "guards (Inr (RecordSpend i a e)) = Some ((Budgets, i), e)"
| "guards _ = None"

inductive guarded :: "any_command \<Rightarrow> versioned_table \<times> uuid \<Rightarrow> int \<Rightarrow> bool" where
  "guarded (Inl (ChangeRole i r e)) (Memberships, i) e"
| "guarded (Inr (FundGoal i a e)) (Goals, i) e"
| "guarded (Inr (PayDebt i a e)) (Debts, i) e"
| "guarded (Inr (SetResponsibility i m bp e)) (Debts, i) e"
| "guarded (Inr (UpdateInvestment i v e)) (Investments, i) e"
| "guarded (Inr (RecordSpend i a e)) (Budgets, i) e"

lemma guards_guarded: "guards c = Some (row, e) \<Longrightarrow> guarded c row e"
  by (induction c rule: guards.induct) (auto intro: guarded.intros)

lemma guarded_step:
  assumes "guarded c row e"
  shows "system_step g (snd (run_any p c g))"
  using assms by cases (auto intro!: system_step.service service_step.intros)

definition row_keys :: "db \<Rightarrow> bool" where
  "row_keys g \<longleftrightarrow> distinct (map m_id (memberships g)) \<and> distinct (map goal_id (sharedGoals g))
     \<and> distinct (map debt_id (sharedDebts g)) \<and> distinct (map inv_id (sharedInvestments g))
     \<and> distinct (map bud_id (sharedBudgets g))"

lemma system_row_keys: "system_ok g \<Longrightarrow> row_keys g"
  by (simp add: system_ok_def governed_def keys_ok_def wallet_ok_def elements_ok_def elements_wf_def row_keys_def)

lemma lock_Ok:
  "updateWithOptimisticLock e upd reload oc g = (Ok v, h) \<longleftrightarrow> (\<exists>n. upd e g = (n, h) \<and> n \<noteq> 0 \<and> v = reload h)"
  by (auto simp: updateWithOptimisticLock_def split: prod.splits if_splits)

lemma changeRoleVersioned_eq:
  "changeRoleVersioned i role e g = (let u = membership_lock.lock_update i (\<lambda>r. r\<lparr>m_role := role\<rparr>) e (memberships g)
     in (fst u, g\<lparr>memberships := snd u\<rparr>))"
  by (simp add: changeRoleVersioned_def membership_lock.lock_update_def Let_def case_prod_unfold)

lemma replace_debts: "replaceResponsibilities t d ss g = (r, h) \<Longrightarrow> sharedDebts h = sharedDebts g"
proof -
  have create: "createResponsibilities t d ss g = (r, h) \<Longrightarrow> sharedDebts h = sharedDebts g" for g
    by (induction ss arbitrary: g) (auto split: if_splits)
  show "replaceResponsibilities t d ss g = (r, h) \<Longrightarrow> sharedDebts h = sharedDebts g"
    unfolding replaceResponsibilities_def by (drule create) simp
qed

text \<open>A guarded update that affects a row used the version it expected.\<close>

abbreviation uses_version :: "versioned_table \<times> uuid \<Rightarrow> int \<Rightarrow> db \<Rightarrow> db \<Rightarrow> bool" where
  "uses_version row e g h \<equiv> row_versions row g = [e] \<and> row_versions row h = [e + 1]"

lemma update_uses_version:
  assumes "row_keys g" and "0 < n"
  shows "changeRoleVersioned i role e g = (n, h) \<Longrightarrow> uses_version (Memberships, i) e g h"
    and "fundGoalVersioned i f st e g = (n, h) \<Longrightarrow> uses_version (Goals, i) e g h"
    and "payDebtVersioned i b e g = (n, h) \<Longrightarrow> uses_version (Debts, i) e g h"
    and "touchDebtVersioned i e g = (n, h) \<Longrightarrow> uses_version (Debts, i) e g h"
    and "updateInvestmentVersioned i v at e g = (n, h) \<Longrightarrow> uses_version (Investments, i) e g h"
    and "recordSpendVersioned i sp e g = (n, h) \<Longrightarrow> uses_version (Budgets, i) e g h"
proof -
  have keys: "distinct (map m_id (memberships g))" "distinct (map goal_id (sharedGoals g))"
    "distinct (map debt_id (sharedDebts g))" "distinct (map inv_id (sharedInvestments g))"
    "distinct (map bud_id (sharedBudgets g))"
    using assms(1) by (simp_all add: row_keys_def)
  note eqs = versioned_eqs changeRoleVersioned_eq Let_def
  show "changeRoleVersioned i role e g = (n, h) \<Longrightarrow> uses_version (Memberships, i) e g h"
    using membership_lock.lock_uses_version [OF keys(1), of "\<lambda>r. r\<lparr>m_role := role\<rparr>" i e] assms(2) by (auto simp: eqs)
  show "fundGoalVersioned i f st e g = (n, h) \<Longrightarrow> uses_version (Goals, i) e g h"
    using goal_lock.lock_uses_version [OF keys(2), of "\<lambda>r. r\<lparr>goal_fundedAmount := f, goal_status := st\<rparr>" i e] assms(2) by (auto simp: eqs)
  show "payDebtVersioned i b e g = (n, h) \<Longrightarrow> uses_version (Debts, i) e g h"
    using debt_lock.lock_uses_version [OF keys(3), of "\<lambda>r. r\<lparr>debt_outstandingBalance := b\<rparr>" i e] assms(2) by (auto simp: eqs)
  show "touchDebtVersioned i e g = (n, h) \<Longrightarrow> uses_version (Debts, i) e g h"
    using debt_lock.lock_uses_version [OF keys(3), of "\<lambda>r. r" i e] assms(2) by (auto simp: eqs)
  show "updateInvestmentVersioned i v at e g = (n, h) \<Longrightarrow> uses_version (Investments, i) e g h"
    using investment_lock.lock_uses_version [OF keys(4), of "\<lambda>r. r\<lparr>inv_currentValue := v, inv_valueAsOf := at\<rparr>" i e] assms(2) by (auto simp: eqs)
  show "recordSpendVersioned i sp e g = (n, h) \<Longrightarrow> uses_version (Budgets, i) e g h"
    using budget_lock.lock_uses_version [OF keys(5), of "\<lambda>r. r\<lparr>bud_spent := sp\<rparr>" i e] assms(2) by (auto simp: eqs)
qed

text \<open>So does a transaction that commits.\<close>

lemma tx_uses_version:
  assumes "row_keys g"
  shows "changeMemberRole_tx p i role e g = (Ok m, h) \<Longrightarrow> uses_version (Memberships, i) e g h"
    and "fundGoal_tx p i a e g = (Ok rg, h) \<Longrightarrow> uses_version (Goals, i) e g h"
    and "paySharedDebt_tx p i a e g = (Ok rd, h) \<Longrightarrow> uses_version (Debts, i) e g h"
    and "setDebtResponsibility_tx p i mb bp e g = (Ok rd, h) \<Longrightarrow> uses_version (Debts, i) e g h"
    and "updateInvestmentValue_tx p i a e g = (Ok ri, h) \<Longrightarrow> uses_version (Investments, i) e g h"
    and "recordBudgetSpend_tx p i a e g = (Ok rb, h) \<Longrightarrow> uses_version (Budgets, i) e g h"
  unfolding changeMemberRole_tx_def fundGoal_tx_def paySharedDebt_tx_def setDebtResponsibility_tx_def
    updateInvestmentValue_tx_def recordBudgetSpend_tx_def
  by (auto simp: use_case_Ok lock_Ok Let_def dest!: update_uses_version [OF assms, rotated] replace_debts split: if_splits)

text \<open>So does the command, on the rows of its tenant.\<close>

lemma discard_Ok: "discard c = (Ok (), h) \<longleftrightarrow> (\<exists>v. c = (Ok v, h))"
  by (cases c; cases "fst c") (auto simp: discard_def)

lemma command_uses_version:
  assumes "guarded c row e" and "system_ok (tenant_view (pr_tenantId p) g)" and "run_any p c g = (Ok (), h)"
  shows "row_versions row (tenant_view (pr_tenantId p) g) = [e]
    \<and> row_versions row (tenant_view (pr_tenantId p) h) = [e + 1]"
  using assms(1,3) tx_uses_version [OF system_row_keys [OF assms(2)]]
  by cases (auto simp: discard_Ok changeMemberRole_def fundGoal_uc_def paySharedDebt_def setDebtResponsibility_def
      updateInvestmentValue_uc_def recordBudgetSpend_def simp del: row_versions.simps dest!: withTenant_Ok(1))

lemma rows_age_versions:
  assumes "rows_age g h" and "system_ok h" and "row_versions row g = [v]"
  shows "\<exists>w \<ge> v. row_versions row h = [w]"
proof -
  have k: "row_keys h" by (rule system_row_keys [OF assms(2)])
  obtain t i where row: "row = (t, i)" by (cases row)
  show ?thesis
    using assms(1,3) k membership_lock.versions_age [of "memberships g" "memberships h" i v]
      goal_lock.versions_age [of "sharedGoals g" "sharedGoals h" i v]
      debt_lock.versions_age [of "sharedDebts g" "sharedDebts h" i v]
      investment_lock.versions_age [of "sharedInvestments g" "sharedInvestments h" i v]
      budget_lock.versions_age [of "sharedBudgets g" "sharedBudgets h" i v]
    by (cases t) (simp_all add: row rows_age_def elements_age_def row_keys_def)
qed

subsection \<open>A balance without a version\<close>

text \<open>
  \<open>contributeFromAccount\<close> (\<open>modules/accounts/application/accounts.service.ts\<close>) reads the balance and later
  writes an absolute new one, and accounts carry no version. Two contributions from one
  account that both read before either writes, which the default isolation level of PostgreSQL lets happen,
  are the writes of the second one on the database the first one left, with the balance it read before.
  Both records stay and one debit is lost: the tenant's wealth grows by the first amount.
\<close>

lemma contribute_writes_rows:
  "accounts (snd (contribute_writes p i f a b g)) = update_where (\<lambda>c. acct_id c = acct_id a) (\<lambda>c. c\<lparr>acct_balance := b\<rparr>) (accounts g)"
  "map rec_amount (contributionRecords (snd (contribute_writes p i f a b g)))
    = map rec_amount (contributionRecords g) @ [cfa_amountCents i]"
proof -
  have records: "contributionRecords (snd (ensureOpenPeriod t f now k)) = contributionRecords k" for t now k
    by (auto simp: ensureOpenPeriod_def openPeriod_def createPeriod_def Let_def split: option.splits)
  have same: "snd (and_then x k (\<lambda>v. (Ok (v, r), k))) = k" for x :: "account_row result" and r :: record_row and k :: db
    by (cases x) simp_all
  show "accounts (snd (contribute_writes p i f a b g)) = update_where (\<lambda>c. acct_id c = acct_id a) (\<lambda>c. c\<lparr>acct_balance := b\<rparr>) (accounts g)"
    by (simp add: contribute_writes_def Let_def case_prod_unfold same setBalance_rows)
  show "map rec_amount (contributionRecords (snd (contribute_writes p i f a b g)))
      = map rec_amount (contributionRecords g) @ [cfa_amountCents i]"
    by (simp add: contribute_writes_def Let_def case_prod_unfold same records createRecord_def)
qed

lemma contribute_writes_wealth:
  assumes "distinct (map acct_id (accounts g))" and "c \<in> set (accounts g)" and "acct_id c = acct_id a"
  shows "wealth (snd (contribute_writes p i f a b g)) = wealth g - acct_balance c + b + cfa_amountCents i"
  using sum_update_where [OF assms(1,2), of acct_balance "\<lambda>c. c\<lparr>acct_balance := b\<rparr>" b] assms(3)
  by (simp add: wealth_def contribute_writes_rows)

lemma lost_debit:
  assumes "accounts_ok g" and "a \<in> set (accounts g)"
    and "h = snd (contribute_writes p i f a (acct_balance a - cfa_amountCents i) g)"
    and "k = snd (contribute_writes p j f' a (acct_balance a - cfa_amountCents j) h)"
  shows "wealth h = wealth g" and "wealth k = wealth h + cfa_amountCents i"
proof -
  have keys: "distinct (map acct_id (accounts g))" using assms(1) by (simp add: accounts_ok_def)
  from contribute_writes_wealth [OF keys assms(2) refl] show h: "wealth h = wealth g" by (simp add: assms(3))
  let ?a = "a\<lparr>acct_balance := acct_balance a - cfa_amountCents i\<rparr>"
  have rows: "accounts h = update_where (\<lambda>c. acct_id c = acct_id a)
      (\<lambda>c. c\<lparr>acct_balance := acct_balance a - cfa_amountCents i\<rparr>) (accounts g)"
    by (simp add: assms(3) contribute_writes_rows)
  have "?a \<in> set (accounts h)" using assms(2) by (auto simp: rows set_update_where)
  moreover have "distinct (map acct_id (accounts h))" using keys by (simp add: rows map_update_where)
  ultimately show "wealth k = wealth h + cfa_amountCents i"
    using contribute_writes_wealth [of h ?a a] by (simp add: assms(4))
qed

subsection \<open>Properties\<close>

text \<open>
  C9: a version is used once. When a command that carries an expected version succeeds on a database the
  server has reached, the row had exactly that version and has the next one; and however the transactions of
  other requests, jobs and consumers go on from there, no command of the tenant that carries the same
  version of the same row ever succeeds again. So of two clients that read the same version at most one writes, and
  no update is lost.
\<close>

theorem version_used_once:
  assumes "system_reachable g" and "guards c = Some (row, e)" and "run_any p c g = (Ok (), h)"
    and "system_steps h k" and "guards c' = Some (row, e)" and "pr_tenantId q = pr_tenantId p"
  shows "row_versions row (tenant_view (pr_tenantId p) g) = [e]
    \<and> row_versions row (tenant_view (pr_tenantId p) h) = [e + 1]
    \<and> \<not> isOk (fst (run_any q c' k))"
proof -
  let ?view = "tenant_view (pr_tenantId p)"
  have c: "guarded c row e" "guarded c' row e" using assms(2,5) by (simp_all add: guards_guarded)
  have h: "system_reachable h"
    using system_reachable.step [OF assms(1) guarded_step [OF c(1)], of p] assms(3) by simp
  have ok: "all_system g" "all_system h" "all_system k"
    using assms(1) h reachable_steps [OF assms(4) h] by (simp_all add: reachable_ok)
  have versions: "row_versions row (?view g) = [e]" "row_versions row (?view h) = [e + 1]"
    using command_uses_version [OF c(1) _ assms(3)] ok(1) by (simp_all add: all_system_def)
  have "sound_since h k" using steps_since [OF assms(4), of h] ok(2) by (simp add: sound_since_def)
  then have "rows_age (?view h) (?view k)" by (simp add: sound_since_def all_age_def)
  then obtain w where w: "e + 1 \<le> w" "row_versions row (?view k) = [w]"
    using rows_age_versions [OF _ _ versions(2)] ok(3) by (auto simp: all_system_def)
  have "\<not> isOk (fst (run_any q c' k))"
  proof
    assume "isOk (fst (run_any q c' k))"
    then obtain k' where "run_any q c' k = (Ok (), k')" by (cases "run_any q c' k"; cases "fst (run_any q c' k)") auto
    then have "row_versions row (?view k) = [e]"
      using command_uses_version [OF c(2), of q k k'] ok(3) assms(6) by (simp add: all_system_def)
    with w show False by simp
  qed
  with versions show ?thesis by simp
qed

text \<open>Ann pays 4 off the debt of the demonstration; a payment decided on the same version comes later.\<close>

lemma demo_payment:
  "(let (r, h) = run_any demo_owner (Inr (PayDebt ''15'' 4 0)) demo_server
    in r = Ok () \<and> map debt_outstandingBalance (sharedDebts h) = [5] \<and> map debt_version (sharedDebts h) = [1])"
  by code_simp

theorem version_used_once_witness:
  "\<not> isOk (fst (run_any demo_owner (Inr (PayDebt ''15'' 3 0))
      ((snd (run_any demo_owner (Inr (PayDebt ''15'' 4 0)) demo_server))\<lparr>clock := 7\<rparr>)))"
proof -
  let ?pay = "run_any demo_owner (Inr (PayDebt ''15'' 4 0)) demo_server"
  have paid: "?pay = (Ok (), snd ?pay)" using demo_payment by (cases ?pay) simp
  have later: "system_steps (snd ?pay) ((snd ?pay)\<lparr>clock := 7\<rparr>)"
    by (rule r_into_rtranclp [where r = system_step]) (rule system_step.tick)
  from version_used_once [OF demo_server_reachable _ paid later, of "(Debts, ''15'')" 0 "Inr (PayDebt ''15'' 3 0)" demo_owner]
  show ?thesis by simp
qed

end
