(* ===== verification/SystemViews.thy ===== *)
theory SystemViews
  imports SystemRuns
begin

section \<open>What the running server shows\<close>

text \<open>
  The queries over the databases the whole server reaches: profiles, the figures of the channels,
  and the reconciliation of periods.
\<close>

lemma demo_server_facts:
  "list_all (has_user (tenant_view (pr_tenantId demo_owner) demo_server)) (listByProfile ''0'' (tenant_view (pr_tenantId demo_owner) demo_server))"
  "sees_profile demo_owner ''0'' (tenant_view (pr_tenantId demo_owner) demo_server)"
  "\<exists>p. p \<in> set (contributionPeriods (tenant_view ''t'' demo_server))"
proof -
  show "list_all (has_user (tenant_view (pr_tenantId demo_owner) demo_server)) (listByProfile ''0'' (tenant_view (pr_tenantId demo_owner) demo_server))"
    "sees_profile demo_owner ''0'' (tenant_view (pr_tenantId demo_owner) demo_server)"
    using demo_server_rows by (simp_all add: demo_owner_def)
  obtain r where r: "r \<in> set (contributionRecords (tenant_view ''t'' demo_server))"
    using demo_server_rows by (auto simp: map_eq_Cons_conv)
  have "records_ok (tenant_view ''t'' demo_server)"
    using reachable_view(2) [OF demo_server_reachable] by (simp add: books_ok_def ledger_ok_def periods_wf_def)
  with r show "\<exists>p. p \<in> set (contributionPeriods (tenant_view ''t'' demo_server))"
    by (auto simp: records_ok_def)
qed

subsection \<open>Properties\<close>

text \<open>
  C19: who sees a profile, and what. In every database the server reaches, the query for a profile answers
  everybody but the active members with nothing, whether or not there is such a profile. An active
  member gets the profile if the user of every membership of it, whatever its status, is a user of the tenant;
  otherwise the query throws. The answer lists all memberships in order, names as owner the one
  active membership that the profile records, and carries nobody's personal profile.
\<close>

theorem profile_view:
  assumes "system_reachable g" and "pr_tenantId p \<noteq> []" and "v = tenant_view (pr_tenantId p) g"
  shows "if \<not> list_ex (\<lambda>m. m_userId m = pr_userId p \<and> m_status m = ACTIVE) (listByProfile i v)
    then fst (sharedProfile p i g) = Ok None
    else if \<not> list_all (\<lambda>m. list_ex (\<lambda>u. u_id u = m_userId m) (users v)) (listByProfile i v)
    then fst (sharedProfile p i g) = Thrown TypeError
    else \<exists>d o' pr. fst (sharedProfile p i g) = Ok (Some d)
      \<and> map md_id (sd_members d) = map m_id (listByProfile i v)
      \<and> sd_owner d = Some o' \<and> findSharedProfile i v = Some pr \<and> sp_ownerMembershipId pr = Some (md_id o') \<and> md_status o' = ACTIVE
      \<and> list_all (\<lambda>m. ud_personalProfile (md_user m) = None) (sd_members d)"
  using profile_answer [OF reachable_view(1,6) [OF assms(1)] assms(2), of i]
  unfolding assms(3) has_user_def [abs_def] .

theorem profile_view_witness:
  "\<exists>d. fst (sharedProfile demo_owner ''0'' demo_server) = Ok (Some d)
    \<and> map md_id (sd_members d) = map m_id (listByProfile ''0'' (tenant_view ''t'' demo_server))"
proof -
  have t: "pr_tenantId demo_owner = ''t''" by (simp add: demo_owner_def)
  then have "pr_tenantId demo_owner \<noteq> []" by simp
  from profile_view [OF demo_server_reachable this refl, of "''0''"] demo_server_facts(1,2) show ?thesis
    unfolding t sees_profile_def has_user_def [abs_def] by auto
qed

text \<open>
  C15: every channel shows the same figures. For an active member of a profile, in every database the server
  reaches, the coaching read model exists; its expected pool is the pool total of the query,
  its totals are the sums over its members, and each member's expected and actual amounts and state
  are those of the member's standing (which there is none of before the first period).
\<close>

theorem channels_agree:
  assumes "system_reachable g"
    and "sees_profile p sp (tenant_view (pr_tenantId p) g)" and "pr_tenantId p \<noteq> []" and "sp \<noteq> []"
  shows "\<exists>model. fst (readModel p sp g) = Ok model
    \<and> fst (poolTotal p sp (crm_baseCurrency model) None g)
        = Ok \<lparr>amountCents = crm_poolExpectedCents model, currency = crm_baseCurrency model\<rparr>
    \<and> crm_poolExpectedCents model = sum_list (map cm_expectedCents (crm_members model))
    \<and> crm_poolActualCents model = sum_list (map cm_actualCents (crm_members model))
    \<and> (\<forall>c \<in> set (crm_members model). \<forall>d. md_id d = cm_membershipId c \<and> md_sharedProfileId d = sp
          \<and> md_currency d = crm_baseCurrency model \<longrightarrow>
          fst (standing p d None g) = Ok (if openPeriodOf sp (tenant_view (pr_tenantId p) g) = None then None else Some
            \<lparr>st_expected = \<lparr>amountCents = cm_expectedCents c, currency = crm_baseCurrency model\<rparr>,
             st_actual = \<lparr>amountCents = cm_actualCents c, currency = crm_baseCurrency model\<rparr>,
             st_variance = \<lparr>amountCents = cm_actualCents c - cm_expectedCents c, currency = crm_baseCurrency model\<rparr>,
             st_state = cm_state c\<rparr>))"
  by (rule figures_agree [OF reachable_view(2,6) [OF assms(1)] assms(2-4)])

theorem channels_agree_witness:
  "\<exists>model. fst (readModel demo_owner ''0'' demo_server) = Ok model
    \<and> crm_poolActualCents model = sum_list (map cm_actualCents (crm_members model))"
  using channels_agree [OF demo_server_reachable demo_server_facts(2)] by (auto simp: demo_owner_def)

text \<open>
  C28: reconciliation never fails and is exact. For every period of every database the server reaches
  the snapshot can be read and reconciled: the pool's actual total is the sum of all records of the
  period, whoever made them, the expected total is the analytics core's, and the shortfall is what
  is missing.
\<close>

theorem period_reconciles:
  assumes "system_reachable h" and "g = tenant_view t h" and "p \<in> set (contributionPeriods g)"
  shows "\<exists>ms rc. snapshotMembers p g = Ok ms
    \<and> reconcile ms (actualByMember (per_id p) g) = Ok rc
    \<and> poolActualCents rc = sum_list (map rec_amount (filter (\<lambda>r. rec_periodId r = per_id p) (contributionRecords g)))
    \<and> poolExpectedTotalCents ms = Ok (poolExpectedCents rc)
    \<and> shortfallCents rc = max 0 (poolExpectedCents rc - poolActualCents rc)"
proof -
  have "ledger_ok g" using reachable_view(2) [OF assms(1), of t] by (simp add: assms(2) books_ok_def)
  then show ?thesis using assms(3) by (rule reconciled_period)
qed

theorem period_reconciles_witness:
  "\<exists>p ms rc. p \<in> set (contributionPeriods (tenant_view ''t'' demo_server))
    \<and> snapshotMembers p (tenant_view ''t'' demo_server) = Ok ms
    \<and> reconcile ms (actualByMember (per_id p) (tenant_view ''t'' demo_server)) = Ok rc"
proof -
  obtain p where p: "p \<in> set (contributionPeriods (tenant_view ''t'' demo_server))"
    using demo_server_facts(3) by blast
  from period_reconciles [OF demo_server_reachable refl p] p show ?thesis by blast
qed

end
