(* ===== verification/Rejections.thy ===== *)
theory Rejections
  imports SystemRuns
begin

section \<open>Rejected commands\<close>

text \<open>
  A use case decides before it writes: when it answers with a domain error the transaction commits, but
  commits nothing. The lemmas follow the use cases of the contributions and of the shared elements; those
  of governance are in \<open>Governance\<close>. A contribution from an account is the exception. The two sweeps, which work off several rows in one
  transaction, cannot fail with a domain error in the databases the server reaches.
\<close>

lemma lock_rejects:
  assumes "updateWithOptimisticLock e upd reload None g = (Err er, h)" and "\<And>k. upd e g = (0, k) \<Longrightarrow> k = g"
  shows "h = g"
  using assms by (auto simp: updateWithOptimisticLock_def split: prod.splits if_splits)

lemma versioned_miss:
  "fundGoalVersioned i a st e g = (0, k) \<Longrightarrow> k = g"
  "payDebtVersioned i a e g = (0, k) \<Longrightarrow> k = g"
  "touchDebtVersioned i e g = (0, k) \<Longrightarrow> k = g"
  "updateInvestmentVersioned i a t e g = (0, k) \<Longrightarrow> k = g"
  "recordSpendVersioned i a e g = (0, k) \<Longrightarrow> k = g"
  by (auto simp: fundGoalVersioned_def payDebtVersioned_def touchDebtVersioned_def updateInvestmentVersioned_def
      recordSpendVersioned_def prismaVersionedUpdate_def Let_def update_where_count0)

lemma createResponsibilities_not_Err: "createResponsibilities t d ss g \<noteq> (Err e, h)"
  by (induction ss arbitrary: g) auto

lemma writes_not_Err:
  "createPlan t sp v m per g \<noteq> (Err e, h)" "planOrFirst t sp m g \<noteq> (Err e, h)"
  "replaceResponsibilities t d ss g \<noteq> (Err e, h)" "createBudgetRow t sp q cat lim g \<noteq> (Err e, h)"
  by (auto simp: createPlan_def planOrFirst_def replaceResponsibilities_def createBudgetRow_def Let_def
      createResponsibilities_not_Err split: option.splits if_splits)

lemma rejects_asserted:
  "(\<And>v. rejects_cleanly g (k v)) \<Longrightarrow> rejects_cleanly g (and_then (asserted a) h k)"
  by (cases a) (auto simp: rejects_cleanly_def asserted_def)

lemma contributions_reject_cleanly:
  "rejects_cleanly g (setDeclaredIncome_tx p si g)" "rejects_cleanly g (setAllocation_tx p sa g)"
  "rejects_cleanly g (recordContribution_tx p rc g)" "rejects_cleanly g (redistribute_tx p sp as g)"
  unfolding setDeclaredIncome_tx_def setAllocation_tx_def recordContribution_tx_def redistribute_tx_def Let_def case_prod_unfold
  by (intro rejects_intros; simp add: writes_not_Err)+

lemma elements_reject_cleanly:
  "rejects_cleanly g (createSharedGoal_tx p sp name a g)" "rejects_cleanly g (fundGoal_tx p i a e g)"
  "rejects_cleanly g (paySharedDebt_tx p i a e g)"
  "rejects_cleanly g (createInvestment_tx p sp name a g)" "rejects_cleanly g (updateInvestmentValue_tx p i a e g)"
  "rejects_cleanly g (createBudget_tx p sp name a g)" "rejects_cleanly g (recordBudgetSpend_tx p i a e g)"
  unfolding createSharedGoal_tx_def fundGoal_tx_def paySharedDebt_tx_def createInvestment_tx_def
    updateInvestmentValue_tx_def createBudget_tx_def recordBudgetSpend_tx_def Let_def case_prod_unfold
  by (intro rejects_intros rejects_asserted; (elim lock_rejects versioned_miss)?; simp add: writes_not_Err)+

lemma responsibility_rejects_cleanly: "rejects_cleanly g (setDebtResponsibility_tx p i m bp e g)"
  unfolding setDebtResponsibility_tx_def Let_def
  by (intro rejects_intros rejects_asserted; (elim lock_rejects versioned_miss)?; simp add: writes_not_Err)

lemma createSharedDebt_rejects_cleanly:
  assumes "elements_ok g"
  shows "rejects_cleanly g (createSharedDebt_tx p sp kind name balance g)"
proof -
  have default: "\<exists>ss. defaultResponsibilitiesFor sp (snd (createDebt t sp kind name balance g)) = Ok ss" if "0 \<le> balance" for t
  proof -
    have "plans_ok (snd (createDebt t sp kind name balance g))"
      using createDebt_step(1) [OF assms that(1)] by (simp add: elements_ok_def books_ok_def ledger_ok_def)
    from default_shares [OF this] show ?thesis by blast
  qed
  have rest: "rejects_cleanly g (and_then (defaultResponsibilitiesFor sp (snd c)) (snd c) (\<lambda>shares.
      then_do (if shares \<noteq> [] then replaceResponsibilities (pr_tenantId p) (debt_id (fst c)) shares (snd c) else (Ok (), snd c)) (\<lambda>_ g2.
        (Ok (fst c), audit_write (pr_tenantId p) r g2))))"
    if "0 \<le> balance" and "c = createDebt (pr_tenantId p) sp kind name balance g" for c r
  proof -
    have "\<exists>ss. defaultResponsibilitiesFor sp (snd c) = Ok ss" using default [OF that(1)] unfolding that(2) .
    then obtain ss where ss: "defaultResponsibilitiesFor sp (snd c) = Ok ss" by blast
    show ?thesis
      by (simp add: ss) (intro conjI impI rejects_intros; simp add: writes_not_Err)
  qed
  show ?thesis
    unfolding createSharedDebt_tx_def Let_def case_prod_unfold
    by (intro rejects_intros rest; simp)
qed

lemma sweeps_reject_cleanly:
  "ledger_ok g \<Longrightarrow> rejects_cleanly g (rolloverForTenant_tx t g)"
  "elements_ok g \<Longrightarrow> rejects_cleanly g (reassignForLeftMember_tx t sp m g)"
proof -
  assume l: "ledger_ok g"
  then have "periods_wf g" by (simp add: ledger_ok_def)
  from rollover_loop_exact [where ps = "duePeriods (clock g) g" and now = "clock g" and t = t and k = 0, OF l duePeriods_ids [OF this] duePeriods_set]
  show "rejects_cleanly g (rolloverForTenant_tx t g)" by (auto simp: rolloverForTenant_tx_def rejects_cleanly_def)
next
  assume e: "elements_ok g"
  obtain r h where r: "reassignForLeftMember_tx t sp m g = (r, h)" by fastforce
  from reassign_facts [OF e r] show "rejects_cleanly g (reassignForLeftMember_tx t sp m g)"
    by (cases r) (simp_all add: r rejects_cleanly_def)
qed

lemma rejected_here:
  assumes "withTenant t f g = (Err e, g')" and "rejects_cleanly (tenant_view t g) (f (tenant_view t g))"
  shows "same_tables (tenant_view u g) (tenant_view u g')"
proof (cases "u = t")
  case True
  from view_after [OF assms(1)] assms(2) True show ?thesis by (simp add: rejects_cleanly_def)
next
  case False
  then show ?thesis using withTenant_other [OF assms(1)] by simp
qed

lemma rejected_governance:
  assumes "run_governance p c g = (Err e, g')"
  shows "same_tables (tenant_view u g) (tenant_view u g')"
  using assms
  by (cases c)
    (auto simp: discard_Err createSharedProfile_def inviteMember_def acceptInvitation_def declineInvitation_def
      leaveProfile_def changeMemberRole_def nominateOwner_uc_def acceptOwnership_uc_def archiveProfile_def
      expiry_runForTenant_def intro: rejected_here profiles_reject_cleanly changeMemberRole_clean expiry_clean)

lemma rejected_contribution:
  assumes "run_contribution p c g = (Err e, g')" and "ledger_ok (tenant_view (pr_tenantId p) g)"
  shows "same_tables (tenant_view u g) (tenant_view u g')"
  using assms
  by (cases c)
    (auto simp: discard_Err setDeclaredIncome_def setAllocation_def recordContribution_def redistribute_def rolloverForTenant_def
      intro: rejected_here contributions_reject_cleanly sweeps_reject_cleanly(1))

lemma rejected_element:
  assumes "run_element p c g = (Err e, g')" and "elements_ok (tenant_view (pr_tenantId p) g)"
  shows "same_tables (tenant_view u g) (tenant_view u g')"
  using assms
  by (cases c)
    (auto simp: discard_Err createSharedGoal_def fundGoal_uc_def createSharedDebt_def paySharedDebt_def setDebtResponsibility_def
      createInvestment_def updateInvestmentValue_uc_def createBudget_def recordBudgetSpend_def reassignForLeftMember_def
      intro: rejected_here elements_reject_cleanly responsibility_rejects_cleanly createSharedDebt_rejects_cleanly
        sweeps_reject_cleanly(2))

text \<open>
  The account use cases create the caller's personal profile on the way. Opening an account checks the
  balance first; a contribution is checked afterwards, so its rejection may leave that row behind.
\<close>

lemma account_rejects:
  assumes "wallet_ok g" and "contributeFromAccount_tx held p i g = (Err e, h)"
  shows "\<exists>rows. personalProfiles h = personalProfiles g @ rows \<and> map pp_userId rows \<in> {[], [pr_userId p]}
    \<and> same_tables g (h\<lparr>personalProfiles := personalProfiles g\<rparr>)"
  using assms
proof (cases rule: contributeFromAccount_cases)
  case (refused e' pp)
  then show ?thesis
    by (auto simp: findOrCreatePersonalProfile_def Let_def same_tables_def split: option.splits if_splits
        intro: exI [of _ "[]"])
next
  case (moved pp k a f m)
  have "wallet_ok k" by (rule personal_profile_wallet [OF moved(1) assms(1)])
  from contribute_writes_facts(3) [OF this moved(2,9,10,12,13,14)] show ?thesis by simp
qed simp

lemma createAccount_rejects: "rejects_cleanly g (createPersonalAccount_tx held p i g)"
  unfolding createPersonalAccount_tx_def Let_def case_prod_unfold
  by (intro rejects_intros) (simp_all add: personal_profile_not_Err)

lemma rejected_opening:
  "discard (createPersonalAccount p i g) = (Err e, g') \<Longrightarrow> same_tables (tenant_view u g) (tenant_view u g')"
  by (auto simp: discard_Err createPersonalAccount_def intro: rejected_here createAccount_rejects)

lemma rejected_account:
  assumes "discard (contributeFromAccount p i g) = (Err e, g')" and "wallet_ok (tenant_view (pr_tenantId p) g)"
    and "u = pr_tenantId p"
  shows "\<exists>rows. personalProfiles (tenant_view u g') = personalProfiles (tenant_view u g) @ rows
    \<and> map pp_userId rows \<in> {[], [pr_userId p]}
    \<and> same_tables (tenant_view u g) ((tenant_view u g')\<lparr>personalProfiles := personalProfiles (tenant_view u g)\<rparr>)"
  using account_rejects [OF assms(2)] view_after [of u _ g "Err e" g'] assms(1,3)
  by (fastforce simp: discard_Err contributeFromAccount_def)

lemma demo_rejected: "fst (run_element demo_owner (CreateGoal ''0'' ''Trip'' 0) demo_server) = Err (validation None)"
  by code_simp

subsection \<open>Properties\<close>

text \<open>
  C16: a rejected command changes nothing. In every database the server reaches: when a command on
  profiles, contributions or shared elements, the opening of an account, or one of the sweeps ends in a domain
  error, every table of every tenant, outbox and audit log included, is as it was. When a contribution
  from an account does, the same holds except that the caller's personal profile may have been
  created; the other tenants' tables are as they were in any case.
\<close>

theorem rejected_command_changes_nothing:
  assumes "system_reachable g"
  shows "(run_governance p gc g = (Err e, h) \<or> run_contribution p cc g = (Err e, h) \<or> run_element p ec g = (Err e, h)
        \<or> discard (createPersonalAccount p ca g) = (Err e, h)
      \<longrightarrow> same_tables (tenant_view u g) (tenant_view u h))
    \<and> (discard (contributeFromAccount p cf g) = (Err e, h) \<longrightarrow>
        (if u \<noteq> pr_tenantId p then same_tables (tenant_view u g) (tenant_view u h)
         else \<exists>rows. personalProfiles (tenant_view u h) = personalProfiles (tenant_view u g) @ rows
            \<and> map pp_userId rows \<in> {[], [pr_userId p]}
            \<and> same_tables (tenant_view u g) ((tenant_view u h)\<lparr>personalProfiles := personalProfiles (tenant_view u g)\<rparr>)))"
proof (intro conjI impI)
  note v = reachable_view(2,3) [OF assms(1), of "pr_tenantId p"]
  have w: "wallet_ok (tenant_view (pr_tenantId p) g)"
    using reachable_ok [OF assms] by (simp add: all_system_def system_ok_def)
  {
    assume "run_governance p gc g = (Err e, h) \<or> run_contribution p cc g = (Err e, h) \<or> run_element p ec g = (Err e, h)
        \<or> discard (createPersonalAccount p ca g) = (Err e, h)"
    then show "same_tables (tenant_view u g) (tenant_view u h)"
      using v rejected_governance [of p gc g e h u] rejected_contribution [of p cc g e h u] rejected_element [of p ec g e h u]
        rejected_opening [of p ca g e h u]
      by (auto simp: books_ok_def)
  next
    assume c: "discard (contributeFromAccount p cf g) = (Err e, h)"
    then show "if u \<noteq> pr_tenantId p then same_tables (tenant_view u g) (tenant_view u h)
         else \<exists>rows. personalProfiles (tenant_view u h) = personalProfiles (tenant_view u g) @ rows
            \<and> map pp_userId rows \<in> {[], [pr_userId p]}
            \<and> same_tables (tenant_view u g) ((tenant_view u h)\<lparr>personalProfiles := personalProfiles (tenant_view u g)\<rparr>)"
      using rejected_account [OF c w] withTenant_other
      by (auto simp: discard_Err contributeFromAccount_def)
  }
qed

theorem rejected_command_changes_nothing_witness:
  "\<exists>h. run_element demo_owner (CreateGoal ''0'' ''Trip'' 0) demo_server = (Err (validation None), h)
    \<and> same_tables (tenant_view ''t'' demo_server) (tenant_view ''t'' h)"
proof -
  obtain h where "run_element demo_owner (CreateGoal ''0'' ''Trip'' 0) demo_server = (Err (validation None), h)"
    using demo_rejected by (metis prod.collapse)
  with rejected_command_changes_nothing [OF demo_server_reachable] show ?thesis by blast
qed

end
