(* ===== verification/Spec2Isabelle.thy ===== *)
theory Spec2Isabelle
  imports Prelude Deployment Errors Money Allocation Calendar Periods Analytics Membership Capability Store Tenancy Versioned
    Outbox Profiles Governance GovernanceRuns Cap Contributions Commitments Ledger LedgerRuns
    ElementsDomain SharedElements Elements ElementsRuns
    Accounts Worker Cache Consumers Choreography RateLimit Pagination ProfilesRead
    ContributionsRead Coaching ElementsRead PubSub Gateway Telemetry Resolvers Scheduling
    SystemLinks SystemGovernance Services Boundary SystemRuns Concurrency SystemViews Rejections
begin

text \<open>
  A verification model of the FinancialOS API server (TypeScript, \<open>src/apps/api/src\<close>; paths below are
  relative to it). The server keeps the shared finances of households: profiles with members and one
  owner, contribution plans in percentages of declared incomes, periods with recorded
  contributions, shared goals, debts, investments and budgets, and private accounts.

  \<^bold>\<open>How the program is put together.\<close> A GraphQL request passes the rate-limit guard, the
  validation pipe and a resolver; the resolver finds the principal in the request context, calls one
  use case, unwraps its \<open>Result\<close>, and reads its answer back. A use case runs in one transaction of
  \<open>withTenant\<close>, which sees only the rows of the caller's tenant; within it the use case decides on
  pure domain functions, writes its rows, and appends a domain event to the outbox and an entry to the
  audit log. A relay moves the outbox to a job queue, a worker hands each event to the registered
  consumers (audit, debt reassignment, coaching) at most once, and two scheduled sweeps expire
  invitations and roll contribution periods over.

  \<^bold>\<open>How it is modelled.\<close> Rows are records, a table is the list of its rows in order of insertion,
  the database is the record \<open>db\<close> of its tables together with the clock and the supply of
  identifiers. A service method is a function from a database to a result and a database. Its result
  \<open>Ok\<close> or \<open>Fail\<close> is what the method returns, \<open>Throw\<close> is an exception; a definition
  ending in \<open>_tx\<close> is the body of the method's transaction. Asynchronous code that awaits each of its
  calls is written as the sequence of those calls; what may interleave is written as steps
  (\<open>system_step\<close>). Libraries and services outside the repository (Redis, BullMQ, the language
  model's endpoint, \<open>JSON.parse\<close> of foreign text, \<open>Number\<close> of a text) are arguments, and what
  theorems assume of them is a named predicate, met by a list-based instance in the witnesses.

  \<^bold>\<open>The theories, bottom up.\<close>

  Foundations.
  \<^item> \<open>Prelude\<close>: JavaScript numbers and JSON as the code inspects them, decimal text of a bigint, stable
    sorting, tables as lists with \<open>filter\<close>/\<open>update_where\<close>; the collections of rewrite rules
    the component proofs use.
  \<^item> \<open>Errors\<close> (\<open>common/errors\<close>): codes, \<open>Result\<close>, the mapping to GraphQL errors, the catalog.
  \<^item> \<open>Money\<close>, \<open>Allocation\<close> (\<open>common/money\<close>): amounts in minor units of one currency; basis points and the
    split of a total by largest remainders, which reconciles to the cent and stays within a cent of
    the proportional share.
  \<^item> \<open>Calendar\<close>, \<open>Periods\<close> (\<open>modules/contributions/domain/contribution-period.ts\<close>): the UTC calendar that
    \<open>Date\<close> implements, and the windows of periods, which partition time.
  \<^item> \<open>Analytics\<close>, \<open>Cap\<close> (\<open>modules/contributions/domain\<close>): expected contributions, standings, pools, the
    reconciliation, and the cap of 100 percent of an income over all profiles.
  \<^item> \<open>Membership\<close>, \<open>Capability\<close> (\<open>modules/profiles/domain/entities\<close>, \<open>modules/permissions\<close>): the status
    machine of a membership as a step relation, ownership, archival; the matrix of capabilities and
    the guard that follows seniority.
  \<^item> \<open>Store\<close>, \<open>Tenancy\<close>, \<open>Versioned\<close>, \<open>Outbox\<close> (\<open>prisma\<close>, \<open>modules/tenancy\<close>, \<open>common/persistence\<close>,
    \<open>modules/events/outbox\<close>, \<open>modules/permissions/audit\<close>): the schema, scoped transactions over the row
    policies, the guarded update, the two writers. \<open>withTenant\<close> shows no row of another tenant and
    changes none.

  Use cases.
  \<^item> \<open>Profiles\<close>, \<open>Governance\<close>, \<open>GovernanceRuns\<close> (\<open>modules/profiles\<close>): the repositories, the use cases and the
    expiry job; every profile keeps exactly one active owner; transfers, archival and the sweep exactly.
  \<^item> \<open>Contributions\<close>, \<open>Commitments\<close>, \<open>Ledger\<close>, \<open>LedgerRuns\<close> (\<open>modules/contributions\<close>): plans, periods,
    records, the rollover job; the cap over all profiles, the chain of periods of a profile, the
    sweep that opens what is due.
  \<^item> \<open>ElementsDomain\<close>, \<open>SharedElements\<close>, \<open>Elements\<close>, \<open>ElementsRuns\<close> (\<open>modules/shared-elements\<close>): goals, debts,
    investments, budgets and shares of responsibility; payments refine an abstract account, shares of
    a debt sum to 100 percent, a leaver's share goes to the others.
  \<^item> \<open>Accounts\<close> (\<open>modules/accounts\<close>): private accounts; a contribution from one moves money without creating
    any, and nobody else sees it.

  Events and infrastructure.
  \<^item> \<open>Worker\<close>, \<open>Consumers\<close>, \<open>Choreography\<close> (\<open>modules/events\<close> and the three consumers): the relay, the registry,
    claims in Redis, the handlers, and one departure followed from the use case to the shares of the
    debts.
  \<^item> \<open>Cache\<close>, \<open>RateLimit\<close>, \<open>Pagination\<close>, \<open>PubSub\<close>, \<open>Telemetry\<close>, \<open>Deployment\<close>, \<open>Scheduling\<close> (\<open>common\<close>,
    \<open>modules/scheduling\<close>): keys and invalidation, the fixed-window limiter, cursors with base64url written
    out, the bus of the subscriptions against a specification of what each subscriber receives, the
    interceptor, the configuration at startup, the registry of jobs.

  Queries and the interface.
  \<^item> \<open>ProfilesRead\<close>, \<open>ContributionsRead\<close>, \<open>ElementsRead\<close>, \<open>Coaching\<close>: the read models of the modules.
  \<^item> \<open>Gateway\<close>, \<open>Resolvers\<close>: the request context, the input constraints, the error answers, every resolver, and
    the function that answers a request.
  \<^item> \<open>Boundary\<close>: \<open>serve\<close>, one top-level field from the HTTP headers to its answer: context, rate-limit guard, then
    pipe and resolver, the subscriptions included; what becomes of requests without identity.

  The whole server.
  \<^item> \<open>SystemLinks\<close>, \<open>SystemGovernance\<close>: the invariant \<open>system_ok\<close> of a tenant's rows, which joins
    governance, books and elements, and that every transaction keeps it.
  \<^item> \<open>Services\<close>: a request is a sequence of service calls; what all calls keep, requests keep.
  \<^item> \<open>SystemRuns\<close>: \<open>system_step\<close>, one transaction of any client, job, consumer or the relay, or a tick
    of the clock; \<open>system_reachable\<close>, what such steps reach from the empty database. Requests, job
    runs, deliveries and polls are sequences of such steps (\<open>runs_in_steps\<close>), so the invariants hold
    whatever way the transactions of concurrent requests interleave. The clients' inputs are those that the
    validation pipe lets through (for the creation of a profile; elsewhere any), and \<open>system_rows\<close> says which
    references hold and which identifiers the server stores unseen.
  \<^item> \<open>Concurrency\<close>: two commands that read the same version of a row, and two contributions that read the
    same balance.
  \<^item> \<open>SystemViews\<close>, \<open>Rejections\<close>: what the queries show in every reachable database; that a rejected command
    changes nothing, but for the one command whose rejection may leave a row behind. Views rest on \<open>readable\<close>, a part of
    the invariant: base currencies are in the normal form of \<open>Money\<close>.

  \<^bold>\<open>Interfaces.\<close> \<open>versioned_rows\<close> (a table with a version column) is interpreted on memberships, goals, debts,
  investments and budgets; \<open>service_contract\<close> (what the service calls keep) on the rows of the
  tenants a principal does not belong to, on the system invariant and on the step relation; \<open>handler_contract\<close>
  (what the handlers of the worker keep) on the registered consumers; \<open>tenant_sweep\<close> (a job that visits
  the tenants it discovered) on both jobs. The properties of the manifest rest on the facts
  of these interpretations.

  \<^bold>\<open>Bounds and termination.\<close> No definition needs fuel: the code's loops run over lists of rows, and the batch
  limits it sets (500 outbox rows, 1000 due invitations, the page sizes) are in the definitions. Identifiers
  come from an arbitrary sequence, of which theorems that need it assume that it does not repeat.
  A bigint is \<open>int\<close>; a JavaScript number is \<open>js_number\<close> where the code tests for integers, and \<open>int\<close>
  where it stays within the safe integers (basis points, versions, counts).

  \<^bold>\<open>Not modelled.\<close>
  \<^item> Foreign keys (one more way for an insert to throw; no code path relies on it) and the unique indices of generated
    identifiers over several tenants. The unique \<open>PersonalProfile.userId\<close>, which PostgreSQL checks against the
    rows of all tenants, is modelled: \<open>held_elsewhere\<close> is an argument of the transactions that insert.
  \<^item> The role of the plain connection that jobs and relay use: they are given what the connection sees, and
    \<open>outbox_drains\<close> says what the relay does when it sees all and when the row policies hide everything.
  \<^item> The \<open>createdAt\<close> columns (never read, but for the order of listings, which is the order of insertion), the overflow of
    PostgreSQL's bigint column.
  \<^item> The isolation level of PostgreSQL: transactions run one after the other. Interleaving is modelled between
    transactions, and for the unguarded balance update in \<open>Concurrency\<close>.
  \<^item> Texts of messages and log lines, the order of keys in JSON, lengths in UTF-16 units (texts are
    their UTF-8 bytes).
  \<^item> The plumbing of NestJS and GraphQL: module declarations, decorators, the transport, scalars re-exported from
    a library, and the removal of undecorated input fields by the validation pipe (reported as a finding).
  \<^item> DataLoader's batching, the life cycles of the Prisma and Redis clients, and the mobile client, which is a
    user interface in another language.
\<close>

end
